(* ===== verification/Prelude.thy ===== *)
theory Prelude
  imports
    Main
    "HOL-Library.AList"
    "HOL-Library.Sublist"
    "HOL-Library.Char_ord"
    "HOL-Library.List_Lexorder"
    "HOL-Library.Multiset"
    "HOL-Library.Word"
begin

text \<open>
  The vocabulary shared by every component: Go results (a value, an error or a panic), Go maps as
  association lists in their iteration order, the functions of \<^verbatim>\<open>strings\<close> and \<^verbatim>\<open>strconv\<close> the
  program calls, and the generic lemmas about them.  A Go \<^verbatim>\<open>string\<close> or \<^verbatim>\<open>[]byte\<close> is a HOL
  \<^typ>\<open>string\<close>, one \<^typ>\<open>char\<close> per byte.
\<close>

named_theorems str_rules \<open>equations of the string functions on concatenations\<close>
named_theorems dec_rules \<open>decimal text and its inverse\<close>
named_theorems map_rules \<open>lookups in updated maps\<close>

section \<open>Results\<close>

text \<open>
  A Go function with an \<^verbatim>\<open>error\<close> result ends in one of three ways: it returns a value, it returns
  an error, or it panics (failed type assertion, nil dereference, index out of range).  The last
  two are the left summand; which panic it was is kept.
\<close>

datatype panic = TypeAssertion | NilDereference | IndexOutOfRange

datatype failure = Err string | Panic panic

type_synonym 'a go = "failure + 'a"

fun is_panic :: "'a go \<Rightarrow> bool" where
  "is_panic (Inl (Panic p)) = True"
| "is_panic r = False"

lemma is_panic_Inl_iff: "is_panic (Inl e) \<longleftrightarrow> (\<exists>p. e = Panic p)"
  by (cases e) auto

primrec go_bind :: "'a go \<Rightarrow> ('a \<Rightarrow> 'b go) \<Rightarrow> 'b go" where
  "go_bind (Inl e) f = Inl e"
| "go_bind (Inr x) f = f x"

fun go_fold :: "('a \<Rightarrow> 's \<Rightarrow> 's go) \<Rightarrow> 'a list \<Rightarrow> 's \<Rightarrow> 's go" where
  "go_fold f [] s = Inr s"
| "go_fold f (x # xs) s = go_bind (f x s) (go_fold f xs)"

fun go_map :: "('a \<Rightarrow> 'b go) \<Rightarrow> 'a list \<Rightarrow> 'b list go" where
  "go_map f [] = Inr []"
| "go_map f (x # xs) = go_bind (f x) (\<lambda>y. go_bind (go_map f xs) (\<lambda>ys. Inr (y # ys)))"

lemma go_bind_eq_Inr: "go_bind m f = Inr y \<longleftrightarrow> (\<exists>x. m = Inr x \<and> f x = Inr y)"
  by (cases m) auto

lemma go_bind_eq_Inl:
  "go_bind m f = Inl e \<longleftrightarrow> m = Inl e \<or> (\<exists>x. m = Inr x \<and> f x = Inl e)"
  by (cases m) auto

lemma go_bind_assoc: "go_bind (go_bind m f) g = go_bind m (\<lambda>x. go_bind (f x) g)"
  by (cases m) auto

lemma go_bind_Inr_right [simp]: "go_bind m Inr = m"
  by (cases m) auto

lemma go_fold_append: "go_fold f (xs @ ys) s = go_bind (go_fold f xs s) (go_fold f ys)"
proof (induction xs arbitrary: s)
  case Nil
  then show ?case by simp
next
  case (Cons x xs)
  then show ?case by (cases "f x s") auto
qed

lemma go_fold_total: "(\<And>x s. x \<in> set xs \<Longrightarrow> f x s = Inr (g x s)) \<Longrightarrow> go_fold f xs s = Inr (fold g xs s)"
  by (induction xs arbitrary: s) auto

lemma go_map_Inr_iff: "go_map f xs = Inr ys \<longleftrightarrow> list_all2 (\<lambda>x y. f x = Inr y) xs ys"
  by (induction xs arbitrary: ys) (auto simp: go_bind_eq_Inr list_all2_Cons1)

lemma go_map_length: "go_map f xs = Inr ys \<Longrightarrow> length ys = length xs"
  by (auto simp: go_map_Inr_iff dest: list_all2_lengthD)

lemma go_map_cong: "(\<And>x. x \<in> set xs \<Longrightarrow> f x = g x) \<Longrightarrow> go_map f xs = go_map g xs"
  by (induction xs) auto

text \<open>A loop whose body changes a state and can fail: the state reached stays, the failure ends the loop.\<close>

fun st_fold :: "('a \<Rightarrow> 's \<Rightarrow> 's \<times> unit go) \<Rightarrow> 'a list \<Rightarrow> 's \<Rightarrow> 's \<times> unit go" where
  "st_fold f [] s = (s, Inr ())"
| "st_fold f (x # xs) s =
     (case f x s of (s', Inl e) \<Rightarrow> (s', Inl e) | (s', Inr _) \<Rightarrow> st_fold f xs s')"

lemma st_fold_append:
  "st_fold f (xs @ ys) s =
     (case st_fold f xs s of (s', Inl e) \<Rightarrow> (s', Inl e) | (s', Inr _) \<Rightarrow> st_fold f ys s')"
  by (induction xs arbitrary: s) (auto split: prod.split sum.split)

section \<open>Maps\<close>

text \<open>
  A Go map is an association list with distinct keys.  The list order is the order in which one
  \<^verbatim>\<open>range\<close> statement visits the map; the language leaves it open.  Where the code builds a map and
  then ranges over it, the model rearranges the list by a rank of its keys that is a parameter
  (\<open>gm_visit\<close>), so that a property holds for every order.
\<close>

type_synonym ('k, 'v) gomap = "('k \<times> 'v) list"

definition gm_put :: "'k \<Rightarrow> 'v \<Rightarrow> ('k, 'v) gomap \<Rightarrow> ('k, 'v) gomap" where
  "gm_put k v m = AList.update k v m"

definition gm_get :: "('k, 'v) gomap \<Rightarrow> 'k \<Rightarrow> 'v option" where
  "gm_get m k = map_of m k"

definition gm_del :: "'k \<Rightarrow> ('k, 'v) gomap \<Rightarrow> ('k, 'v) gomap" where
  "gm_del k m = AList.delete k m"

definition gm_ok :: "('k, 'v) gomap \<Rightarrow> bool" where
  "gm_ok m \<longleftrightarrow> distinct (map fst m)"

text \<open>The contract of a map, which the components rely on and the association lists meet.\<close>

locale map_ops =
  fixes put :: "'k \<Rightarrow> 'v \<Rightarrow> 'm \<Rightarrow> 'm"
    and get :: "'m \<Rightarrow> 'k \<Rightarrow> 'v option"
    and ok :: "'m \<Rightarrow> bool"
    and keys :: "'m \<Rightarrow> 'k set"
  assumes get_put: "get (put k v m) = (get m)(k \<mapsto> v)"
    and ok_put: "ok m \<Longrightarrow> ok (put k v m)"
    and keys_put: "keys (put k v m) = insert k (keys m)"
begin

definition put_all :: "('k \<times> 'v) list \<Rightarrow> 'm \<Rightarrow> 'm" where
  "put_all kvs m = fold (\<lambda>(k, v). put k v) kvs m"

lemma put_all_Nil: "put_all [] m = m"
  by (simp add: put_all_def)

lemma put_all_Cons: "put_all ((k, v) # kvs) m = put_all kvs (put k v m)"
  by (simp add: put_all_def)

lemma put_all_ok: "ok m \<Longrightarrow> ok (put_all kvs m)"
  by (induction kvs arbitrary: m) (auto simp: put_all_Nil put_all_Cons ok_put)

lemma put_all_keys: "keys (put_all kvs m) = fst ` set kvs \<union> keys m"
  by (induction kvs arbitrary: m) (force simp: put_all_Nil put_all_Cons keys_put)+

lemma put_all_get: "get (put_all kvs m) = get m ++ map_of (rev kvs)"
proof (induction kvs arbitrary: m)
  case Nil
  then show ?case by (simp add: put_all_Nil)
next
  case (Cons kv kvs)
  then show ?case
    by (cases kv) (simp add: put_all_Cons get_put map_add_def fun_eq_iff split: option.split)
qed

end

interpretation gm: map_ops gm_put gm_get gm_ok "\<lambda>m. fst ` set m"
  by unfold_locales
    (auto simp: gm_put_def gm_get_def gm_ok_def update_conv' distinct_update dom_update
      dom_map_of_conv_image_fst [symmetric] fun_eq_iff)

declare gm.put_all_def [code_unfold]

lemmas gm_rules [map_rules] = gm.get_put gm.ok_put gm.keys_put

lemma gm_get_Nil [simp]: "gm_get [] k = None"
  by (simp add: gm_get_def)

lemma gm_ok_Nil [simp]: "gm_ok []"
  by (simp add: gm_ok_def)

lemma gm_get_del [map_rules]: "gm_get (gm_del k m) = (gm_get m)(k := None)"
  by (simp add: gm_get_def gm_del_def delete_conv' fun_eq_iff)

lemma gm_get_None_iff: "gm_get m k = None \<longleftrightarrow> k \<notin> fst ` set m"
  by (simp add: gm_get_def map_of_eq_None_iff)

lemma gm_get_same_set: "gm_ok m \<Longrightarrow> gm_ok m' \<Longrightarrow> set m = set m' \<Longrightarrow> gm_get m = gm_get m'"
  using map_of_inject_set [of m m'] by (auto simp: gm_get_def gm_ok_def fun_eq_iff)

lemma gm_get_mem: "gm_ok m \<Longrightarrow> kv \<in> set m \<Longrightarrow> gm_get m (fst kv) = Some (snd kv)"
  by (cases kv) (simp add: gm_get_def gm_ok_def)

text \<open>The visit of a map in the order a rank gives, which may be any order.\<close>

definition gm_visit :: "('k \<Rightarrow> nat) \<Rightarrow> ('k, 'v) gomap \<Rightarrow> ('k, 'v) gomap" where
  "gm_visit rank m = sort_key (\<lambda>kv. rank (fst kv)) m"

lemma set_gm_visit [simp]: "set (gm_visit rank m) = set m"
  by (simp add: gm_visit_def)

lemma mset_gm_visit [simp]: "mset (gm_visit rank m) = mset m"
  by (simp add: gm_visit_def)

lemma gm_ok_visit [simp]: "gm_ok (gm_visit rank m) = gm_ok m"
  unfolding gm_ok_def by (rule mset_eq_imp_distinct_iff) (metis mset_gm_visit mset_map)

lemma gm_get_visit [simp]: "gm_ok m \<Longrightarrow> gm_get (gm_visit rank m) = gm_get m"
  by (rule gm_get_same_set) simp_all

lemma gm_visit_any:
  assumes "gm_ok m" and "mset m' = mset m"
  shows "\<exists>rank. gm_visit rank m = m'"
proof -
  define rank where "rank k = the (map_of (zip (map fst m') [0..<length m']) k)" for k
  have ok: "distinct (map fst m')"
    using assms mset_eq_imp_distinct_iff [of "map fst m'" "map fst m"] by (simp add: gm_ok_def)
  have rank: "rank (fst (m' ! i)) = i" if "i < length m'" for i
    using that map_of_zip_nth [of "map fst m'" "[0..<length m']" i] ok by (simp add: rank_def)
  then have key: "map (\<lambda>kv. rank (fst kv)) m' = [0..<length m']"
    by (intro nth_equalityI) simp_all
  have "sort_key (\<lambda>kv. rank (fst kv)) m = sort_key (\<lambda>kv. rank (fst kv)) m'"
  proof (rule sort_key_eq_sort_key)
    show "mset m = mset m'" using assms(2) by simp
    show "inj_on (\<lambda>kv. rank (fst kv)) (set m)"
      using key assms(2) distinct_map [of "\<lambda>kv. rank (fst kv)" m'] by (metis distinct_upt mset_eq_setD)
  qed
  moreover have "sort_key (\<lambda>kv. rank (fst kv)) m' = m'"
    using key by (simp add: sort_key_id_if_sorted)
  ultimately have "gm_visit rank m = m'" by (simp add: gm_visit_def)
  then show ?thesis by (intro exI)
qed

section \<open>Strings\<close>

text \<open>\<^verbatim>\<open>strings.HasPrefix\<close>, \<^verbatim>\<open>strings.Index\<close> and \<^verbatim>\<open>strings.Contains\<close>.\<close>

definition has_prefix :: "string \<Rightarrow> string \<Rightarrow> bool" where
  "has_prefix s p \<longleftrightarrow> take (length p) s = p"

fun find_sub :: "string \<Rightarrow> string \<Rightarrow> nat option" where
  "find_sub [] sub = (if sub = [] then Some 0 else None)"
| "find_sub (c # s) sub =
     (if has_prefix (c # s) sub then Some 0 else map_option Suc (find_sub s sub))"

definition str_index :: "string \<Rightarrow> string \<Rightarrow> int" where
  "str_index s sub = (case find_sub s sub of None \<Rightarrow> -1 | Some n \<Rightarrow> int n)"

definition str_contains :: "string \<Rightarrow> string \<Rightarrow> bool" where
  "str_contains s sub \<longleftrightarrow> find_sub s sub \<noteq> None"

lemma has_prefix_iff [str_rules]: "has_prefix s p \<longleftrightarrow> (\<exists>r. s = p @ r)"
  by (metis append_eq_conv_conj append_take_drop_id has_prefix_def)

lemma find_sub_None_iff: "find_sub s sub = None \<longleftrightarrow> (\<forall>a b. s \<noteq> a @ sub @ b)"
proof (induction s)
  case Nil
  then show ?case by simp
next
  case (Cons c s)
  show ?case
  proof
    assume none: "find_sub (c # s) sub = None"
    then have np: "\<forall>r. c # s \<noteq> sub @ r" and ns: "\<forall>a b. s \<noteq> a @ sub @ b"
      using Cons.IH by (auto simp: has_prefix_iff split: if_splits)
    show "\<forall>a b. c # s \<noteq> a @ sub @ b"
    proof (intro allI notI)
      fix a b
      assume "c # s = a @ sub @ b"
      then show False using np ns by (cases a) auto
    qed
  next
    assume no: "\<forall>a b. c # s \<noteq> a @ sub @ b"
    then have "\<not> has_prefix (c # s) sub"
      by (metis append_Nil has_prefix_iff)
    moreover have "\<forall>a b. s \<noteq> a @ sub @ b"
      using no by (metis append_Cons)
    ultimately show "find_sub (c # s) sub = None"
      using Cons.IH by simp
  qed
qed

lemma str_contains_iff: "str_contains s sub \<longleftrightarrow> (\<exists>a b. s = a @ sub @ b)"
  by (simp add: str_contains_def find_sub_None_iff)

lemma str_index_neg_iff: "str_index s sub = -1 \<longleftrightarrow> \<not> str_contains s sub"
  by (auto simp: str_index_def str_contains_def split: option.splits)

lemma find_sub_0_iff: "find_sub s sub = Some 0 \<longleftrightarrow> has_prefix s sub"
  by (cases s) (auto simp: has_prefix_def)

lemma str_index_0_iff: "str_index s sub = 0 \<longleftrightarrow> has_prefix s sub"
  by (auto simp: str_index_def find_sub_0_iff [symmetric] split: option.splits)

text \<open>
  \<^verbatim>\<open>strings.Split\<close> and \<^verbatim>\<open>strings.SplitAfter\<close> at a separator of one character, the only
  separators the program uses.
\<close>

fun cons_head :: "'a \<Rightarrow> 'a list list \<Rightarrow> 'a list list" where
  "cons_head c [] = [[c]]"
| "cons_head c (w # ws) = (c # w) # ws"

fun split_on :: "char \<Rightarrow> string \<Rightarrow> string list" where
  "split_on sep [] = [[]]"
| "split_on sep (c # s) = (if c = sep then [] # split_on sep s else cons_head c (split_on sep s))"

fun split_after :: "char \<Rightarrow> string \<Rightarrow> string list" where
  "split_after sep [] = [[]]"
| "split_after sep (c # s) =
     (if c = sep then [c] # split_after sep s else cons_head c (split_after sep s))"

lemma cons_head_ne [simp]: "cons_head c ws \<noteq> []"
  by (cases ws) auto

lemma concat_cons_head [simp]: "concat (cons_head c ws) = c # concat ws"
  by (cases ws) auto

lemma length_cons_head: "ws \<noteq> [] \<Longrightarrow> length (cons_head c ws) = length ws"
  by (cases ws) auto

lemma split_on_ne [simp]: "split_on sep s \<noteq> []"
  by (cases s) auto

lemma split_after_ne [simp]: "split_after sep s \<noteq> []"
  by (cases s) auto

lemma concat_split_after [str_rules]: "concat (split_after sep s) = s"
  by (induction s) auto

lemma split_on_clean [str_rules]: "sep \<notin> set s \<Longrightarrow> split_on sep s = [s]"
  by (induction s) auto

lemma split_after_clean [str_rules]: "sep \<notin> set s \<Longrightarrow> split_after sep s = [s]"
  by (induction s) auto

lemma split_on_append [str_rules]:
  "sep \<notin> set a \<Longrightarrow> split_on sep (a @ sep # b) = a # split_on sep b"
  by (induction a) auto

lemma split_after_append [str_rules]:
  "sep \<notin> set a \<Longrightarrow> split_after sep (a @ sep # b) = (a @ [sep]) # split_after sep b"
  by (induction a) auto

lemma length_split_after: "length (split_after sep s) = Suc (count_list s sep)"
  by (induction s) (auto simp: length_cons_head)

lemma split_on_no_sep: "w \<in> set (split_on sep s) \<Longrightarrow> sep \<notin> set w"
proof (induction s arbitrary: w)
  case Nil
  then show ?case by simp
next
  case (Cons c s)
  then show ?case by (cases "split_on sep s") (auto split: if_splits)
qed

text \<open>\<^verbatim>\<open>strings.ReplaceAll\<close> for a non-empty pattern, \<^verbatim>\<open>strings.Join\<close>.\<close>

function replace_all :: "string \<Rightarrow> string \<Rightarrow> string \<Rightarrow> string" where
  "replace_all [] old new = []"
| "replace_all (c # s) old new =
     (if old \<noteq> [] \<and> has_prefix (c # s) old
      then new @ replace_all (drop (length old - 1) s) old new
      else c # replace_all s old new)"
  by pat_completeness auto
termination
  by (relation "measure (\<lambda>(s, _, _). length s)") auto

fun str_join :: "string \<Rightarrow> string list \<Rightarrow> string" where
  "str_join sep [] = []"
| "str_join sep [w] = w"
| "str_join sep (w # v # ws) = w @ sep @ str_join sep (v # ws)"

lemma str_join_Cons: "ws \<noteq> [] \<Longrightarrow> str_join sep (w # ws) = w @ sep @ str_join sep ws"
  by (cases ws) auto

lemma str_join_split_on: "str_join [sep] (split_on sep s) = s"
proof (induction s)
  case Nil
  then show ?case by simp
next
  case (Cons c s)
  then show ?case
    by (cases "split_on sep s"; cases "tl (split_on sep s)") (auto simp: str_join_Cons)
qed

text \<open>\<^verbatim>\<open>strings.ToLower\<close> and \<^verbatim>\<open>strings.ToUpper\<close> on ASCII letters; other bytes are kept.\<close>

definition to_lower :: "string \<Rightarrow> string" where
  "to_lower s = map (\<lambda>c. if 65 \<le> (of_char c :: nat) \<and> (of_char c :: nat) \<le> 90
                          then char_of ((of_char c :: nat) + 32) else c) s"

definition to_upper :: "string \<Rightarrow> string" where
  "to_upper s = map (\<lambda>c. if 97 \<le> (of_char c :: nat) \<and> (of_char c :: nat) \<le> 122
                          then char_of ((of_char c :: nat) - 32) else c) s"

section \<open>Decimal text\<close>

text \<open>\<^verbatim>\<open>strconv.FormatInt\<close> and \<^verbatim>\<open>strconv.ParseInt\<close> in base 10.\<close>

definition digit :: "nat \<Rightarrow> char" where
  "digit n = char_of (48 + n)"

definition digit_val :: "char \<Rightarrow> nat" where
  "digit_val c = of_char c - 48"

definition is_digit :: "char \<Rightarrow> bool" where
  "is_digit c \<longleftrightarrow> 48 \<le> (of_char c :: nat) \<and> (of_char c :: nat) \<le> 57"

fun dec_nat :: "nat \<Rightarrow> string" where
  "dec_nat n = (if n < 10 then [digit n] else dec_nat (n div 10) @ [digit (n mod 10)])"

declare dec_nat.simps [simp del]

definition dec_int :: "int \<Rightarrow> string" where
  "dec_int i = (if i < 0 then CHR ''-'' # dec_nat (nat (- i)) else dec_nat (nat i))"

definition parse_nat :: "string \<Rightarrow> nat option" where
  "parse_nat s =
     (if s \<noteq> [] \<and> list_all is_digit s
      then Some (foldl (\<lambda>n c. 10 * n + digit_val c) 0 s) else None)"

definition parse_dec :: "string \<Rightarrow> int option" where
  "parse_dec s =
     (case s of
        [] \<Rightarrow> None
      | c # r \<Rightarrow>
          (if c = CHR ''-'' then map_option (\<lambda>n. - int n) (parse_nat r)
           else if c = CHR ''+'' then map_option int (parse_nat r)
           else map_option int (parse_nat s)))"

text \<open>
  \<^verbatim>\<open>ParseInt(s, 10, 64)\<close>: the value and whether there was no error.  Out of range it returns the
  nearest bound with the error, on malformed text 0 with the error.
\<close>

definition parse_int64 :: "string \<Rightarrow> int \<times> bool" where
  "parse_int64 s =
     (case parse_dec s of
        None \<Rightarrow> (0, False)
      | Some i \<Rightarrow>
          (if i > 2 ^ 63 - 1 then (2 ^ 63 - 1, False)
           else if i < - (2 ^ 63) then (- (2 ^ 63), False)
           else (i, True)))"

lemma digit_val_digit [simp]: "n < 10 \<Longrightarrow> digit_val (digit n) = n"
  by (simp add: digit_def digit_val_def)

lemma is_digit_digit [simp]: "n < 10 \<Longrightarrow> is_digit (digit n)"
  by (simp add: digit_def is_digit_def)

lemma dec_nat_digits: "c \<in> set (dec_nat n) \<Longrightarrow> is_digit c"
proof (induction n rule: dec_nat.induct)
  case (1 n)
  then show ?case by (auto simp: dec_nat.simps [of n] split: if_splits)
qed

lemma dec_nat_ne [simp]: "dec_nat n \<noteq> []"
  by (simp add: dec_nat.simps [of n])

lemma parse_nat_dec_nat [dec_rules]: "parse_nat (dec_nat n) = Some n"
proof -
  have "foldl (\<lambda>n c. 10 * n + digit_val c) 0 (dec_nat n) = n"
  proof (induction n rule: dec_nat.induct)
    case (1 n)
    then show ?case by (simp add: dec_nat.simps [of n])
  qed
  then show ?thesis
    by (simp add: parse_nat_def list_all_iff dec_nat_digits)
qed

lemma dec_nat_no_sign: "dec_nat n = c # r \<Longrightarrow> c \<noteq> CHR ''-'' \<and> c \<noteq> CHR ''+''"
  using dec_nat_digits [of c n] by (auto simp: is_digit_def)

lemma parse_dec_dec_nat [dec_rules]: "parse_dec (dec_nat n) = Some (int n)"
  using dec_nat_no_sign [of n] parse_nat_dec_nat [of n]
  by (cases "dec_nat n") (auto simp: parse_dec_def)

lemma parse_dec_dec_int [dec_rules]: "parse_dec (dec_int i) = Some i"
proof (cases "i < 0")
  case True
  then show ?thesis by (simp add: dec_int_def parse_dec_def parse_nat_dec_nat)
next
  case False
  then show ?thesis by (simp add: dec_int_def parse_dec_dec_nat)
qed

lemma parse_int64_dec_int [dec_rules]:
  "- (2 ^ 63) \<le> i \<Longrightarrow> i < 2 ^ 63 \<Longrightarrow> parse_int64 (dec_int i) = (i, True)"
  by (simp add: parse_int64_def parse_dec_dec_int)

lemma parse_int64_range: "- (2 ^ 63) \<le> fst (parse_int64 s) \<and> fst (parse_int64 s) < 2 ^ 63"
  by (auto simp: parse_int64_def split: option.splits)

lemma dec_int_inject: "dec_int i = dec_int j \<longleftrightarrow> i = j"
  by (metis option.inject parse_dec_dec_int)

section \<open>Codecs\<close>

text \<open>
  An encoder with a decoder that inverts it on the values satisfying a condition.  Two codecs
  compose; the tokens of the consumer are three of them, one inside the other.
\<close>

locale codec =
  fixes enc :: "'a \<Rightarrow> 'b"
    and dec :: "'b \<Rightarrow> 'a option"
    and good :: "'a \<Rightarrow> bool"
  assumes dec_enc: "good x \<Longrightarrow> dec (enc x) = Some x"
begin

lemma enc_inject: "good x \<Longrightarrow> good y \<Longrightarrow> enc x = enc y \<longleftrightarrow> x = y"
  by (metis dec_enc option.inject)

end

locale codec_chain = inner: codec enc1 dec1 good1 + outer: codec enc2 dec2 good2
  for enc1 :: "'a \<Rightarrow> 'b" and dec1 :: "'b \<Rightarrow> 'a option" and good1 :: "'a \<Rightarrow> bool"
    and enc2 :: "'b \<Rightarrow> 'c" and dec2 :: "'c \<Rightarrow> 'b option" and good2 :: "'b \<Rightarrow> bool" +
  assumes good_enc: "good1 x \<Longrightarrow> good2 (enc1 x)"
begin

definition chain_enc :: "'a \<Rightarrow> 'c" where
  "chain_enc x = enc2 (enc1 x)"

definition chain_dec :: "'c \<Rightarrow> 'a option" where
  "chain_dec t = Option.bind (dec2 t) dec1"

lemma chain_dec_enc: "good1 x \<Longrightarrow> chain_dec (chain_enc x) = Some x"
  by (simp add: chain_enc_def chain_dec_def good_enc inner.dec_enc outer.dec_enc)

end

interpretation dec_codec: codec dec_int parse_dec "\<lambda>_. True"
  by unfold_locales (rule parse_dec_dec_int)

end
