(* ===== verification/JsonText.thy ===== *)
theory JsonText
  imports Prelude
begin

text \<open>
  JSON values, the text \<^verbatim>\<open>encoding/json\<close> writes for them and the parser it reads them with.
  A number is its literal.  Strings are bytes: bytes from 128 on are copied as they are, which is
  what the package does on valid UTF-8 other than the two separators U+2028 and U+2029.
\<close>

section \<open>Values\<close>

datatype json =
    JNull
  | JBool bool
  | JNum string
  | JStr string
  | JArr "json list"
  | JObj "(string \<times> json) list"

fun json_depth :: "json \<Rightarrow> nat" where
  "json_depth (JArr xs) = Suc (fold max (map json_depth xs) 0)"
| "json_depth (JObj kvs) = Suc (fold max (map (\<lambda>kv. json_depth (snd kv)) kvs) 0)"
| "json_depth _ = 0"

lemma fold_max_le: "\<forall>x \<in> set xs. x \<le> b \<Longrightarrow> a \<le> b \<Longrightarrow> fold max xs a \<le> (b :: nat)"
  by (induction xs arbitrary: a) auto

section \<open>Number literals\<close>

text \<open>
  \<^verbatim>\<open>-? (0 | [1-9][0-9]* ) (. [0-9]+ )? ([eE] [+-]? [0-9]+ )?\<close>, read as far as it goes.
\<close>

fun num_int :: "string \<Rightarrow> (string \<times> string) option" where
  "num_int [] = None"
| "num_int (c # r) =
     (if c = CHR ''0'' then Some ([c], r)
      else if is_digit c then Some (c # takeWhile is_digit r, dropWhile is_digit r)
      else None)"

fun num_frac :: "string \<Rightarrow> (string \<times> string) option" where
  "num_frac [] = Some ([], [])"
| "num_frac (c # r) =
     (if c = CHR ''.''
      then (if takeWhile is_digit r = [] then None
            else Some (c # takeWhile is_digit r, dropWhile is_digit r))
      else Some ([], c # r))"

fun num_exp :: "string \<Rightarrow> (string \<times> string) option" where
  "num_exp [] = Some ([], [])"
| "num_exp (c # r) =
     (if c = CHR ''e'' \<or> c = CHR ''E''
      then (let (sg, r') = (case r of
                  [] \<Rightarrow> ([], r)
                | d # r2 \<Rightarrow> (if d = CHR ''+'' \<or> d = CHR ''-'' then ([d], r2) else ([], r)))
            in if takeWhile is_digit r' = [] then None
               else Some (c # sg @ takeWhile is_digit r', dropWhile is_digit r'))
      else Some ([], c # r))"

definition num_unsigned :: "string \<Rightarrow> (string \<times> string) option" where
  "num_unsigned s =
     (case num_int s of
        None \<Rightarrow> None
      | Some (i, r1) \<Rightarrow>
          (case num_frac r1 of
             None \<Rightarrow> None
           | Some (f, r2) \<Rightarrow>
               (case num_exp r2 of
                  None \<Rightarrow> None
                | Some (e, r3) \<Rightarrow> Some (i @ f @ e, r3))))"

definition p_num :: "string \<Rightarrow> (string \<times> string) option" where
  "p_num s =
     (case s of
        [] \<Rightarrow> None
      | c # r \<Rightarrow>
          (if c = CHR ''-''
           then map_option (\<lambda>(l, r'). (c # l, r')) (num_unsigned r)
           else num_unsigned s))"

definition valid_num :: "string \<Rightarrow> bool" where
  "valid_num l \<longleftrightarrow> p_num l = Some (l, [])"

text \<open>A character that cannot continue a number: what follows a value in a document.\<close>

definition num_char :: "char \<Rightarrow> bool" where
  "num_char c \<longleftrightarrow> is_digit c \<or> c = CHR ''.'' \<or> c = CHR ''e'' \<or> c = CHR ''E''"

definition stops :: "string \<Rightarrow> bool" where
  "stops r \<longleftrightarrow> (case r of [] \<Rightarrow> True | c # _ \<Rightarrow> \<not> num_char c)"

lemma takeWhile_stops:
  "stops r \<Longrightarrow> takeWhile is_digit (xs @ r) = takeWhile is_digit xs
     \<and> dropWhile is_digit (xs @ r) = dropWhile is_digit xs @ r"
  by (induction xs) (auto simp: stops_def num_char_def split: list.splits)

lemma num_int_stops:
  "num_int s = Some (i, r1) \<Longrightarrow> stops r \<Longrightarrow> num_int (s @ r) = Some (i, r1 @ r)"
  by (cases s) (auto simp: takeWhile_stops split: if_splits)

lemma num_frac_stops:
  "num_frac s = Some (f, r1) \<Longrightarrow> stops r \<Longrightarrow> num_frac (s @ r) = Some (f, r1 @ r)"
  by (cases s; cases r)
    (auto simp: takeWhile_stops stops_def num_char_def split: if_splits)

lemma num_exp_stops:
  assumes "num_exp s = Some (e, r1)" and "stops r"
  shows "num_exp (s @ r) = Some (e, r1 @ r)"
proof (cases s)
  case Nil
  with assms show ?thesis by (cases r) (auto simp: stops_def num_char_def)
next
  case (Cons c t)
  with assms show ?thesis
    by (cases t) (auto simp: takeWhile_stops split: if_splits)
qed

lemma num_unsigned_stops:
  "num_unsigned s = Some (l, r1) \<Longrightarrow> stops r \<Longrightarrow> num_unsigned (s @ r) = Some (l, r1 @ r)"
  by (auto simp: num_unsigned_def num_int_stops num_frac_stops num_exp_stops
      split: option.splits prod.splits)

lemma p_num_stops: "p_num s = Some (l, r1) \<Longrightarrow> stops r \<Longrightarrow> p_num (s @ r) = Some (l, r1 @ r)"
  by (auto simp: p_num_def num_unsigned_stops num_unsigned_stops [where s = "_ # _", simplified]
      split: list.splits if_splits)

lemma p_num_valid: "valid_num l \<Longrightarrow> stops r \<Longrightarrow> p_num (l @ r) = Some (l, r)"
  using p_num_stops [of l l "[]" r] by (simp add: valid_num_def)

lemma valid_num_head:
  "valid_num l \<Longrightarrow> \<exists>c r. l = c # r \<and> (c = CHR ''-'' \<or> is_digit c)"
  by (cases l) (auto simp: valid_num_def p_num_def num_unsigned_def is_digit_def
      split: if_splits option.splits prod.splits)

lemma dec_nat_head0: "dec_nat n = c # r \<Longrightarrow> c = CHR ''0'' \<Longrightarrow> r = []"
proof (induction n arbitrary: c r rule: dec_nat.induct)
  case (1 n)
  show ?case
  proof (cases "n < 10")
    case True
    with "1.prems" show ?thesis by (simp add: dec_nat.simps [of n])
  next
    case False
    obtain d t where dt: "dec_nat (n div 10) = d # t"
      by (cases "dec_nat (n div 10)") auto
    have "d = CHR ''0''"
      using False dt "1.prems" by (simp add: dec_nat.simps [of n])
    then have "dec_nat (n div 10) = [CHR ''0'']"
      using "1.IH" False dt by auto
    then have "parse_nat [CHR ''0''] = Some (n div 10)"
      by (metis parse_nat_dec_nat)
    then have "n div 10 = 0"
      by (simp add: parse_nat_def is_digit_def digit_val_def)
    with False show ?thesis by simp
  qed
qed

lemma num_unsigned_dec_nat: "num_unsigned (dec_nat n) = Some (dec_nat n, [])"
proof -
  obtain c r where cr: "dec_nat n = c # r"
    by (cases "dec_nat n") auto
  have dig: "is_digit c" "\<forall>x \<in> set r. is_digit x"
    using dec_nat_digits [of _ n] cr by auto
  then have tw: "takeWhile is_digit r = r" "dropWhile is_digit r = []"
    by (auto simp: takeWhile_eq_all_conv dropWhile_eq_Nil_conv)
  show ?thesis
    using cr dig(1) dec_nat_head0 [OF cr]
    by (auto simp: num_unsigned_def tw)
qed

lemma valid_num_dec_int [simp]: "valid_num (dec_int i)"
proof (cases "i < 0")
  case True
  then show ?thesis by (simp add: valid_num_def p_num_def dec_int_def num_unsigned_dec_nat)
next
  case False
  then show ?thesis
    using num_unsigned_dec_nat [of "nat i"] dec_nat_no_sign [of "nat i"]
    by (auto simp: valid_num_def p_num_def dec_int_def split: list.splits)
qed

section \<open>String literals\<close>

text \<open>
  The encoder escapes the quote, the backslash, control characters and, as \<^verbatim>\<open>Marshal\<close> does by
  default, the three characters of HTML markup.
\<close>

definition hex_digit :: "nat \<Rightarrow> char" where
  "hex_digit n = (if n < 10 then char_of (48 + n) else char_of (87 + n))"

definition hex_val :: "char \<Rightarrow> nat option" where
  "hex_val c =
     (let n = of_char c in
      if 48 \<le> n \<and> n \<le> 57 then Some (n - 48)
      else if 97 \<le> n \<and> n \<le> 102 then Some (n - 87)
      else if 65 \<le> n \<and> n \<le> 70 then Some (n - 55)
      else None)"

definition hex4 :: "char \<Rightarrow> char \<Rightarrow> char \<Rightarrow> char \<Rightarrow> nat option" where
  "hex4 a b c d =
     (case (hex_val a, hex_val b, hex_val c, hex_val d) of
        (Some w, Some x, Some y, Some z) \<Rightarrow> Some (((w * 16 + x) * 16 + y) * 16 + z)
      | _ \<Rightarrow> None)"

definition simple_esc :: "char \<Rightarrow> char option" where
  "simple_esc c =
     map_of [(CHR 34, CHR 34), (CHR 92, CHR 92), (CHR ''/'', CHR ''/''), (CHR ''b'', CHR 8),
       (CHR ''f'', CHR 12), (CHR ''n'', CHR 10), (CHR ''r'', CHR 13), (CHR ''t'', CHR 9)] c"

definition esc_char :: "char \<Rightarrow> string" where
  "esc_char c =
     (let n = (of_char c :: nat) in
      if c = CHR 34 \<or> c = CHR 92 then [CHR 92, c]
      else if n = 8 then [CHR 92, CHR ''b'']
      else if n = 9 then [CHR 92, CHR ''t'']
      else if n = 10 then [CHR 92, CHR ''n'']
      else if n = 12 then [CHR 92, CHR ''f'']
      else if n = 13 then [CHR 92, CHR ''r'']
      else if n < 32 \<or> c = CHR ''<'' \<or> c = CHR ''>'' \<or> c = CHR ''&''
        then [CHR 92, CHR ''u'', CHR ''0'', CHR ''0'', hex_digit (n div 16), hex_digit (n mod 16)]
      else [c])"

definition json_str :: "string \<Rightarrow> string" where
  "json_str s = CHR 34 # concat (map esc_char s) @ [CHR 34]"

text \<open>UTF-8 of a code point, for the parser's \<^verbatim>\<open>\u\<close> escapes.\<close>

definition utf8 :: "nat \<Rightarrow> string" where
  "utf8 n =
     (if n < 128 then [char_of n]
      else if n < 2048 then [char_of (192 + n div 64), char_of (128 + n mod 64)]
      else if n < 65536
        then [char_of (224 + n div 4096), char_of (128 + n div 64 mod 64), char_of (128 + n mod 64)]
      else [char_of (240 + n div 262144), char_of (128 + n div 4096 mod 64),
            char_of (128 + n div 64 mod 64), char_of (128 + n mod 64)])"

fun low_surrogate :: "string \<Rightarrow> (nat \<times> string) option" where
  "low_surrogate (e # u # a # b # c # d # r) =
     (if e = CHR 92 \<and> u = CHR ''u'' then
        (case hex4 a b c d of
           None \<Rightarrow> None
         | Some n \<Rightarrow> (if 56320 \<le> n \<and> n < 57344 then Some (n, r) else None))
      else None)"
| "low_surrogate _ = None"

lemma low_surrogate_length: "low_surrogate s = Some (n, r) \<Longrightarrow> length r < length s"
  by (induction s rule: low_surrogate.induct) (auto split: if_splits option.splits)

text \<open>The rest of a string literal after its opening quote: the bytes it stands for and what follows.\<close>

function (sequential) p_str :: "string \<Rightarrow> (string \<times> string) option" where
  "p_str [] = None"
| "p_str (c # s) =
     (if c = CHR 34 then Some ([], s)
      else if c = CHR 92 then
        (case s of
           [] \<Rightarrow> None
         | e # r \<Rightarrow>
             (if e = CHR ''u'' then
                (case r of
                   h1 # h2 # h3 # h4 # r2 \<Rightarrow>
                     (case hex4 h1 h2 h3 h4 of
                        None \<Rightarrow> None
                      | Some n \<Rightarrow>
                          (if 55296 \<le> n \<and> n < 57344 then
                             (case (if n < 56320 then low_surrogate r2 else None) of
                                Some (m, r3) \<Rightarrow>
                                  map_option (\<lambda>(t, rest). (utf8 (65536 + (n - 55296) * 1024 + (m - 56320)) @ t, rest))
                                    (p_str r3)
                              | None \<Rightarrow> map_option (\<lambda>(t, rest). (utf8 65533 @ t, rest)) (p_str r2))
                           else map_option (\<lambda>(t, rest). (utf8 n @ t, rest)) (p_str r2)))
                 | _ \<Rightarrow> None)
              else (case simple_esc e of
                      None \<Rightarrow> None
                    | Some x \<Rightarrow> map_option (\<lambda>(t, rest). (x # t, rest)) (p_str r))))
      else if (of_char c :: nat) < 32 then None
      else map_option (\<lambda>(t, rest). (c # t, rest)) (p_str s))"
  by pat_completeness auto
termination
  by (relation "measure length") (auto split: if_splits dest: low_surrogate_length)

declare p_str.simps(2) [simp del]

lemma hex_val_hex_digit: "n < 16 \<Longrightarrow> hex_val (hex_digit n) = Some n"
  by (auto simp: hex_val_def hex_digit_def Let_def)

lemma char_of_html:
  "char_of (60 :: nat) = CHR ''<''" "char_of (62 :: nat) = CHR ''>''" "char_of (38 :: nat) = CHR ''&''"
  by code_simp+

lemma p_str_esc: "p_str (esc_char c @ s) = map_option (\<lambda>(t, rest). (c # t, rest)) (p_str s)"
proof -
  have small: "(of_char c :: nat) div 16 < 16" "(of_char c :: nat) mod 16 < 16"
    using nat_of_char_less_256 [of c] by (auto intro: less_mult_imp_div_less)
  have code: "(0 * 16 + 0) * 16 + (of_char c :: nat) div 16 = (of_char c :: nat) div 16" by simp
  have hx: "hex4 (CHR ''0'') (CHR ''0'') (hex_digit ((of_char c :: nat) div 16))
      (hex_digit ((of_char c :: nat) mod 16)) = Some (of_char c)"
    using small by (simp add: hex4_def hex_val_hex_digit) (simp add: hex_val_def Let_def)
  have ctl: "(of_char c :: nat) = of_char d \<Longrightarrow> c = d" for d
    by simp
  show ?thesis
    using hx ctl [of "CHR 8"] ctl [of "CHR 9"] ctl [of "CHR 10"] ctl [of "CHR 12"] ctl [of "CHR 13"]
    by (auto simp: esc_char_def Let_def p_str.simps(2) simple_esc_def utf8_def char_of_html)
qed

lemma p_str_json_str [simp]: "p_str (concat (map esc_char s) @ CHR 34 # r) = Some (s, r)"
  by (induction s) (simp_all add: p_str_esc p_str.simps(2))

section \<open>Documents\<close>

text \<open>\<^verbatim>\<open>json.Marshal\<close> of a value whose object members are already in the order written.\<close>

fun commas :: "string list \<Rightarrow> string" where
  "commas [] = []"
| "commas [w] = w"
| "commas (w # v # ws) = w @ CHR '','' # commas (v # ws)"

fun json_print :: "json \<Rightarrow> string" where
  "json_print JNull = ''null''"
| "json_print (JBool b) = (if b then ''true'' else ''false'')"
| "json_print (JNum l) = l"
| "json_print (JStr s) = json_str s"
| "json_print (JArr xs) = CHR ''['' # commas (map json_print xs) @ '']''"
| "json_print (JObj kvs) =
     CHR ''{'' # commas (map (\<lambda>kv. json_str (fst kv) @ CHR '':'' # json_print (snd kv)) kvs) @ ''}''"

definition is_ws :: "char \<Rightarrow> bool" where
  "is_ws c \<longleftrightarrow> c = CHR '' '' \<or> c = CHR 9 \<or> c = CHR 10 \<or> c = CHR 13"

definition skip_ws :: "string \<Rightarrow> string" where
  "skip_ws s = dropWhile is_ws s"

definition p_lit :: "string \<Rightarrow> json \<Rightarrow> string \<Rightarrow> (json \<times> string) option" where
  "p_lit w v s = (if has_prefix s w then Some (v, drop (length w) s) else None)"

text \<open>
  The parser.  Every call spends a unit of fuel; two units for each byte of the document and two
  more are enough (\<open>json_fuel_enough\<close> below), so \<open>json_parse\<close> never fails for want of it.
\<close>

fun p_value :: "nat \<Rightarrow> string \<Rightarrow> (json \<times> string) option"
  and p_elems :: "nat \<Rightarrow> string \<Rightarrow> (json list \<times> string) option"
  and p_members :: "nat \<Rightarrow> string \<Rightarrow> ((string \<times> json) list \<times> string) option" where
  "p_value 0 s = None"
| "p_value (Suc n) s =
     (case skip_ws s of
        [] \<Rightarrow> None
      | c # r \<Rightarrow>
          (if c = CHR 34 then map_option (\<lambda>(t, rest). (JStr t, rest)) (p_str r)
           else if c = CHR ''['' then
             (case skip_ws r of
                [] \<Rightarrow> None
              | d # r' \<Rightarrow>
                  (if d = CHR '']'' then Some (JArr [], r')
                   else map_option (\<lambda>(xs, rest). (JArr xs, rest)) (p_elems n (d # r'))))
           else if c = CHR ''{'' then
             (case skip_ws r of
                [] \<Rightarrow> None
              | d # r' \<Rightarrow>
                  (if d = CHR ''}'' then Some (JObj [], r')
                   else map_option (\<lambda>(kvs, rest). (JObj kvs, rest)) (p_members n (d # r'))))
           else if c = CHR ''n'' then p_lit ''null'' JNull (c # r)
           else if c = CHR ''t'' then p_lit ''true'' (JBool True) (c # r)
           else if c = CHR ''f'' then p_lit ''false'' (JBool False) (c # r)
           else map_option (\<lambda>(l, rest). (JNum l, rest)) (p_num (c # r))))"
| "p_elems 0 s = None"
| "p_elems (Suc n) s =
     (case p_value n s of
        None \<Rightarrow> None
      | Some (v, r) \<Rightarrow>
          (case skip_ws r of
             [] \<Rightarrow> None
           | c # r' \<Rightarrow>
               (if c = CHR '','' then map_option (\<lambda>(vs, rest). (v # vs, rest)) (p_elems n r')
                else if c = CHR '']'' then Some ([v], r')
                else None)))"
| "p_members 0 s = None"
| "p_members (Suc n) s =
     (case skip_ws s of
        [] \<Rightarrow> None
      | q # r0 \<Rightarrow>
          (if q \<noteq> CHR 34 then None
           else
             (case p_str r0 of
                None \<Rightarrow> None
              | Some (k, r1) \<Rightarrow>
                  (case skip_ws r1 of
                     [] \<Rightarrow> None
                   | d # r2 \<Rightarrow>
                       (if d \<noteq> CHR '':'' then None
                        else
                          (case p_value n r2 of
                             None \<Rightarrow> None
                           | Some (v, r3) \<Rightarrow>
                               (case skip_ws r3 of
                                  [] \<Rightarrow> None
                                | c # r4 \<Rightarrow>
                                    (if c = CHR '','' then
                                       map_option (\<lambda>(kvs, rest). ((k, v) # kvs, rest)) (p_members n r4)
                                     else if c = CHR ''}'' then Some ([(k, v)], r4)
                                     else None))))))))"

text \<open>\<^verbatim>\<open>encoding/json\<close> refuses a document nested more than 10000 deep.\<close>

definition max_depth :: nat where
  "max_depth = 10000"

definition json_parse :: "string \<Rightarrow> json option" where
  "json_parse s =
     (case p_value (2 * length s + 2) s of
        None \<Rightarrow> None
      | Some (v, r) \<Rightarrow> (if skip_ws r = [] \<and> json_depth v \<le> max_depth then Some v else None))"

subsection \<open>Reading back what was printed\<close>

fun json_ok :: "json \<Rightarrow> bool" where
  "json_ok (JNum l) = valid_num l"
| "json_ok (JArr xs) = list_all json_ok xs"
| "json_ok (JObj kvs) = list_all (\<lambda>kv. json_ok (snd kv)) kvs"
| "json_ok _ = True"

lemma skip_ws_cons [simp]: "\<not> is_ws c \<Longrightarrow> skip_ws (c # s) = c # s"
  by (simp add: skip_ws_def)

lemma skip_ws_Nil [simp]: "skip_ws [] = []"
  by (simp add: skip_ws_def)

lemma not_ws [simp]:
  "\<not> is_ws (CHR 34)" "\<not> is_ws (CHR ''['')" "\<not> is_ws (CHR '']'')" "\<not> is_ws (CHR ''{'')"
  "\<not> is_ws (CHR ''}'')" "\<not> is_ws (CHR '','')" "\<not> is_ws (CHR '':'')" "\<not> is_ws (CHR ''n'')"
  "\<not> is_ws (CHR ''t'')" "\<not> is_ws (CHR ''f'')" "\<not> is_ws (CHR ''-'')" "is_digit c \<Longrightarrow> \<not> is_ws c"
  by (auto simp: is_ws_def is_digit_def)

lemma stops_simps [simp]:
  "stops []" "stops (CHR '','' # r)" "stops (CHR '']'' # r)" "stops (CHR ''}'' # r)"
  "stops (CHR 10 # r)"
  by (auto simp: stops_def num_char_def is_digit_def)

lemma digit_not_special:
  "is_digit c \<Longrightarrow> c \<noteq> CHR 34 \<and> c \<noteq> CHR ''['' \<and> c \<noteq> CHR ''{'' \<and> c \<noteq> CHR ''n'' \<and> c \<noteq> CHR ''t'' \<and> c \<noteq> CHR ''f''"
  by (auto simp: is_digit_def)

lemma p_lit_self [simp]: "p_lit w v (w @ r) = Some (v, r)"
  by (simp add: p_lit_def has_prefix_def)

lemmas p_lit_words [simp] =
  p_lit_self [of "''null''", simplified] p_lit_self [of "''true''", simplified]
  p_lit_self [of "''false''", simplified]

lemma commas_Cons: "ws \<noteq> [] \<Longrightarrow> commas (w # ws) = w @ CHR '','' # commas ws"
  by (cases ws) auto

text \<open>What a value's text begins with: never white space nor a closing bracket.\<close>

lemma json_print_head:
  "json_ok j \<Longrightarrow> \<exists>c r. json_print j = c # r \<and> \<not> is_ws c \<and> c \<noteq> CHR '']''"
proof (cases j)
  case (JNum l)
  assume "json_ok j"
  with JNum obtain c r where l: "l = c # r" and c: "c = CHR ''-'' \<or> is_digit c"
    using valid_num_head [of l] by auto
  from c have "\<not> is_ws c \<and> c \<noteq> CHR '']''"
    by (auto simp: is_ws_def is_digit_def)
  with JNum l show ?thesis by simp
qed (auto simp: json_str_def)

definition reads_back :: "json \<Rightarrow> bool" where
  "reads_back j \<longleftrightarrow> (\<forall>n r. 2 * length (json_print j) \<le> n \<longrightarrow> stops r
     \<longrightarrow> p_value n (json_print j @ r) = Some (j, r))"

lemma reads_backD:
  "reads_back j \<Longrightarrow> 2 * length (json_print j) \<le> n \<Longrightarrow> stops r
     \<Longrightarrow> p_value n (json_print j @ r) = Some (j, r)"
  by (simp add: reads_back_def)

lemma p_elems_back:
  "xs \<noteq> [] \<Longrightarrow> \<forall>x \<in> set xs. reads_back x
     \<Longrightarrow> Suc (2 * length (commas (map json_print xs))) \<le> n
     \<Longrightarrow> p_elems n (commas (map json_print xs) @ CHR '']'' # r) = Some (xs, r)"
proof (induction xs arbitrary: n)
  case Nil
  then show ?case by simp
next
  case (Cons x xs)
  obtain m where n: "n = Suc m"
    using Cons.prems(3) by (cases n) auto
  show ?case
  proof (cases "xs = []")
    case True
    with Cons.prems n show ?thesis by (simp add: reads_backD)
  next
    case False
    with Cons n show ?thesis
      by (simp add: commas_Cons reads_backD)
  qed
qed

definition member_text :: "string \<times> json \<Rightarrow> string" where
  "member_text kv = json_str (fst kv) @ CHR '':'' # json_print (snd kv)"

lemma p_members_back:
  "kvs \<noteq> [] \<Longrightarrow> \<forall>kv \<in> set kvs. reads_back (snd kv)
     \<Longrightarrow> Suc (2 * length (commas (map member_text kvs))) \<le> n
     \<Longrightarrow> p_members n (commas (map member_text kvs) @ CHR ''}'' # r) = Some (kvs, r)"
proof (induction kvs arbitrary: n)
  case Nil
  then show ?case by simp
next
  case (Cons kv kvs)
  obtain k v where kv: "kv = (k, v)" by fastforce
  obtain m where n: "n = Suc m"
    using Cons.prems(3) by (cases n) auto
  show ?case
  proof (cases "kvs = []")
    case True
    with Cons.prems n kv show ?thesis
      by (simp add: member_text_def json_str_def reads_backD)
  next
    case False
    with Cons n kv show ?thesis
      by (simp add: commas_Cons member_text_def [of "(k, v)"] json_str_def reads_backD)
  qed
qed

lemma commas_ne: "ws \<noteq> [] \<Longrightarrow> hd ws \<noteq> [] \<Longrightarrow> \<exists>t. commas ws = hd (hd ws) # t"
  by (cases ws rule: commas.cases) (auto simp: neq_Nil_conv)

lemma reads_backI:
  "(\<And>m r. 2 * length (json_print j) \<le> Suc m \<Longrightarrow> stops r
      \<Longrightarrow> p_value (Suc m) (json_print j @ r) = Some (j, r)) \<Longrightarrow> json_ok j \<Longrightarrow> reads_back j"
  using json_print_head [of j] unfolding reads_back_def
  by (metis (no_types, lifting) One_nat_def Suc_le_D add_Suc_right le_zero_eq length_Cons mult_2
      not0_implies_Suc nat.simps(3))

lemma elems_head:
  "xs \<noteq> [] \<Longrightarrow> list_all json_ok xs
     \<Longrightarrow> \<exists>c t. commas (map json_print xs) = c # t \<and> \<not> is_ws c \<and> c \<noteq> CHR '']''"
proof -
  assume "xs \<noteq> []" and ok: "list_all json_ok xs"
  then obtain y ys where xs: "xs = y # ys" by (cases xs) auto
  with ok obtain c r where "json_print y = c # r \<and> \<not> is_ws c \<and> c \<noteq> CHR '']''"
    using json_print_head [of y] by auto
  with xs show ?thesis by (cases ys) auto
qed

lemma members_head: "kvs \<noteq> [] \<Longrightarrow> \<exists>t. commas (map member_text kvs) = CHR 34 # t"
  by (cases kvs; cases "tl kvs") (auto simp: member_text_def json_str_def)

lemma json_print_JObj: "json_print (JObj kvs) = CHR ''{'' # commas (map member_text kvs) @ ''}''"
  by (simp add: member_text_def [abs_def])

lemma reads_back_json: "json_ok j \<Longrightarrow> reads_back j"
proof (induction j rule: json_print.induct)
  case 1
  show ?case by (rule reads_backI) auto
next
  case (2 b)
  show ?case by (rule reads_backI) auto
next
  case (3 l)
  then have ok: "valid_num l" by simp
  then obtain c t where l: "l = c # t" and c: "c = CHR ''-'' \<or> is_digit c"
    using valid_num_head by blast
  show ?case
  proof (rule reads_backI)
    fix m r
    assume "stops r"
    with ok have "p_num (c # t @ r) = Some (l, r)"
      using p_num_valid [of l r] l by simp
    with c l digit_not_special [of c] show "p_value (Suc m) (json_print (JNum l) @ r) = Some (JNum l, r)"
      by auto
  qed (use ok in simp)
next
  case (4 s)
  show ?case by (rule reads_backI) (auto simp: json_str_def)
next
  case (5 xs)
  have kids: "\<forall>x \<in> set xs. reads_back x"
    using 5 by (auto simp: list_all_iff)
  show ?case
  proof (rule reads_backI)
    fix m r
    assume fuel: "2 * length (json_print (JArr xs)) \<le> Suc m"
    show "p_value (Suc m) (json_print (JArr xs) @ r) = Some (JArr xs, r)"
    proof (cases "xs = []")
      case False
      with 5 obtain c t where hd: "commas (map json_print xs) = c # t" "\<not> is_ws c" "c \<noteq> CHR '']''"
        using elems_head [of xs] by auto
      have "p_elems m (commas (map json_print xs) @ CHR '']'' # r) = Some (xs, r)"
        using False kids fuel by (intro p_elems_back) auto
      with hd show ?thesis by simp
    qed simp
  qed (use 5 in simp)
next
  case (6 kvs)
  have kids: "\<forall>kv \<in> set kvs. reads_back (snd kv)"
    using 6 by (auto simp: list_all_iff)
  show ?case
  proof (rule reads_backI)
    fix m r
    assume fuel: "2 * length (json_print (JObj kvs)) \<le> Suc m"
    show "p_value (Suc m) (json_print (JObj kvs) @ r) = Some (JObj kvs, r)"
    proof (cases "kvs = []")
      case False
      then obtain t where hd: "commas (map member_text kvs) = CHR 34 # t"
        using members_head by blast
      have "p_members m (commas (map member_text kvs) @ CHR ''}'' # r) = Some (kvs, r)"
        using False kids fuel by (intro p_members_back) (auto simp: json_print_JObj simp del: json_print.simps)
      with hd show ?thesis by (simp add: json_print_JObj del: json_print.simps)
    qed simp
  qed (use 6 in simp)
qed

lemma json_parse_print:
  "json_ok j \<Longrightarrow> json_depth j \<le> max_depth \<Longrightarrow> json_parse (json_print j) = Some j"
  using reads_backD [OF reads_back_json, of j "2 * length (json_print j) + 2" "[]"]
  by (simp add: json_parse_def)

interpretation json_codec: codec json_print json_parse "\<lambda>j. json_ok j \<and> json_depth j \<le> max_depth"
  by unfold_locales (auto intro: json_parse_print)

subsection \<open>The parser's fuel\<close>

text \<open>What a successful call leaves is shorter than what it was given.\<close>

lemma skip_ws_length: "skip_ws s = t \<Longrightarrow> length t \<le> length s"
  by (auto simp: skip_ws_def length_dropWhile_le)

lemma p_str_length: "p_str s = Some (t, r) \<Longrightarrow> length r < length s"
proof (induction s arbitrary: t r rule: length_induct)
  case (1 s)
  have IH: "length r' < length u" if "p_str u = Some (t', r')" "length u < length s" for u t' r'
    using "1.IH" that by blast
  show ?case
  proof (cases s)
    case Nil
    with "1.prems" show ?thesis by simp
  next
    case (Cons c u)
    note step = "1.prems" [unfolded Cons p_str.simps(2)]
    show ?thesis
      using step unfolding Cons
      by (auto split: if_splits list.splits option.splits
          dest!: IH [unfolded Cons] low_surrogate_length)
  qed
qed

lemma num_unsigned_length: "num_unsigned s = Some (l, r) \<Longrightarrow> length r < length s"
proof -
  assume "num_unsigned s = Some (l, r)"
  then obtain i r1 f r2 e where steps: "num_int s = Some (i, r1)" "num_frac r1 = Some (f, r2)"
    "num_exp r2 = Some (e, r)"
    by (auto simp: num_unsigned_def split: option.splits prod.splits)
  have "length r1 < length s"
    using steps(1) by (cases s) (auto simp: length_dropWhile_le less_Suc_eq_le split: if_splits)
  moreover have "length r2 \<le> length r1"
    using steps(2) by (cases r1) (auto simp: length_dropWhile_le le_SucI split: if_splits)
  moreover have "length r \<le> length r2"
    using steps(3)
    by (cases r2) (auto simp: length_dropWhile_le le_SucI Let_def split: if_splits list.splits)
  ultimately show ?thesis by simp
qed

lemma p_num_length: "p_num s = Some (l, r) \<Longrightarrow> length r < length s"
  by (auto simp: p_num_def less_SucI split: list.splits if_splits dest!: num_unsigned_length)

lemma p_lit_length: "p_lit w u s = Some (v, r) \<Longrightarrow> w \<noteq> [] \<Longrightarrow> length r < length s"
  by (cases s) (auto simp: p_lit_def has_prefix_def split: if_splits)

lemma p_lengths:
  "p_value n s = Some (v, r) \<Longrightarrow> length r < length s"
  "p_elems n s = Some (vs, r) \<Longrightarrow> length r < length s"
  "p_members n s = Some (kvs, r) \<Longrightarrow> length r < length s"
proof (induction n s and n s and n s arbitrary: v r and vs r and kvs r
    rule: p_value_p_elems_p_members.induct)
  case (2 n s)
  then show ?case
    by (fastforce dest!: p_str_length p_num_length p_lit_length skip_ws_length
        split: list.splits if_splits)
next
  case (4 n s)
  then show ?case
    by (fastforce dest!: skip_ws_length split: list.splits if_splits option.splits)
next
  case (6 n s)
  then show ?case
    by (fastforce dest!: p_str_length skip_ws_length split: list.splits if_splits option.splits)
qed simp_all

lemma skip_ws_ConsD: "skip_ws s = c # r \<Longrightarrow> length r < length s"
  using skip_ws_length [of s] by fastforce

lemma p_fuel_step:
  "2 * length s + 1 \<le> n \<Longrightarrow> p_value (Suc n) s = p_value n s"
  "2 * length s + 2 \<le> n \<Longrightarrow> p_elems (Suc n) s = p_elems n s"
  "2 * length s + 2 \<le> n \<Longrightarrow> p_members (Suc n) s = p_members n s"
proof (induction n s and n s and n s rule: p_value_p_elems_p_members.induct)
  case (2 n s)
  show ?case
  proof (cases "skip_ws s")
    case Nil
    then show ?thesis by simp
  next
    case (Cons c r)
    then have len: "length r < length s" by (rule skip_ws_ConsD)
    show ?thesis
    proof (cases "skip_ws r")
      case Nil
      with Cons show ?thesis by simp
    next
      case (Cons d r')
      with len have "2 * length (d # r') + 2 \<le> n"
        using 2(3) skip_ws_ConsD [OF Cons] by simp
      then show ?thesis
        using 2(1,2) Cons \<open>skip_ws s = c # r\<close> by simp
    qed
  qed
next
  case (4 n s)
  have v: "p_value (Suc n) s = p_value n s"
    using 4 by simp
  have r: "p_elems (Suc n) r' = p_elems n r'"
    if "p_value n s = Some (u, r)" "skip_ws r = CHR '','' # r'" for u r r'
  proof -
    have "2 * length r' + 2 \<le> n"
      using 4(3) skip_ws_ConsD [OF that(2)] p_lengths(1) [OF that(1)] by simp
    then show ?thesis using 4(2) [OF that(1)] that(2) by simp
  qed
  show ?case
    unfolding p_elems.simps(2) [of "Suc n"] p_elems.simps(2) [of n] v
    using r by (simp split: option.split prod.split list.split)
next
  case (6 n s)
  have r: "p_value (Suc n) r2 = p_value n r2"
    if "skip_ws s = CHR 34 # r0" "p_str r0 = Some (k, r1)" "skip_ws r1 = CHR '':'' # r2"
    for r0 k r1 r2
  proof -
    have "2 * length r2 + 1 \<le> n"
      using 6(3) skip_ws_ConsD [OF that(1)] p_str_length [OF that(2)] skip_ws_ConsD [OF that(3)] by simp
    then show ?thesis using 6(1) that by simp
  qed
  have m: "p_members (Suc n) r4 = p_members n r4"
    if "skip_ws s = CHR 34 # r0" "p_str r0 = Some (k, r1)" "skip_ws r1 = CHR '':'' # r2"
      "p_value n r2 = Some (v, r3)" "skip_ws r3 = CHR '','' # r4" for r0 k r1 r2 v r3 r4
  proof -
    have "2 * length r4 + 2 \<le> n"
      using 6(3) skip_ws_ConsD [OF that(1)] p_str_length [OF that(2)] skip_ws_ConsD [OF that(3)]
        p_lengths(1) [OF that(4)] skip_ws_ConsD [OF that(5)] by simp
    then show ?thesis using 6(2) that by simp
  qed
  show ?case
    unfolding p_members.simps(2) [of "Suc n"] p_members.simps(2) [of n]
    using r m by (simp split: option.split prod.split list.split)
qed simp_all

lemma json_fuel_enough: "2 * length s + 1 \<le> n \<Longrightarrow> p_value n s = p_value (2 * length s + 1) s"
  by (induction n rule: dec_induct) (simp_all add: p_fuel_step(1) [simplified])

end
