(* ===== verification/GoValue.thy ===== *)
theory GoValue
  imports JsonText
begin

text \<open>
  Go values of type \<^verbatim>\<open>interface{}\<close> as the program meets them, their decoding from JSON and
  encoding to it, and \<^verbatim>\<open>fmt.Sprintf\<close> with one operand.  A \<^verbatim>\<open>float64\<close> is its 64 bits; reading
  and writing one as text are parameters, collected in a record that every definition
  needing them takes as its first argument.
\<close>

type_synonym f64 = "64 word"

datatype gval =
    GNil
  | GBool bool
  | GFloat f64
  | GStr string
  | GArr "gval list"
  | GMap "(string \<times> gval) list"
  | GStrs "string list"
  | GFloats "f64 list"
  | GBools "bool list"

text \<open>
  \<open>parse_float\<close> is \<^verbatim>\<open>strconv.ParseFloat\<close> on a JSON number literal, \<open>None\<close> when out of range;
  \<open>show_float\<close> is the literal \<^verbatim>\<open>encoding/json\<close> writes; \<open>fmt_verb\<close> is the text \<^verbatim>\<open>fmt\<close> writes for
  one directive (flags, width, precision, verb) and an operand.  \<open>map_rank\<close> gives the order in which the
  runtime visits the members of a map: any, and another for each map.
\<close>

record golib =
  parse_float :: "string \<Rightarrow> f64 option"
  show_float :: "f64 \<Rightarrow> string"
  fmt_verb :: "string \<Rightarrow> gval \<Rightarrow> string"
  map_rank :: "(string, gval) gomap \<Rightarrow> string \<Rightarrow> nat"

definition lib_ok :: "golib \<Rightarrow> bool" where
  "lib_ok L \<longleftrightarrow> (\<forall>f. valid_num (show_float L f))"

section \<open>From JSON\<close>

definition range_order :: "golib \<Rightarrow> (string, gval) gomap \<Rightarrow> (string, gval) gomap" where
  "range_order L m = gm_visit (map_rank L m) m"

lemma range_order_simps [simp]:
  "set (range_order L m) = set m" "gm_ok (range_order L m) = gm_ok m"
  "gm_ok m \<Longrightarrow> gm_get (range_order L m) = gm_get m" "range_order L m = [] \<longleftrightarrow> m = []"
  by (simp_all add: range_order_def) (simp add: gm_visit_def flip: length_0_conv)

text \<open>
  Of two members with one name the later is kept; a decoded map stands in the order in which it will be
  visited.
\<close>

definition gm_of_list :: "('k \<times> 'v) list \<Rightarrow> ('k, 'v) gomap" where
  "gm_of_list kvs = gm.put_all kvs []"

lemma gm_of_list_ok: "gm_ok (gm_of_list kvs)"
  by (simp add: gm_of_list_def gm.put_all_ok)

lemma gm_of_list_keys: "fst ` set (gm_of_list kvs) = fst ` set kvs"
  by (simp add: gm_of_list_def gm.put_all_keys)

lemma gm_of_list_get: "gm_get (gm_of_list kvs) = map_of (rev kvs)"
proof -
  have "gm_get [] ++ map_of (rev kvs) = map_of (rev kvs)"
    by (simp add: map_add_def gm_get_def fun_eq_iff split: option.split)
  then show ?thesis by (simp add: gm_of_list_def gm.put_all_get)
qed

lemma gm_put_fresh: "k \<notin> fst ` set m \<Longrightarrow> gm_put k v m = m @ [(k, v)]"
  unfolding gm_put_def by (induction m) auto

lemma gm_of_list_distinct: "distinct (map fst kvs) \<Longrightarrow> gm_of_list kvs = kvs"
proof (induction kvs rule: rev_induct)
  case Nil
  then show ?case by (simp add: gm_of_list_def gm.put_all_Nil)
next
  case (snoc kv kvs)
  then have "gm_of_list (kvs @ [kv]) = gm_put (fst kv) (snd kv) kvs"
    by (simp add: gm_of_list_def gm.put_all_def split_beta)
  also have "\<dots> = kvs @ [kv]"
    using snoc.prems by (cases kv) (auto simp: gm_put_fresh)
  finally show ?case .
qed

fun to_gval :: "golib \<Rightarrow> json \<Rightarrow> gval" where
  "to_gval L JNull = GNil"
| "to_gval L (JBool b) = GBool b"
| "to_gval L (JNum l) = (case parse_float L l of None \<Rightarrow> GNil | Some f \<Rightarrow> GFloat f)"
| "to_gval L (JStr s) = GStr s"
| "to_gval L (JArr xs) = GArr (map (to_gval L) xs)"
| "to_gval L (JObj kvs) = GMap (range_order L (gm_of_list (map (\<lambda>kv. (fst kv, to_gval L (snd kv))) kvs)))"

text \<open>
  \<^verbatim>\<open>json.Unmarshal\<close> into a fresh \<^verbatim>\<open>map[string]interface{}\<close> with the error ignored: malformed text
  and a document other than an object leave the map empty.
\<close>

definition unmarshal_map :: "golib \<Rightarrow> string \<Rightarrow> (string, gval) gomap" where
  "unmarshal_map L s =
     (case json_parse s of
        Some (JObj kvs) \<Rightarrow> range_order L (gm_of_list (map (\<lambda>kv. (fst kv, to_gval L (snd kv))) kvs))
      | _ \<Rightarrow> [])"

section \<open>To JSON\<close>

text \<open>\<^verbatim>\<open>json.Marshal\<close> writes the members of a map in the order of their names.\<close>

fun of_gval :: "golib \<Rightarrow> gval \<Rightarrow> json" where
  "of_gval L GNil = JNull"
| "of_gval L (GBool b) = JBool b"
| "of_gval L (GFloat f) = JNum (show_float L f)"
| "of_gval L (GStr s) = JStr s"
| "of_gval L (GArr xs) = JArr (map (of_gval L) xs)"
| "of_gval L (GMap kvs) = JObj (sort_key fst (map (\<lambda>kv. (fst kv, of_gval L (snd kv))) kvs))"
| "of_gval L (GStrs ss) = JArr (map JStr ss)"
| "of_gval L (GFloats fs) = JArr (map (\<lambda>f. JNum (show_float L f)) fs)"
| "of_gval L (GBools bs) = JArr (map JBool bs)"

definition marshal :: "golib \<Rightarrow> gval \<Rightarrow> string" where
  "marshal L v = json_print (of_gval L v)"

lemma json_ok_of_gval: "lib_ok L \<Longrightarrow> json_ok (of_gval L v)"
  by (induction v rule: of_gval.induct) (auto simp: lib_ok_def list_all_iff)

lemma marshal_parses:
  "lib_ok L \<Longrightarrow> json_depth (of_gval L v) \<le> max_depth \<Longrightarrow> json_parse (marshal L v) = Some (of_gval L v)"
  by (simp add: marshal_def json_parse_print json_ok_of_gval)

section \<open>Formatting\<close>

text \<open>
  \<^verbatim>\<open>fmt.Sprintf(template, v)\<close>: the first directive takes the operand, later ones report it
  missing, an operand no directive takes is reported as extra.  A directive is \<^verbatim>\<open>%\<close>, flags, width
  and precision in digits, and a verb; \<^verbatim>\<open>*\<close> and explicit argument indexes are not modelled.
\<close>

definition fmt_directive :: "golib \<Rightarrow> string \<Rightarrow> gval \<Rightarrow> string" where
  "fmt_directive L d v =
     (case v of
        GStr s \<Rightarrow> (if d = ''v'' \<or> d = ''s'' then s else fmt_verb L d v)
      | _ \<Rightarrow> fmt_verb L d v)"

fun type_name :: "gval \<Rightarrow> string" where
  "type_name GNil = ''<nil>''"
| "type_name (GBool _) = ''bool''"
| "type_name (GFloat _) = ''float64''"
| "type_name (GStr _) = ''string''"
| "type_name (GArr _) = ''[]interface {}''"
| "type_name (GMap _) = ''map[string]interface {}''"
| "type_name (GStrs _) = ''[]string''"
| "type_name (GFloats _) = ''[]float64''"
| "type_name (GBools _) = ''[]bool''"

definition fmt_extra :: "golib \<Rightarrow> gval \<Rightarrow> string" where
  "fmt_extra L v =
     ''%!(EXTRA '' @ type_name v @ (if v = GNil then [] else CHR ''='' # fmt_directive L ''v'' v) @ '')''"

definition is_flag :: "char \<Rightarrow> bool" where
  "is_flag c \<longleftrightarrow> c \<in> set ''#+- .'' \<or> is_digit c"

function fmt_scan :: "golib \<Rightarrow> gval \<Rightarrow> bool \<Rightarrow> string \<Rightarrow> string" where
  "fmt_scan L v used [] = (if used then [] else fmt_extra L v)"
| "fmt_scan L v used (c # s) =
     (if c \<noteq> CHR ''%'' then c # fmt_scan L v used s
      else
        (case dropWhile is_flag s of
           [] \<Rightarrow> ''%!(NOVERB)'' @ fmt_scan L v used []
         | verb # r \<Rightarrow>
             (if verb = CHR ''%'' then CHR ''%'' # fmt_scan L v used r
              else if used then ''%!'' @ verb # ''(MISSING)'' @ fmt_scan L v used r
              else fmt_directive L (takeWhile is_flag s @ [verb]) v @ fmt_scan L v True r)))"
  by pat_completeness auto
termination
proof (relation "measure (\<lambda>(L, v, used, s). length s)", goal_cases)
  case (4 L v used c s verb r)
  then show ?case using length_dropWhile_le [of is_flag s] by simp
next
  case (5 L v used c s verb r)
  then show ?case using length_dropWhile_le [of is_flag s] by simp
next
  case (6 L v used c s verb r)
  then show ?case using length_dropWhile_le [of is_flag s] by simp
qed auto

definition go_sprintf :: "golib \<Rightarrow> string \<Rightarrow> gval \<Rightarrow> string" where
  "go_sprintf L tmpl v = fmt_scan L v False tmpl"

lemma fmt_scan_plain:
  "CHR ''%'' \<notin> set a \<Longrightarrow> fmt_scan L v used (a @ s) = a @ fmt_scan L v used s"
  by (induction a) auto

lemma fmt_scan_used: "CHR ''%'' \<notin> set a \<Longrightarrow> fmt_scan L v True a = a"
  using fmt_scan_plain [of a L v True "[]"] by simp

text \<open>A template with one \<^verbatim>\<open>%v\<close> or \<^verbatim>\<open>%s\<close> is the operand between its two fixed parts.\<close>

lemma go_sprintf_str:
  "CHR ''%'' \<notin> set a \<Longrightarrow> CHR ''%'' \<notin> set b \<Longrightarrow> d = CHR ''v'' \<or> d = CHR ''s''
     \<Longrightarrow> go_sprintf L (a @ CHR ''%'' # d # b) (GStr s) = a @ s @ b"
  by (auto simp: go_sprintf_def fmt_scan_plain fmt_scan_used fmt_directive_def is_flag_def is_digit_def)

end
