(* ===== verification/Entity.thy ===== *)
theory Entity
  imports GoValue
begin

text \<open>
  \<^verbatim>\<open>internal/coder/entity.go\<close> and \<^verbatim>\<open>internal/coder/parser.go\<close>: the entities the layer exchanges
  with its clients, their JSON text, and their construction from the values of a request body.
\<close>

record entity =
  ent_context :: "(string, gval) gomap"
  ent_id :: string
  ent_token :: "string option"
  ent_deleted :: bool
  ent_refs :: "(string, gval) gomap"
  ent_props :: "(string, gval) gomap"

record ctx =
  ctx_id :: string
  ctx_namespaces :: "(string, gval) gomap"
  ctx_lookup :: "(string, string) gomap"

definition new_entity :: entity where
  "new_entity = \<lparr>ent_context = [], ent_id = [], ent_token = None, ent_deleted = False,
     ent_refs = [], ent_props = []\<rparr>"

definition empty_ctx :: ctx where
  "empty_ctx = \<lparr>ctx_id = [], ctx_namespaces = [], ctx_lookup = []\<rparr>"

section \<open>Text\<close>

text \<open>\<^verbatim>\<open>json.Marshal\<close> of an entity: the fields in their order, the \<^verbatim>\<open>omitempty\<close> ones if not empty.\<close>

definition entity_json :: "golib \<Rightarrow> entity \<Rightarrow> json" where
  "entity_json L e = JObj
     ((if ent_context e = [] then [] else [(''context'', of_gval L (GMap (ent_context e)))])
      @ [(''id'', JStr (ent_id e))]
      @ (case ent_token e of None \<Rightarrow> [] | Some t \<Rightarrow> [(''token'', JStr t)])
      @ [(''deleted'', JBool (ent_deleted e))]
      @ (if ent_refs e = [] then [] else [(''refs'', of_gval L (GMap (ent_refs e)))])
      @ [(''props'', of_gval L (GMap (ent_props e)))])"

text \<open>\<^verbatim>\<open>strings.SplitAfter(s, ":")[1]\<close>: the second piece, a panic when there is none.\<close>

definition after_colon :: "string \<Rightarrow> string go" where
  "after_colon s =
     (case split_after (CHR '':'') s of
        _ # w # _ \<Rightarrow> Inr w
      | _ \<Rightarrow> Inl (Panic IndexOutOfRange))"

definition stripped_props :: "(string, gval) gomap \<Rightarrow> (string, gval) gomap go" where
  "stripped_props ps =
     go_fold (\<lambda>(k, v) m. go_bind (after_colon k) (\<lambda>k'. Inr (gm_put k' v m))) ps []"

definition strip_props :: "golib \<Rightarrow> entity \<Rightarrow> string go" where
  "strip_props L e =
     go_bind (after_colon (ent_id e)) (\<lambda>i.
     go_bind (stripped_props (ent_props e)) (\<lambda>m.
       Inr (marshal L (GMap [(''id'', GStr i), (''deleted'', GBool (ent_deleted e)),
                             (''props'', GMap m)]))))"

section \<open>Reading a request body\<close>

text \<open>The type assertions \<^verbatim>\<open>v.(map[string]interface{})\<close>, \<^verbatim>\<open>v.(string)\<close> and \<^verbatim>\<open>v.(bool)\<close>; a missing map entry reads as nil.\<close>

fun assert_map :: "gval \<Rightarrow> (string, gval) gomap go" where
  "assert_map (GMap m) = Inr m"
| "assert_map _ = Inl (Panic TypeAssertion)"

fun assert_str :: "gval \<Rightarrow> string go" where
  "assert_str (GStr s) = Inr s"
| "assert_str _ = Inl (Panic TypeAssertion)"

fun assert_bool :: "gval \<Rightarrow> bool go" where
  "assert_bool (GBool b) = Inr b"
| "assert_bool _ = Inl (Panic TypeAssertion)"

definition gm_index :: "(string, gval) gomap \<Rightarrow> string \<Rightarrow> gval" where
  "gm_index m k = (case gm_get m k of None \<Rightarrow> GNil | Some v \<Rightarrow> v)"

definition reverse_lookup :: "(string, gval) gomap \<Rightarrow> (string, string) gomap go" where
  "reverse_lookup ns = go_fold (\<lambda>(k, v) l. go_bind (assert_str v) (\<lambda>s. Inr (gm_put s k l))) ns []"

definition as_context :: "gval \<Rightarrow> ctx go" where
  "as_context v =
     go_bind (assert_map v) (\<lambda>raw.
     go_bind (assert_str (gm_index raw ''id'')) (\<lambda>i.
       (case gm_get raw ''namespaces'' of
          None \<Rightarrow> Inr (empty_ctx\<lparr>ctx_id := i\<rparr>)
        | Some n \<Rightarrow>
            go_bind (assert_map n) (\<lambda>ns.
            go_bind (reverse_lookup ns) (\<lambda>l.
              Inr \<lparr>ctx_id = i, ctx_namespaces = ns, ctx_lookup = l\<rparr>)))))"

definition as_entity :: "gval \<Rightarrow> entity go" where
  "as_entity v =
     go_bind (assert_map v) (\<lambda>raw.
     go_bind (assert_str (gm_index raw ''id'')) (\<lambda>i.
     go_bind (if i = ''@continuation''
              then go_bind (assert_str (gm_index raw ''token'')) (\<lambda>t. Inr (Some t))
              else Inr None) (\<lambda>t.
     go_bind (case gm_get raw ''deleted'' of None \<Rightarrow> Inr False | Some d \<Rightarrow> assert_bool d) (\<lambda>d.
     go_bind (case gm_get raw ''props'' of None \<Rightarrow> Inr [] | Some p \<Rightarrow> assert_map p) (\<lambda>p.
       Inr (new_entity\<lparr>ent_id := i, ent_token := t, ent_deleted := d, ent_props := p\<rparr>))))))"

text \<open>
  \<^verbatim>\<open>ParseStream\<close>: the third-party decoder delivers the values of the body one by one and keeps
  an error it met for a caller that asks for it.  The loop hands each value to the callback and
  stops at the callback's first error; it never asks for the decoder's.
\<close>

record stream =
  st_values :: "gval list"
  st_error :: "string option"

definition parse_stream :: "stream \<Rightarrow> (gval \<Rightarrow> 's \<Rightarrow> 's \<times> unit go) \<Rightarrow> 's \<Rightarrow> 's \<times> unit go" where
  "parse_stream st emit s = st_fold emit (st_values st) s"

section \<open>Lemmas\<close>

lemma after_colon_prefixed [simp]:
  "CHR '':'' \<notin> set p \<Longrightarrow> CHR '':'' \<notin> set l \<Longrightarrow> after_colon (p @ CHR '':'' # l) = Inr l"
  by (simp add: after_colon_def split_after_append split_after_clean)

lemma after_colon_two:
  "CHR '':'' \<notin> set p \<Longrightarrow> CHR '':'' \<notin> set l
     \<Longrightarrow> after_colon (p @ CHR '':'' # l @ CHR '':'' # r) = Inr (l @ '':'')"
  by (simp add: after_colon_def split_after_append)

lemma after_colon_Inr_iff: "(\<exists>w. after_colon s = Inr w) \<longleftrightarrow> CHR '':'' \<in> set s"
proof (cases "CHR '':'' \<in> set s")
  case True
  then obtain p r where s: "s = p @ CHR '':'' # r" and p: "CHR '':'' \<notin> set p"
    by (meson split_list_first)
  then show ?thesis
    by (cases "split_after (CHR '':'') r") (auto simp: after_colon_def split_after_append)
next
  case False
  then show ?thesis by (simp add: after_colon_def split_after_clean)
qed

lemma after_colon_panics: "CHR '':'' \<notin> set s \<Longrightarrow> after_colon s = Inl (Panic IndexOutOfRange)"
  by (simp add: after_colon_def split_after_clean)

lemma stripped_props_from:
  "\<forall>k \<in> fst ` set ps. CHR '':'' \<in> set k \<Longrightarrow>
     \<exists>r. go_fold (\<lambda>(k, v) m. go_bind (after_colon k) (\<lambda>k'. Inr (gm_put k' v m))) ps m = Inr r"
proof (induction ps arbitrary: m)
  case Nil
  then show ?case by simp
next
  case (Cons kv ps)
  then obtain w where "after_colon (fst kv) = Inr w"
    using after_colon_Inr_iff [of "fst kv"] by auto
  with Cons show ?case by (cases kv) auto
qed

lemma stripped_props_Inr_iff:
  "(\<exists>r. stripped_props ps = Inr r) \<longleftrightarrow> (\<forall>k \<in> fst ` set ps. CHR '':'' \<in> set k)"
proof
  assume "\<exists>r. stripped_props ps = Inr r"
  moreover have "CHR '':'' \<in> set k"
    if "go_fold (\<lambda>(k, v) m. go_bind (after_colon k) (\<lambda>k'. Inr (gm_put k' v m))) ps m = Inr r"
      "k \<in> fst ` set ps" for k m r
    using that
  proof (induction ps arbitrary: m)
    case (Cons kv ps)
    then show ?case
      using after_colon_Inr_iff [of k] by (cases kv) (auto simp: go_bind_eq_Inr)
  qed simp
  ultimately show "\<forall>k \<in> fst ` set ps. CHR '':'' \<in> set k"
    unfolding stripped_props_def by blast
next
  assume "\<forall>k \<in> fst ` set ps. CHR '':'' \<in> set k"
  then show "\<exists>r. stripped_props ps = Inr r"
    unfolding stripped_props_def by (rule stripped_props_from)
qed

text \<open>With one prefix before each local name and distinct local names nothing is lost.\<close>

definition prefixed :: "string \<Rightarrow> string \<Rightarrow> bool" where
  "prefixed l k \<longleftrightarrow> CHR '':'' \<notin> set l \<and> (\<exists>p. CHR '':'' \<notin> set p \<and> k = p @ CHR '':'' # l)"

lemma after_colon_of_prefixed: "prefixed l k \<Longrightarrow> after_colon k = Inr l"
  by (auto simp: prefixed_def)

lemma stripped_props_locals:
  "list_all2 (\<lambda>l kv. prefixed l (fst kv)) ls ps \<Longrightarrow> distinct ls
     \<Longrightarrow> stripped_props ps = Inr (zip ls (map snd ps))"
proof -
  assume pre: "list_all2 (\<lambda>l kv. prefixed l (fst kv)) ls ps" and "distinct ls"
  have "go_fold (\<lambda>(k, v) m. go_bind (after_colon k) (\<lambda>k'. Inr (gm_put k' v m))) ps m
      = Inr (gm.put_all (zip ls (map snd ps)) m)" for m
    using pre
  proof (induction arbitrary: m rule: list_all2_induct)
    case Nil
    then show ?case by (simp add: gm.put_all_Nil)
  next
    case (Cons l ls kv ps)
    then show ?case
      by (cases kv) (simp add: after_colon_of_prefixed gm.put_all_Cons)
  qed
  moreover have "gm.put_all (zip ls (map snd ps)) [] = zip ls (map snd ps)"
    using gm_of_list_distinct [of "zip ls (map snd ps)"] \<open>distinct ls\<close> list_all2_lengthD [OF pre]
    by (simp add: gm_of_list_def)
  ultimately show ?thesis by (simp add: stripped_props_def)
qed

lemma as_entity_eq:
  "as_entity v = Inr e \<Longrightarrow> ent_refs e = [] \<and> ent_context e = []"
  by (auto simp: as_entity_def go_bind_eq_Inr new_entity_def)

lemma assert_map_eq_Inr [simp]: "assert_map v = Inr m \<longleftrightarrow> v = GMap m"
  by (cases v) auto

lemma assert_str_eq_Inr [simp]: "assert_str v = Inr s \<longleftrightarrow> v = GStr s"
  by (cases v) auto

lemma assert_bool_eq_Inr [simp]: "assert_bool v = Inr b \<longleftrightarrow> v = GBool b"
  by (cases v) auto

lemma parse_stream_error_unread:
  "parse_stream st emit s = parse_stream (st\<lparr>st_error := err\<rparr>) emit s"
  by (simp add: parse_stream_def)

end
