(* ===== verification/Conf.thy ===== *)
theory Conf
  imports Prelude
begin

text \<open>
  The configuration types of \<^verbatim>\<open>internal/conf\<close>: a pointer is an \<^typ>\<open>'a option\<close>, a slice a list.
\<close>

record topic_settings =
  ts_partitions :: int
  ts_replicas :: int
  ts_config :: "(string, string) gomap option"

record producer_config =
  pc_dataset :: string
  pc_topic :: string
  pc_createTopic :: bool
  pc_topicSettings :: "topic_settings option"
  pc_stripProps :: bool
  pc_key :: "string option"

record schema_registry =
  sr_location :: string

record protobuf_schema =
  ps_path :: string
  ps_fileName :: string
  ps_type :: string

record field_mapping =
  fm_path :: string
  fm_fieldName :: string
  fm_propertyName :: string
  fm_isIdField :: bool
  fm_isDeletedField :: bool
  fm_isReference :: bool
  fm_referenceTemplate :: string
  fm_ignoreField :: bool

record consumer_config =
  cc_dataset :: string
  cc_topic :: string
  cc_groupId :: string
  cc_valueDecoder :: "string option"
  cc_position :: string
  cc_nameSpace :: string
  cc_baseNameSpace :: string
  cc_includeHeaders :: bool
  cc_entityIdConstructor :: string
  cc_types :: "string list"
  cc_fieldMappings :: "field_mapping option list"
  cc_schemaRegistry :: "schema_registry option"
  cc_protobufSchema :: "protobuf_schema option"

record kafka_config =
  kc_id :: string
  kc_producers :: "producer_config list"
  kc_consumers :: "consumer_config list"

end
