(* ===== verification/Encoder.thy ===== *)
theory Encoder
  imports Entity Conf
begin

text \<open>
  \<^verbatim>\<open>internal/coder/encoder.go\<close>: a Kafka message's JSON payload becomes an entity.  The path
  queries of the third-party \<^verbatim>\<open>gjson\<close> are the parameter \<open>gjson\<close>: a document and a path give
  a result with the three things the code reads from it.
\<close>

record gresult =
  gr_value :: gval
  gr_bool :: bool
  gr_exists :: bool

type_synonym gjson = "string \<Rightarrow> string \<Rightarrow> gresult"

record encoder =
  enc_config :: consumer_config
  enc_columns :: "(string, field_mapping) gomap"

record header =
  hd_key :: string
  hd_value :: string

section \<open>Building the encoder\<close>

text \<open>A nil entry in the configured list is dereferenced.\<close>

definition new_entity_encoder :: "consumer_config \<Rightarrow> encoder go" where
  "new_entity_encoder config =
     go_bind
       (go_fold (\<lambda>m cols. case m of
            None \<Rightarrow> Inl (Panic NilDereference)
          | Some f \<Rightarrow> Inr (gm_put (fm_fieldName f) f cols)) (cc_fieldMappings config) [])
       (\<lambda>cols. Inr \<lparr>enc_config = config, enc_columns = cols\<rparr>)"

section \<open>Flattening\<close>

text \<open>
  The default branch of \<^verbatim>\<open>flatten\<close>: one leaf.  The mapping is looked up by the leaf's own name
  \<open>k\<close>, whatever objects it is nested in.
\<close>

definition flatten_leaf ::
  "golib \<Rightarrow> gjson \<Rightarrow> encoder \<Rightarrow> string \<Rightarrow> string \<Rightarrow> string \<times> string \<times> gval \<Rightarrow> entity \<Rightarrow> entity" where
  "flatten_leaf L G enc js key leaf e =
     (case leaf of (pre, k, v) \<Rightarrow>
       (let fieldName = ''ns0:'' @ pre @ k in
        case gm_get (enc_columns enc) k of
          None \<Rightarrow> e\<lparr>ent_props := gm_put fieldName v (ent_props e)\<rparr>
        | Some m \<Rightarrow>
            (if fm_ignoreField m then e
             else
               (let propName = (if fm_propertyName m \<noteq> [] then ''ns0:'' @ fm_propertyName m
                                else ''ns0:'' @ fm_fieldName m);
                    val = G js (fm_path m);
                    base = cc_baseNameSpace (enc_config enc);
                    ctor = cc_entityIdConstructor (enc_config enc) in
                if fm_isIdField m then
                  (if fm_path m = ''kafkaKey''
                   then e\<lparr>ent_id := base @ go_sprintf L ctor (GStr key)\<rparr>
                   else e\<lparr>ent_id := base @ go_sprintf L ctor (gr_value val),
                          ent_props := gm_put fieldName v (ent_props e)\<rparr>)
                else if fm_isDeletedField m then e\<lparr>ent_deleted := gr_bool val\<rparr>
                else if fm_isReference m \<and> gr_exists val then
                  e\<lparr>ent_refs := gm_put propName
                        (GStr (go_sprintf L (fm_referenceTemplate m) (gr_value val))) (ent_refs e),
                    ent_props := gm_put fieldName v (ent_props e)\<rparr>
                else e\<lparr>ent_props := gm_put propName (gr_value val) (ent_props e)\<rparr>))))"

text \<open>
  The typed copies of an array: the first element's type decides, and every element is asserted
  to have it.  \<open>None\<close> is an array of nulls, arrays or objects first, which is dropped.
\<close>

fun typed_array :: "gval list \<Rightarrow> gval option go" where
  "typed_array (GStr s # xs) =
     go_bind (go_map (\<lambda>v. case v of GStr t \<Rightarrow> Inr t | _ \<Rightarrow> Inl (Panic TypeAssertion)) (GStr s # xs))
       (\<lambda>ss. Inr (Some (GStrs ss)))"
| "typed_array (GFloat f # xs) =
     go_bind (go_map (\<lambda>v. case v of GFloat g \<Rightarrow> Inr g | _ \<Rightarrow> Inl (Panic TypeAssertion)) (GFloat f # xs))
       (\<lambda>fs. Inr (Some (GFloats fs)))"
| "typed_array (GBool b # xs) =
     go_bind (go_map (\<lambda>v. case v of GBool c \<Rightarrow> Inr c | _ \<Rightarrow> Inl (Panic TypeAssertion)) (GBool b # xs))
       (\<lambda>bs. Inr (Some (GBools bs)))"
| "typed_array _ = Inr None"

definition is_object :: "gval \<Rightarrow> bool" where
  "is_object v \<longleftrightarrow> (case v of GMap _ \<Rightarrow> True | _ \<Rightarrow> False)"

text \<open>
  \<open>leaf\<close> is what to do with a leaf: \<^verbatim>\<open>flatten\<close> itself threads the entity through.  The members of a map are
  visited in the order of the list, which a decoded document and the header map have from \<open>range_order\<close>: any
  order the runtime may choose.
\<close>

fun flatten :: "(string \<times> string \<times> gval \<Rightarrow> 's \<Rightarrow> 's) \<Rightarrow> string \<Rightarrow> string \<Rightarrow> gval \<Rightarrow> 's \<Rightarrow> 's go"
  and flatten_object :: "(string \<times> string \<times> gval \<Rightarrow> 's \<Rightarrow> 's) \<Rightarrow> string \<Rightarrow> (string \<times> gval) list \<Rightarrow> 's \<Rightarrow> 's go"
  and flatten_items :: "(string \<times> string \<times> gval \<Rightarrow> 's \<Rightarrow> 's) \<Rightarrow> string \<Rightarrow> nat \<Rightarrow> gval list \<Rightarrow> 's \<Rightarrow> 's go"
  where
  "flatten leaf pre k (GMap kvs) s = flatten_object leaf (pre @ k @ ''.'') kvs s"
| "flatten leaf pre k (GArr xs) s =
     go_bind (flatten_items leaf (pre @ k @ ''.'') 0 xs s) (\<lambda>s'.
       if list_all is_object xs then Inr s'
       else go_bind (typed_array xs) (\<lambda>t.
              case t of None \<Rightarrow> Inr s' | Some a \<Rightarrow> Inr (leaf (pre, k, a) s')))"
| "flatten leaf pre k v s = Inr (leaf (pre, k, v) s)"
| "flatten_object leaf pre [] s = Inr s"
| "flatten_object leaf pre ((k2, v2) # kvs) s =
     go_bind (flatten leaf pre k2 v2 s) (flatten_object leaf pre kvs)"
| "flatten_items leaf pre i [] s = Inr s"
| "flatten_items leaf pre i (GMap kvs # xs) s =
     go_bind (flatten_object leaf (pre @ dec_nat i @ ''.'') kvs s)
       (flatten_items leaf pre (Suc i) xs)"
| "flatten_items leaf pre i (x # xs) s = flatten_items leaf pre (Suc i) xs s"

section \<open>Encoding a message\<close>

definition encode :: "golib \<Rightarrow> gjson \<Rightarrow> encoder \<Rightarrow> string \<Rightarrow> string \<Rightarrow> entity go" where
  "encode L G enc kkey data =
     flatten_object (flatten_leaf L G enc data kkey) [] (unmarshal_map L data) new_entity"

definition header_map :: "header list \<Rightarrow> (string, gval) gomap" where
  "header_map hs = gm_of_list (map (\<lambda>h. (to_lower (hd_key h), GStr (hd_value h))) hs)"

definition encode_with_headers ::
  "golib \<Rightarrow> gjson \<Rightarrow> encoder \<Rightarrow> string \<Rightarrow> string \<Rightarrow> header list \<Rightarrow> entity go" where
  "encode_with_headers L G enc kkey data hs =
     go_bind (encode L G enc kkey data)
       (flatten_object (flatten_leaf L G enc (marshal L (GMap (header_map hs))) kkey)
          ''kafka_header.'' (range_order L (header_map hs)))"

section \<open>What flattening computes\<close>

text \<open>
  The leaves of a value in the order they are visited, and the
  values on which no type assertion fails.
\<close>

fun array_leaf :: "gval list \<Rightarrow> gval option" where
  "array_leaf (GStr s # xs) = Some (GStrs (map (\<lambda>v. case v of GStr t \<Rightarrow> t | _ \<Rightarrow> []) (GStr s # xs)))"
| "array_leaf (GFloat f # xs) = Some (GFloats (map (\<lambda>v. case v of GFloat g \<Rightarrow> g | _ \<Rightarrow> 0) (GFloat f # xs)))"
| "array_leaf (GBool b # xs) = Some (GBools (map (\<lambda>v. case v of GBool c \<Rightarrow> c | _ \<Rightarrow> False) (GBool b # xs)))"
| "array_leaf _ = None"

fun leaves :: "string \<Rightarrow> string \<Rightarrow> gval \<Rightarrow> (string \<times> string \<times> gval) list"
  and object_leaves :: "string \<Rightarrow> (string \<times> gval) list \<Rightarrow> (string \<times> string \<times> gval) list"
  and item_leaves :: "string \<Rightarrow> nat \<Rightarrow> gval list \<Rightarrow> (string \<times> string \<times> gval) list" where
  "leaves pre k (GMap kvs) = object_leaves (pre @ k @ ''.'') kvs"
| "leaves pre k (GArr xs) = item_leaves (pre @ k @ ''.'') 0 xs @
     (case array_leaf xs of None \<Rightarrow> [] | Some a \<Rightarrow> [(pre, k, a)])"
| "leaves pre k v = [(pre, k, v)]"
| "object_leaves pre [] = []"
| "object_leaves pre ((k2, v2) # kvs) = leaves pre k2 v2 @ object_leaves pre kvs"
| "item_leaves pre i [] = []"
| "item_leaves pre i (GMap kvs # xs) =
     object_leaves (pre @ dec_nat i @ ''.'') kvs @ item_leaves pre (Suc i) xs"
| "item_leaves pre i (x # xs) = item_leaves pre (Suc i) xs"

fun kind :: "gval \<Rightarrow> nat" where
  "kind (GStr _) = 1"
| "kind (GFloat _) = 2"
| "kind (GBool _) = 3"
| "kind _ = 0"

definition uniform :: "gval list \<Rightarrow> bool" where
  "uniform xs \<longleftrightarrow> (case xs of [] \<Rightarrow> True | x # _ \<Rightarrow> kind x = 0 \<or> (\<forall>y \<in> set xs. kind y = kind x))"

fun regular :: "gval \<Rightarrow> bool"
  and regular_object :: "(string \<times> gval) list \<Rightarrow> bool"
  and regular_items :: "gval list \<Rightarrow> bool" where
  "regular (GMap kvs) = regular_object kvs"
| "regular (GArr xs) = (uniform xs \<and> regular_items xs)"
| "regular v = True"
| "regular_object [] = True"
| "regular_object ((k, v) # kvs) = (regular v \<and> regular_object kvs)"
| "regular_items [] = True"
| "regular_items (GMap kvs # xs) = (regular_object kvs \<and> regular_items xs)"
| "regular_items (x # xs) = regular_items xs"

lemma objects_plain: "list_all is_object xs \<Longrightarrow> array_leaf xs = None \<and> uniform xs"
proof (cases xs)
  case (Cons x ys)
  moreover assume "list_all is_object xs"
  ultimately show ?thesis
    by (cases x) (auto simp: is_object_def uniform_def)
qed (simp add: uniform_def)

lemma go_map_assert:
  "go_map (\<lambda>v. if ok v then Inr (f v) else Inl e) xs = (if list_all ok xs then Inr (map f xs) else Inl e)"
  by (induction xs) auto

lemma assert_conv:
  "(\<lambda>v. case v of GStr t \<Rightarrow> Inr t | _ \<Rightarrow> Inl e)
     = (\<lambda>v. if kind v = 1 then Inr (case v of GStr t \<Rightarrow> t | _ \<Rightarrow> []) else Inl e)"
  "(\<lambda>v. case v of GFloat g \<Rightarrow> Inr g | _ \<Rightarrow> Inl e)
     = (\<lambda>v. if kind v = 2 then Inr (case v of GFloat g \<Rightarrow> g | _ \<Rightarrow> 0) else Inl e)"
  "(\<lambda>v. case v of GBool b \<Rightarrow> Inr b | _ \<Rightarrow> Inl e)
     = (\<lambda>v. if kind v = 3 then Inr (case v of GBool c \<Rightarrow> c | _ \<Rightarrow> False) else Inl e)"
  by (auto simp: fun_eq_iff split: gval.split)

lemma typed_array_spec:
  "typed_array xs = (if uniform xs then Inr (array_leaf xs) else Inl (Panic TypeAssertion))"
proof (cases xs)
  case Nil
  then show ?thesis by (simp add: uniform_def)
next
  case (Cons x ys)
  then show ?thesis
    by (cases x)
      (auto simp: uniform_def assert_conv go_map_assert list_all_iff simp del: go_map.simps)
qed

text \<open>
  \<^verbatim>\<open>flatten\<close> performs the leaf action on the leaves in order, or panics, and which of the two
  depends on the value alone.
\<close>

lemma flatten_spec:
  "flatten leaf pre k v s
     = (if regular v then Inr (fold leaf (leaves pre k v) s) else Inl (Panic TypeAssertion))"
  "flatten_object leaf pre kvs s
     = (if regular_object kvs then Inr (fold leaf (object_leaves pre kvs) s) else Inl (Panic TypeAssertion))"
  "flatten_items leaf pre i xs s
     = (if regular_items xs then Inr (fold leaf (item_leaves pre i xs) s) else Inl (Panic TypeAssertion))"
proof (induction leaf pre k v s and leaf pre kvs s and leaf pre i xs s
    rule: flatten_flatten_object_flatten_items.induct)
  case (2 leaf pre k xs s)
  then show ?case
    using objects_plain [of xs] by (auto simp: typed_array_spec split: option.split)
qed auto

lemma encode_spec:
  "encode L G enc key data =
     (if regular_object (unmarshal_map L data)
      then Inr (fold (flatten_leaf L G enc data key) (object_leaves [] (unmarshal_map L data)) new_entity)
      else Inl (Panic TypeAssertion))"
  by (simp add: encode_def flatten_spec)

lemma header_map_strings: "kv \<in> set (header_map hs) \<Longrightarrow> \<exists>t. snd kv = GStr t"
proof -
  assume kv: "kv \<in> set (header_map hs)"
  have "gm_get (header_map hs) (fst kv) = Some (snd kv)"
    using gm_get_mem [OF gm_of_list_ok] kv by (simp add: header_map_def)
  then show ?thesis
    by (auto simp: header_map_def gm_of_list_get dest!: map_of_SomeD)
qed

lemma regular_object_iff: "regular_object kvs \<longleftrightarrow> (\<forall>kv \<in> set kvs. regular (snd kv))"
  by (induction kvs) auto

lemma header_map_regular: "regular_object (range_order L (header_map hs))"
  by (auto simp: regular_object_iff dest!: header_map_strings)

text \<open>Header values are strings, so the second pass of \<^verbatim>\<open>EncodeWithHeaders\<close> cannot panic.\<close>

lemma encode_with_headers_panics_iff:
  "encode_with_headers L G enc key data hs = Inl e \<longleftrightarrow> encode L G enc key data = Inl e"
  by (cases "encode L G enc key data")
    (auto simp: encode_with_headers_def flatten_spec header_map_regular)

section \<open>What a leaf does to the entity\<close>

definition in_ns0 :: "entity \<Rightarrow> bool" where
  "in_ns0 e \<longleftrightarrow> (\<forall>k \<in> fst ` set (ent_props e) \<union> fst ` set (ent_refs e). has_prefix k ''ns0:'')
     \<and> gm_ok (ent_props e) \<and> gm_ok (ent_refs e)"

lemma ns0_prefix [simp]: "has_prefix (''ns0:'' @ s) ''ns0:''"
  "has_prefix (CHR ''n'' # CHR ''s'' # CHR ''0'' # CHR '':'' # s) ''ns0:''"
  by (auto simp: has_prefix_def)

lemma in_ns0_new: "in_ns0 new_entity"
  by (simp add: in_ns0_def new_entity_def)

lemma in_ns0_leaf: "in_ns0 e \<Longrightarrow> in_ns0 (flatten_leaf L G enc js key lf e)"
  by (auto simp: in_ns0_def flatten_leaf_def Let_def map_rules split: prod.split option.split)

lemma fold_inv: "(\<And>x s. P s \<Longrightarrow> P (f x s)) \<Longrightarrow> P s \<Longrightarrow> P (fold f xs s)"
  by (induction xs arbitrary: s) auto

lemma in_ns0_fold: "in_ns0 e \<Longrightarrow> in_ns0 (fold (flatten_leaf L G enc js key) lfs e)"
  by (rule fold_inv [where P = in_ns0]) (rule in_ns0_leaf)

text \<open>Fields an encoder never sets.\<close>

lemma leaf_frame:
  "ent_token (flatten_leaf L G enc js key lf e) = ent_token e"
  "ent_context (flatten_leaf L G enc js key lf e) = ent_context e"
  by (auto simp: flatten_leaf_def Let_def split: prod.split option.split)

lemma fold_frame:
  "ent_token (fold (flatten_leaf L G enc js key) lfs e) = ent_token e"
  "ent_context (fold (flatten_leaf L G enc js key) lfs e) = ent_context e"
  by (induction lfs arbitrary: e) (auto simp: leaf_frame)

text \<open>Without field mappings a leaf is one property under its full name.\<close>

definition leaf_prop :: "string \<times> string \<times> gval \<Rightarrow> string \<times> gval" where
  "leaf_prop lf = (case lf of (pre, k, v) \<Rightarrow> (''ns0:'' @ pre @ k, v))"

lemma fold_unmapped:
  "enc_columns enc = [] \<Longrightarrow> fold (flatten_leaf L G enc js key) lfs e
     = e\<lparr>ent_props := gm.put_all (map leaf_prop lfs) (ent_props e)\<rparr>"
proof (induction lfs arbitrary: e)
  case Nil
  then show ?case by (simp add: gm.put_all_Nil)
next
  case (Cons lf lfs)
  then show ?case
    by (cases lf) (simp add: flatten_leaf_def leaf_prop_def gm.put_all_Cons)
qed

text \<open>The mapping that governs a leaf, and the identifier an id mapping gives.\<close>

definition id_text :: "golib \<Rightarrow> gjson \<Rightarrow> encoder \<Rightarrow> string \<Rightarrow> string \<Rightarrow> field_mapping \<Rightarrow> string" where
  "id_text L G enc js key m =
     cc_baseNameSpace (enc_config enc)
       @ go_sprintf L (cc_entityIdConstructor (enc_config enc))
           (if fm_path m = ''kafkaKey'' then GStr key else gr_value (G js (fm_path m)))"

definition only_id :: "encoder \<Rightarrow> string \<Rightarrow> field_mapping \<Rightarrow> bool" where
  "only_id enc k m \<longleftrightarrow> gm_get (enc_columns enc) k = Some m \<and> fm_isIdField m \<and> \<not> fm_ignoreField m
     \<and> (\<forall>k' m'. gm_get (enc_columns enc) k' = Some m' \<longrightarrow> fm_isIdField m' \<longrightarrow> \<not> fm_ignoreField m' \<longrightarrow> k' = k)"

lemma leaf_id:
  "only_id enc k m \<Longrightarrow> ent_id (flatten_leaf L G enc js key (pre, k', v) e)
     = (if k' = k then id_text L G enc js key m else ent_id e)"
  by (auto simp: only_id_def flatten_leaf_def id_text_def Let_def split: option.split)

lemma fold_id:
  "only_id enc k m \<Longrightarrow> ent_id (fold (flatten_leaf L G enc js key) lfs e)
     = (if \<exists>pre v. (pre, k, v) \<in> set lfs then id_text L G enc js key m else ent_id e)"
proof (induction lfs arbitrary: e)
  case Nil
  then show ?case by simp
next
  case (Cons lf lfs)
  then show ?case by (cases lf) (auto simp: leaf_id)
qed

text \<open>An ignored field contributes nothing.\<close>

lemma leaf_ignored:
  "gm_get (enc_columns enc) k = Some m \<Longrightarrow> fm_ignoreField m
     \<Longrightarrow> flatten_leaf L G enc js key (pre, k, v) e = e"
  by (simp add: flatten_leaf_def)

lemma fold_ignored:
  "gm_get (enc_columns enc) k = Some m \<Longrightarrow> fm_ignoreField m
     \<Longrightarrow> fold (flatten_leaf L G enc js key) lfs e
         = fold (flatten_leaf L G enc js key) (filter (\<lambda>lf. fst (snd lf) \<noteq> k) lfs) e"
  by (induction lfs arbitrary: e) (auto simp: leaf_ignored)

text \<open>The columns are the mappings by field name, the last of two with one name.\<close>

lemma new_entity_encoder_ok:
  "new_entity_encoder config = Inr enc \<longleftrightarrow>
     None \<notin> set (cc_fieldMappings config)
     \<and> enc = \<lparr>enc_config = config,
              enc_columns = gm_of_list (map (\<lambda>m. (fm_fieldName (the m), the m)) (cc_fieldMappings config))\<rparr>"
proof -
  define f where "f = (\<lambda>m cols. case m of None \<Rightarrow> Inl (Panic NilDereference)
      | Some f \<Rightarrow> Inr (gm_put (fm_fieldName f) f cols :: (string, field_mapping) gomap))"
  have "go_fold f ms cols = (if None \<in> set ms then Inl (Panic NilDereference)
      else Inr (gm.put_all (map (\<lambda>m. (fm_fieldName (the m), the m)) ms) cols))" for ms cols
    by (induction ms arbitrary: cols) (auto simp: f_def gm.put_all_Nil gm.put_all_Cons split: option.split)
  then show ?thesis
    by (auto simp: new_entity_encoder_def f_def [symmetric] gm_of_list_def)
qed

end
