(* ===== verification/Decoder.thy ===== *)
theory Decoder
  imports Encoder
begin

text \<open>
  \<^verbatim>\<open>internal/coder/decoder.go\<close>: the three implementations of the \<^verbatim>\<open>Decoder\<close> interface.  The schema
  registry client, the Avro codec and the protobuf packages are third-party: a schema, a native
  value, a file descriptor or a message is a handle, and what the packages compute is a record of
  functions.
\<close>

type_synonym handle = nat

record message =
  msg_partition :: "32 word"
  msg_offset :: "64 word"
  msg_key :: string
  msg_value :: string
  msg_spare :: string
  msg_headers :: "header list"

text \<open>
  \<open>msg_spare\<close> holds the bytes of the value's backing array beyond its length: a slice expression
  may reach into them.

  \<open>get_schema\<close> is \<^verbatim>\<open>GetSchema\<close> of a client for a location, \<open>native_from_binary\<close> the native value
  (nil when the payload does not match), \<open>textual_from_native\<close> its JSON.  \<open>parse_files\<close> gives the
  descriptors of a file under an import path, \<open>find_message\<close> the descriptor of a type or nil,
  \<open>proto_unmarshal\<close> and \<open>proto_json\<close> the two conversions of a dynamic message.
\<close>

record formats =
  get_schema :: "string \<Rightarrow> int \<Rightarrow> string + handle"
  native_from_binary :: "handle \<Rightarrow> string \<Rightarrow> handle option"
  textual_from_native :: "handle \<Rightarrow> handle option \<Rightarrow> string + string"
  parse_files :: "string \<Rightarrow> string \<Rightarrow> string + handle list"
  find_message :: "handle \<Rightarrow> string \<Rightarrow> handle option"
  proto_unmarshal :: "handle option \<Rightarrow> string \<Rightarrow> handle go"
  proto_json :: "handle \<Rightarrow> string go"

datatype decoder =
    DefaultDecoder
  | AvroDecoder string "(32 word, handle) gomap"
  | GenericProtoDecoder "handle option"

section \<open>Construction\<close>

fun first_elem :: "'a list \<Rightarrow> 'a go" where
  "first_elem [] = Inl (Panic IndexOutOfRange)"
| "first_elem (x # _) = Inr x"

definition load_message_descriptor :: "formats \<Rightarrow> protobuf_schema \<Rightarrow> handle option go" where
  "load_message_descriptor F ps =
     (case parse_files F (ps_path ps) (ps_fileName ps) of
        Inl err \<Rightarrow> Inl (Err err)
      | Inr fds \<Rightarrow> go_bind (first_elem fds) (\<lambda>fd. Inr (find_message F fd (ps_type ps))))"

definition new_decoder :: "formats \<Rightarrow> consumer_config \<Rightarrow> decoder go" where
  "new_decoder F config =
     (case cc_valueDecoder config of
        None \<Rightarrow> Inr DefaultDecoder
      | Some d \<Rightarrow>
          (if d = ''avro'' then
             (case cc_schemaRegistry config of
                Some sr \<Rightarrow>
                  (if sr_location sr \<noteq> [] then Inr (AvroDecoder (sr_location sr) [])
                   else Inl (Err ''avro decoder requires schemaRegistry.location.''))
              | None \<Rightarrow> Inl (Err ''avro decoder requires schemaRegistry.location.''))
           else if d = ''protobuf'' then
             (case cc_protobufSchema config of
                Some ps \<Rightarrow>
                  (if ps_fileName ps \<noteq> [] \<and> ps_type ps \<noteq> [] \<and> ps_path ps \<noteq> []
                   then go_bind (load_message_descriptor F ps) (\<lambda>md. Inr (GenericProtoDecoder md))
                   else Inl (Err ''protobuf decoder requires protobufSchema.path, type and fileName.''))
              | None \<Rightarrow> Inl (Err ''protobuf decoder requires protobufSchema.path, type and fileName.''))
           else Inr DefaultDecoder))"

section \<open>Decoding\<close>

text \<open>\<^verbatim>\<open>binary.BigEndian.Uint32\<close> of four bytes.\<close>

definition be32 :: "string \<Rightarrow> 32 word" where
  "be32 bs = of_nat (foldl (\<lambda>n c. n * 256 + of_char c) 0 bs)"

text \<open>The slice expressions \<^verbatim>\<open>v[1:5]\<close>, bounded by the capacity, and \<^verbatim>\<open>v[5:]\<close>, bounded by the length.\<close>

definition slice_1_5 :: "message \<Rightarrow> string go" where
  "slice_1_5 m =
     (if length (msg_value m @ msg_spare m) < 5 then Inl (Panic IndexOutOfRange)
      else Inr (take 4 (drop 1 (msg_value m @ msg_spare m))))"

definition slice_from_5 :: "message \<Rightarrow> string go" where
  "slice_from_5 m =
     (if length (msg_value m) < 5 then Inl (Panic IndexOutOfRange) else Inr (drop 5 (msg_value m)))"

definition avro_text :: "formats \<Rightarrow> handle \<Rightarrow> message \<Rightarrow> string go" where
  "avro_text F schema m =
     go_bind (slice_from_5 m) (\<lambda>payload.
       (case textual_from_native F schema (native_from_binary F schema payload) of
          Inl err \<Rightarrow> Inl (Err err)
        | Inr txt \<Rightarrow> Inr txt))"

text \<open>The cache is shared state: what \<^verbatim>\<open>Decode\<close> stores stays stored when a later step fails.\<close>

definition avro_decode ::
  "formats \<Rightarrow> string \<Rightarrow> (32 word, handle) gomap \<Rightarrow> message \<Rightarrow> (32 word, handle) gomap \<times> string go" where
  "avro_decode F loc cache m =
     (case slice_1_5 m of
        Inl e \<Rightarrow> (cache, Inl e)
      | Inr bs \<Rightarrow>
          (case gm_get cache (be32 bs) of
             Some s \<Rightarrow> (cache, avro_text F s m)
           | None \<Rightarrow>
               (case get_schema F loc (uint (be32 bs)) of
                  Inl err \<Rightarrow> (cache, Inl (Err err))
                | Inr s \<Rightarrow> (gm_put (be32 bs) s cache, avro_text F s m))))"

definition proto_decode :: "formats \<Rightarrow> handle option \<Rightarrow> message \<Rightarrow> string go" where
  "proto_decode F md m = go_bind (proto_unmarshal F md (msg_value m)) (proto_json F)"

fun decode :: "formats \<Rightarrow> decoder \<Rightarrow> message \<Rightarrow> decoder \<times> string go" where
  "decode F DefaultDecoder m = (DefaultDecoder, Inr (msg_value m))"
| "decode F (AvroDecoder loc cache) m = map_prod (AvroDecoder loc) id (avro_decode F loc cache m)"
| "decode F (GenericProtoDecoder md) m = (GenericProtoDecoder md, proto_decode F md m)"

section \<open>The interface\<close>

text \<open>
  What the poll loop relies on: each call leaves a decoder it can call again.  \<open>fresh\<close> is the
  result a decoder without memory would give; the law says that memory does not show.
\<close>

locale decoder_iface =
  fixes dec :: "'d \<Rightarrow> 'm \<Rightarrow> 'd \<times> 'r"
    and inv :: "'d \<Rightarrow> bool"
    and fresh :: "'d \<Rightarrow> 'm \<Rightarrow> 'r"
  assumes dec_inv: "inv d \<Longrightarrow> inv (fst (dec d m))"
    and dec_fresh: "inv d \<Longrightarrow> snd (dec d m) = fresh d m"
    and fresh_stable: "inv d \<Longrightarrow> fresh (fst (dec d m)) = fresh d"
begin

primrec run_all :: "'d \<Rightarrow> 'm list \<Rightarrow> 'd \<times> 'r list" where
  "run_all d [] = (d, [])"
| "run_all d (m # ms) =
     (case dec d m of (d', r) \<Rightarrow> (case run_all d' ms of (d'', rs) \<Rightarrow> (d'', r # rs)))"

lemma run_fresh: "inv d \<Longrightarrow> snd (run_all d ms) = map (fresh d) ms \<and> inv (fst (run_all d ms))"
proof (induction ms arbitrary: d)
  case Nil
  then show ?case by simp
next
  case (Cons m ms)
  have "inv (fst (dec d m))" by (rule dec_inv [OF Cons.prems])
  from Cons.IH [OF this] show ?case
    using dec_fresh [OF Cons.prems, of m] fresh_stable [OF Cons.prems, of m]
    by (auto split: prod.split)
qed

end

definition cache_ok :: "formats \<Rightarrow> decoder \<Rightarrow> bool" where
  "cache_ok F d \<longleftrightarrow>
     (case d of
        AvroDecoder loc cache \<Rightarrow> (\<forall>i s. gm_get cache i = Some s \<longrightarrow> get_schema F loc (uint i) = Inr s)
      | _ \<Rightarrow> True)"

fun fresh_decode :: "formats \<Rightarrow> decoder \<Rightarrow> message \<Rightarrow> string go" where
  "fresh_decode F DefaultDecoder m = Inr (msg_value m)"
| "fresh_decode F (AvroDecoder loc _) m =
     go_bind (slice_1_5 m) (\<lambda>bs.
       (case get_schema F loc (uint (be32 bs)) of
          Inl err \<Rightarrow> Inl (Err err)
        | Inr s \<Rightarrow> avro_text F s m))"
| "fresh_decode F (GenericProtoDecoder md) m = proto_decode F md m"

interpretation decoding: decoder_iface "decode F" "cache_ok F" "fresh_decode F" for F
proof unfold_locales
  fix d m
  assume ok: "cache_ok F d"
  show "cache_ok F (fst (decode F d m))"
    using ok by (cases d) (auto simp: avro_decode_def cache_ok_def map_rules split: sum.split option.split)
  show "snd (decode F d m) = fresh_decode F d m"
    using ok by (cases d) (auto simp: avro_decode_def cache_ok_def split: sum.split option.split)
  show "fresh_decode F (fst (decode F d m)) = fresh_decode F d"
    by (cases d) (auto simp: fun_eq_iff avro_decode_def split: sum.split option.split)
qed

lemma new_decoder_ok: "new_decoder F config = Inr d \<Longrightarrow> cache_ok F d"
  by (auto simp: new_decoder_def cache_ok_def go_bind_eq_Inr split: option.splits if_splits)

text \<open>Each decoder keeps its kind.\<close>

fun decoder_kind :: "decoder \<Rightarrow> nat" where
  "decoder_kind DefaultDecoder = 0"
| "decoder_kind (AvroDecoder _ _) = 1"
| "decoder_kind (GenericProtoDecoder _) = 2"

lemma decode_kind: "decoder_kind (fst (decode F d m)) = decoder_kind d"
  by (cases d) auto

end
