(* ===== verification/Base64.thy ===== *)
theory Base64
  imports Prelude
begin

text \<open>
  \<^verbatim>\<open>base64.StdEncoding\<close> of the Go standard library: three bytes become four characters of the
  alphabet, the last group is padded with \<^verbatim>\<open>=\<close>, and the decoder skips line breaks, wants the
  padding and ignores the unused bits of the last character.
\<close>

definition b64_char :: "nat \<Rightarrow> char" where
  "b64_char n =
     (if n < 26 then char_of (65 + n)
      else if n < 52 then char_of (71 + n)
      else if n < 62 then char_of (n - 4)
      else if n = 62 then CHR ''+'' else CHR ''/'')"

definition b64_val :: "char \<Rightarrow> nat option" where
  "b64_val c =
     (let n = of_char c in
      if 65 \<le> n \<and> n \<le> 90 then Some (n - 65)
      else if 97 \<le> n \<and> n \<le> 122 then Some (n - 71)
      else if 48 \<le> n \<and> n \<le> 57 then Some (n + 4)
      else if c = CHR ''+'' then Some 62
      else if c = CHR ''/'' then Some 63
      else None)"

fun b64_encode :: "string \<Rightarrow> string" where
  "b64_encode [] = []"
| "b64_encode [a] =
     (let x = of_char a in
      [b64_char (x div 4), b64_char (x mod 4 * 16), CHR ''='', CHR ''=''])"
| "b64_encode [a, b] =
     (let x = of_char a; y = of_char b in
      [b64_char (x div 4), b64_char (x mod 4 * 16 + y div 16), b64_char (y mod 16 * 4), CHR ''=''])"
| "b64_encode (a # b # c # s) =
     (let x = of_char a; y = of_char b; z = of_char c in
      b64_char (x div 4) # b64_char (x mod 4 * 16 + y div 16) #
      b64_char (y mod 16 * 4 + z div 64) # b64_char (z mod 64) # b64_encode s)"

definition b64_3 :: "nat \<Rightarrow> nat \<Rightarrow> nat \<Rightarrow> nat \<Rightarrow> string" where
  "b64_3 p q r s = [char_of (p * 4 + q div 16), char_of (q mod 16 * 16 + r div 4),
     char_of (r mod 4 * 64 + s)]"

fun b64_quads :: "string \<Rightarrow> string option" where
  "b64_quads [] = Some []"
| "b64_quads [a, b, c, d] =
     (if d = CHR ''='' then
        (if c = CHR ''='' then
           (case (b64_val a, b64_val b) of
              (Some p, Some q) \<Rightarrow> Some (take 1 (b64_3 p q 0 0))
            | _ \<Rightarrow> None)
         else
           (case (b64_val a, b64_val b, b64_val c) of
              (Some p, Some q, Some r) \<Rightarrow> Some (take 2 (b64_3 p q r 0))
            | _ \<Rightarrow> None))
      else
        (case (b64_val a, b64_val b, b64_val c, b64_val d) of
           (Some p, Some q, Some r, Some s) \<Rightarrow> Some (b64_3 p q r s)
         | _ \<Rightarrow> None))"
| "b64_quads (a # b # c # d # e # t) =
     (case (b64_val a, b64_val b, b64_val c, b64_val d) of
        (Some p, Some q, Some r, Some s) \<Rightarrow> map_option (\<lambda>u. b64_3 p q r s @ u) (b64_quads (e # t))
      | _ \<Rightarrow> None)"
| "b64_quads _ = None"

definition b64_decode :: "string \<Rightarrow> string option" where
  "b64_decode t = b64_quads (filter (\<lambda>c. c \<noteq> CHR 10 \<and> c \<noteq> CHR 13) t)"

lemma b64_val_char: "n < 64 \<Longrightarrow> b64_val (b64_char n) = Some n"
  by (auto simp: b64_val_def b64_char_def Let_def)

lemma b64_char_not: "n < 64 \<Longrightarrow> b64_char n \<noteq> CHR ''='' \<and> b64_char n \<noteq> CHR 10 \<and> b64_char n \<noteq> CHR 13"
  using b64_val_char [of n] by (auto simp: b64_val_def)

text \<open>The six-bit groups of three bytes are in range and give the bytes back.\<close>

lemma join_div: "(b :: nat) < n \<Longrightarrow> (a * n + b) div n = a"
  by simp

lemma join_mod: "(b :: nat) < n \<Longrightarrow> (a * n + b) mod n = b"
  by simp

lemma join_less: "(a :: nat) < m \<Longrightarrow> b < n \<Longrightarrow> a * n + b < m * n"
proof -
  assume "a < m" and "b < n"
  then have "a * n + b < Suc a * n" and "Suc a * n \<le> m * n"
    by (simp, intro mult_le_mono1) simp
  then show ?thesis by (rule less_le_trans)
qed

lemma byte_parts:
  "(of_char a :: nat) div 4 < 64" "(of_char a :: nat) mod 4 < 4" "(of_char a :: nat) div 16 < 16"
  "(of_char a :: nat) mod 16 < 16" "(of_char a :: nat) div 64 < 4" "(of_char a :: nat) mod 64 < 64"
  using nat_of_char_less_256 [of a] by (simp_all add: less_mult_imp_div_less)

lemma six_bits:
  "(of_char a :: nat) mod 4 * 16 + of_char b div 16 < 64"
  "(of_char b :: nat) mod 16 * 4 + of_char c div 64 < 64"
  "(of_char a :: nat) mod 4 * 16 < 64" "(of_char b :: nat) mod 16 * 4 < 64"
  using join_less [OF byte_parts(2) [of a] byte_parts(3) [of b]]
    join_less [OF byte_parts(4) [of b] byte_parts(5) [of c]]
    join_less [OF byte_parts(2) [of a], of 0 16] join_less [OF byte_parts(4) [of b], of 0 4]
  by simp_all

lemma b64_3_bytes:
  "b64_3 (of_char a div 4) (of_char a mod 4 * 16 + of_char b div 16)
     (of_char b mod 16 * 4 + of_char c div 64) (of_char c mod 64) = [a, b, c]"
  by (simp add: b64_3_def join_div join_mod byte_parts)

lemma b64_3_bytes2: "take 2 (b64_3 (of_char a div 4) (of_char a mod 4 * 16 + of_char b div 16)
     (of_char b mod 16 * 4) 0) = [a, b]"
  by (simp add: b64_3_def join_div join_mod byte_parts)

lemma b64_3_bytes1: "take 1 (b64_3 (of_char a div 4) (of_char a mod 4 * 16) 0 0) = [a]"
  by (simp add: b64_3_def)

lemma b64_encode_clean: "filter (\<lambda>c. c \<noteq> CHR 10 \<and> c \<noteq> CHR 13) (b64_encode s) = b64_encode s"
  by (induction s rule: b64_encode.induct)
    (simp_all add: Let_def b64_char_not byte_parts six_bits)

lemma b64_encode_Nil_iff: "b64_encode s = [] \<longleftrightarrow> s = []"
  by (cases s rule: b64_encode.cases) (auto simp: Let_def)

lemma b64_quads_encode: "b64_quads (b64_encode s) = Some s"
proof (induction s rule: b64_encode.induct)
  case 1
  show ?case by simp
next
  case (2 a)
  show ?case
    by (simp add: Let_def b64_val_char byte_parts six_bits b64_3_bytes1 [simplified])
next
  case (3 a b)
  show ?case
    by (simp add: Let_def b64_val_char b64_char_not byte_parts six_bits b64_3_bytes2)
next
  case (4 a b c s)
  show ?case
  proof (cases "b64_encode s")
    case Nil
    then have "s = []" by (simp add: b64_encode_Nil_iff)
    then show ?thesis
      by (simp add: Let_def b64_val_char b64_char_not byte_parts six_bits b64_3_bytes)
  next
    case (Cons e t)
    with 4 show ?thesis
      by (simp add: Let_def b64_val_char byte_parts six_bits b64_3_bytes)
  qed
qed

lemma b64_decode_encode: "b64_decode (b64_encode s) = Some s"
  by (simp add: b64_decode_def b64_encode_clean b64_quads_encode)

interpretation b64_codec: codec b64_encode b64_decode "\<lambda>_. True"
  by unfold_locales (rule b64_decode_encode)

end
