(* ===== verification/Token.thy ===== *)
theory Token
  imports GoValue Base64
begin

text \<open>
  The \<^verbatim>\<open>since\<close> tokens of \<^verbatim>\<open>internal/kafka/consumer.go\<close>: the last offset read of each partition, as
  base64 of a JSON object.  Partitions are \<^verbatim>\<open>int32\<close> and offsets \<^verbatim>\<open>int64\<close>.
\<close>

type_synonym partition = "32 word"
type_synonym offset = "64 word"
type_synonym offsets = "(partition, offset) gomap"

definition offset_member :: "partition \<times> offset \<Rightarrow> string \<times> json" where
  "offset_member po = (dec_int (sint (fst po)), JNum (dec_int (sint (snd po))))"

definition offsets_json :: "offsets \<Rightarrow> json" where
  "offsets_json m = JObj (sort_key fst (map offset_member m))"

definition since_token :: "offsets \<Rightarrow> string" where
  "since_token m = b64_encode (json_print (offsets_json m))"

text \<open>
  \<^verbatim>\<open>json.Unmarshal\<close> into the map: a member whose name is not an \<^verbatim>\<open>int32\<close> is skipped, a value that
  is not an \<^verbatim>\<open>int64\<close> is stored as zero, and in both cases decoding goes on.  The error this
  leaves is not looked at: the map is returned as it is.
\<close>

definition key_of :: "string \<Rightarrow> partition option" where
  "key_of s =
     (case parse_int64 s of
        (i, True) \<Rightarrow> (if - (2 ^ 31) \<le> i \<and> i < 2 ^ 31 then Some (word_of_int i) else None)
      | _ \<Rightarrow> None)"

fun offset_of :: "json \<Rightarrow> offset" where
  "offset_of (JNum l) = (case parse_int64 l of (i, True) \<Rightarrow> word_of_int i | _ \<Rightarrow> 0)"
| "offset_of _ = 0"

definition store_member :: "string \<times> json \<Rightarrow> offsets \<Rightarrow> offsets" where
  "store_member kv m = (case key_of (fst kv) of None \<Rightarrow> m | Some p \<Rightarrow> gm_put p (offset_of (snd kv)) m)"

definition offsets_of_json :: "json \<Rightarrow> offsets" where
  "offsets_of_json j = (case j of JObj kvs \<Rightarrow> fold store_member kvs [] | _ \<Rightarrow> [])"

definition decode_since :: "string \<Rightarrow> offsets" where
  "decode_since s =
     (if s = [] then []
      else (case b64_decode s of
              None \<Rightarrow> []
            | Some bs \<Rightarrow> (case json_parse bs of None \<Rightarrow> [] | Some j \<Rightarrow> offsets_of_json j)))"

section \<open>Round trip\<close>

text \<open>JSON text inside base64 text.\<close>

interpretation token_text: codec_chain json_print json_parse
  "\<lambda>j. json_ok j \<and> json_depth j \<le> max_depth" b64_encode b64_decode "\<lambda>_. True"
  by unfold_locales simp

lemma sint_word_range:
  fixes w :: "'a::len word"
  shows "- (2 ^ (LENGTH('a) - 1)) \<le> sint w" "sint w < 2 ^ (LENGTH('a) - 1)"
  using sint_greater_eq [of w] sint_less [of w] by auto

lemma key_of_partition [simp]: "key_of (dec_int (sint p)) = Some p"
  using sint_word_range [of p] by (simp add: key_of_def parse_int64_dec_int)

lemma parse_int64_offset [simp]: "parse_int64 (dec_int (sint n)) = (sint n, True)" for n :: offset
  using sint_word_range [of n] by (simp add: parse_int64_dec_int)

lemma store_offset_member [simp]: "store_member (offset_member po) m = gm_put (fst po) (snd po) m"
  by (simp add: store_member_def offset_member_def)

lemma fold_store: "fold store_member (map offset_member pos) m = gm.put_all pos m"
  by (induction pos arbitrary: m) (auto simp: gm.put_all_Nil gm.put_all_Cons)

lemma insort_key_map: "insort_key f (g x) (map g ys) = map g (insort_key (\<lambda>y. f (g y)) x ys)"
  by (induction ys) auto

lemma sort_key_map: "sort_key f (map g xs) = map g (sort_key (\<lambda>y. f (g y)) xs)"
  by (induction xs) (simp_all add: insort_key_map)

lemma offsets_json_ok: "json_ok (offsets_json m) \<and> json_depth (offsets_json m) \<le> max_depth"
proof -
  have members: "set (sort_key fst (map offset_member m)) = offset_member ` set m"
    by simp
  have "fold max (map (\<lambda>kv. json_depth (snd kv)) kvs) 0 = 0"
    if "set kvs \<subseteq> range offset_member" for kvs
    using that by (induction kvs) (auto simp: offset_member_def)
  then have "fold max (map (\<lambda>kv. json_depth (snd kv)) (sort_key fst (map offset_member m))) 0 = 0"
    using members by blast
  then have "json_depth (offsets_json m) = 1"
    by (simp add: offsets_json_def)
  moreover have "json_ok (offsets_json m)"
    using members by (auto simp: offsets_json_def list_all_iff offset_member_def)
  ultimately show ?thesis by (simp add: max_depth_def)
qed

lemma since_token_ne: "since_token m \<noteq> []"
  by (simp add: since_token_def b64_encode_Nil_iff offsets_json_def)

lemma gm_ok_sort [simp]: "gm_ok (sort_key f m) = gm_ok m"
  by (simp add: gm_ok_def distinct_map)

lemma decode_since_token_list:
  "gm_ok m \<Longrightarrow> decode_since (since_token m) = sort_key (\<lambda>po. fst (offset_member po)) m"
proof -
  assume ok: "gm_ok m"
  have "token_text.chain_dec (since_token m) = Some (offsets_json m)"
    using token_text.chain_dec_enc [OF offsets_json_ok]
    by (simp add: since_token_def token_text.chain_enc_def)
  then have "decode_since (since_token m) = offsets_of_json (offsets_json m)"
    using since_token_ne
    by (auto simp: decode_since_def token_text.chain_dec_def bind_eq_Some_conv)
  also have "\<dots> = gm.put_all (sort_key (\<lambda>po. fst (offset_member po)) m) []"
    by (simp add: offsets_of_json_def offsets_json_def sort_key_map fold_store)
  also have "\<dots> = sort_key (\<lambda>po. fst (offset_member po)) m"
    using ok gm_of_list_distinct [of "sort_key (\<lambda>po. fst (offset_member po)) m"]
    by (simp add: gm_of_list_def flip: gm_ok_def)
  finally show ?thesis .
qed

lemma decode_since_token: "gm_ok m \<Longrightarrow> gm_get (decode_since (since_token m)) = gm_get m"
  by (subst decode_since_token_list, assumption) (rule gm_get_same_set, simp_all)

lemma decode_since_ok: "gm_ok (decode_since s)"
proof -
  have "gm_ok (fold store_member kvs m)" if "gm_ok m" for kvs m
    using that
    by (induction kvs arbitrary: m) (auto simp: store_member_def map_rules split: option.split)
  then show ?thesis
    by (auto simp: decode_since_def offsets_of_json_def split: option.split json.split)
qed

end
