(* ===== verification/Consumer.thy ===== *)
theory Consumer
  imports Encoder Decoder Token
begin

text \<open>
  \<^verbatim>\<open>internal/kafka/consumer.go\<close>: one run of \<^verbatim>\<open>ChangeSet\<close>.  The broker is the environment: a record
  of its answers to the calls that can fail, and the list of what successive iterations of the
  poll loop find.  A run that has not returned when the list is used up is \<open>None\<close>.  Logging and
  statsd are left out; counters are unbounded, they are far from the 64-bit limit.
\<close>

record dataset_request =
  rq_dataset :: string
  rq_since :: string
  rq_limit :: int

text \<open>
  What \<^verbatim>\<open>Poll\<close> returns: a message, a \<^verbatim>\<open>kafka.Error\<close> (is it \<^verbatim>\<open>ErrAllBrokersDown\<close>?), nothing within
  the timeout, or some other event.
\<close>

datatype poll_event = PMessage message | PError bool | PNil | POther

text \<open>
  What the \<^verbatim>\<open>select\<close> of one iteration finds when the run's own context is live: another request
  has cancelled it, a termination signal is pending, or neither and the consumer is polled.
\<close>

datatype tick = Cancelled | Signal | Poll poll_event

section \<open>Configuration lookup\<close>

definition does_dataset_exist :: "consumer_config list \<Rightarrow> string \<Rightarrow> bool" where
  "does_dataset_exist cs d \<longleftrightarrow> list_ex (\<lambda>c. cc_dataset c = d) cs"

definition config_for :: "consumer_config list \<Rightarrow> string \<Rightarrow> consumer_config option" where
  "config_for cs d = find (\<lambda>c. cc_dataset c = d) cs"

definition get_context :: "consumer_config list \<Rightarrow> string \<Rightarrow> gval go" where
  "get_context cs d =
     (case config_for cs d of
        None \<Rightarrow> Inl (Panic NilDereference)
      | Some c \<Rightarrow> Inr (GMap
          [(''namespaces'', GMap
             [(''ns0'', GStr (cc_baseNameSpace c @ cc_nameSpace c @ ''/'')),
              (''rdf'', GStr ''http://www.w3.org/1999/02/22-rdf-syntax-ns#'')]),
           (''id'', GStr ''@context'')]))"

section \<open>The poll loop\<close>

record reader =
  rd_lib :: golib
  rd_gjson :: gjson
  rd_formats :: formats
  rd_encoder :: encoder
  rd_limit :: int

record loop =
  lp_run :: bool
  lp_done :: bool
  lp_count :: int
  lp_nilCount :: int
  lp_sinceCount :: int
  lp_isBeginning :: bool
  lp_offsets :: offsets
  lp_decoder :: decoder
  lp_out :: "entity list"
  lp_failed :: "failure option"

text \<open>\<open>lp_done\<close>: the context is cancelled.  \<open>lp_out\<close>: the entities handed to the callback.\<close>

definition loop_start :: "decoder \<Rightarrow> loop" where
  "loop_start d = \<lparr>lp_run = True, lp_done = False, lp_count = 0, lp_nilCount = 0, lp_sinceCount = 0,
     lp_isBeginning = True, lp_offsets = [], lp_decoder = d, lp_out = [], lp_failed = None\<rparr>"

text \<open>The value a failed decoding leaves is nil, and it is encoded all the same.\<close>

definition decoded_value :: "string go \<Rightarrow> string" where
  "decoded_value r = (case r of Inr v \<Rightarrow> v | Inl _ \<Rightarrow> [])"

definition entity_for :: "reader \<Rightarrow> message \<Rightarrow> string \<Rightarrow> entity go" where
  "entity_for rd m val =
     (if cc_includeHeaders (enc_config (rd_encoder rd))
      then encode_with_headers (rd_lib rd) (rd_gjson rd) (rd_encoder rd) (msg_key m) val (msg_headers m)
      else encode (rd_lib rd) (rd_gjson rd) (rd_encoder rd) (msg_key m) val)"

definition on_message :: "reader \<Rightarrow> message \<Rightarrow> loop \<Rightarrow> loop" where
  "on_message rd m st0 =
     (let st = st0\<lparr>lp_count := lp_count st0 + 1, lp_nilCount := 0, lp_isBeginning := False,
                   lp_sinceCount := lp_sinceCount st0 + 1,
                   lp_offsets := gm_put (msg_partition m) (msg_offset m) (lp_offsets st0)\<rparr>
      in case decode (rd_formats rd) (lp_decoder st) m of (d, r) \<Rightarrow>
        (if is_panic r then st\<lparr>lp_decoder := d, lp_failed := Some (projl r)\<rparr>
         else
           (let st2 = st\<lparr>lp_decoder := d, lp_done := (lp_done st \<or> isl r)\<rparr>
            in case entity_for rd m (decoded_value r) of
                 Inl e \<Rightarrow> st2\<lparr>lp_failed := Some e\<rparr>
               | Inr ent \<Rightarrow> st2\<lparr>lp_out := lp_out st2 @ [ent],
                    lp_run := \<not> (rd_limit rd > -1 \<and> lp_count st2 \<ge> rd_limit rd)\<rparr>)))"

definition on_nil :: "loop \<Rightarrow> loop" where
  "on_nil st0 =
     (let st = st0\<lparr>lp_nilCount := lp_nilCount st0 + 1\<rparr>
      in if lp_isBeginning st
         then (if lp_nilCount st = 10 then st\<lparr>lp_done := True\<rparr> else st)
         else st\<lparr>lp_done := True\<rparr>)"

fun on_event :: "reader \<Rightarrow> poll_event \<Rightarrow> loop \<Rightarrow> loop" where
  "on_event rd (PMessage m) st = on_message rd m st"
| "on_event rd (PError all_down) st = (if all_down then st\<lparr>lp_done := True\<rparr> else st)"
| "on_event rd PNil st = on_nil st"
| "on_event rd POther st = st"

definition stopped :: "loop \<Rightarrow> bool" where
  "stopped st \<longleftrightarrow> \<not> lp_run st \<or> lp_failed st \<noteq> None"

definition loop_step :: "reader \<Rightarrow> tick \<Rightarrow> loop \<Rightarrow> loop" where
  "loop_step rd t st =
     (if lp_done st then st\<lparr>lp_run := False\<rparr>
      else case t of
        Cancelled \<Rightarrow> st\<lparr>lp_run := False, lp_done := True\<rparr>
      | Signal \<Rightarrow> st\<lparr>lp_run := False\<rparr>
      | Poll ev \<Rightarrow> on_event rd ev st)"

fun poll_loop :: "reader \<Rightarrow> loop \<Rightarrow> tick list \<Rightarrow> loop option" where
  "poll_loop rd st [] = (if stopped st then Some st else None)"
| "poll_loop rd st (t # ts) =
     (if stopped st then Some st else poll_loop rd (loop_step rd t st) ts)"

section \<open>Offsets\<close>

text \<open>
  \<open>merge_since\<close>: after the loop, partitions of the request's token that delivered nothing keep
  their offset.  \<open>resets\<close>: the positions committed for a token are one past its offsets, in 64
  bits.
\<close>

definition merge_since :: "offsets \<Rightarrow> offsets \<Rightarrow> offsets" where
  "merge_since since seen =
     fold (\<lambda>(p, n) m. if gm_get m p = None then gm_put p n m else m) since seen"

definition resets :: "string \<Rightarrow> offsets \<Rightarrow> (string \<times> partition \<times> offset) list" where
  "resets topic since = map (\<lambda>(p, n). (topic, p, n + 1)) since"

definition continuation_entity :: "string \<Rightarrow> entity" where
  "continuation_entity tok =
     new_entity\<lparr>ent_id := ''@continuation'', ent_props := [(''token'', GStr tok)]\<rparr>"

definition continuation :: "dataset_request \<Rightarrow> offsets \<Rightarrow> loop \<Rightarrow> entity list" where
  "continuation rq since st =
     (if lp_sinceCount st > 0
      then [continuation_entity (since_token (merge_since since (lp_offsets st)))]
      else if rq_since rq \<noteq> [] then [continuation_entity (rq_since rq)]
      else [])"

section \<open>The whole request\<close>

text \<open>
  The calls on the Kafka client and on the registry of running requests, in the order they are
  made.  \<open>CancelPrevious\<close> and \<open>ClosePrevious\<close> concern the registered run of the same key.
\<close>

datatype effect =
    CancelPrevious
  | ClosePrevious
  | OpenConsumer string
  | Register string
  | GetMetadata string
  | CommitOffsets "(string \<times> partition \<times> offset) list"
  | Subscribe string
  | Emit entity
  | CancelContext
  | CloseConsumer
  | Unregister string

record broker =
  br_new_consumer :: "string option"
  br_metadata :: "string \<Rightarrow> string + (string \<times> partition list) list"
  br_commit :: "(string \<times> partition \<times> offset) list \<Rightarrow> string option"
  br_subscribe :: "string \<Rightarrow> string option"

definition topic_group :: "consumer_config \<Rightarrow> string" where
  "topic_group c = cc_topic c @ ''-'' @ cc_groupId c"

fun reset_to_start ::
  "broker \<Rightarrow> string \<Rightarrow> (string \<times> partition \<times> offset) list \<Rightarrow> (string \<times> partition list) list
     \<Rightarrow> effect list \<times> unit go" where
  "reset_to_start B topic ps [] = ([], Inr ())"
| "reset_to_start B topic ps ((k, ids) # ts) =
     (if k = topic then
        (let ps' = ps @ map (\<lambda>i. (topic, i, 0)) ids
         in case br_commit B ps' of
              Some err \<Rightarrow> ([CommitOffsets ps'], Inl (Err err))
            | None \<Rightarrow> (case reset_to_start B topic ps' ts of (eff, r) \<Rightarrow> (CommitOffsets ps' # eff, r)))
      else reset_to_start B topic ps ts)"

definition reset_offsets :: "broker \<Rightarrow> consumer_config \<Rightarrow> offsets \<Rightarrow> effect list \<times> unit go" where
  "reset_offsets B c since =
     (let ps = resets (cc_topic c) since in
      if ps \<noteq> [] then
        ([CommitOffsets ps], (case br_commit B ps of Some err \<Rightarrow> Inl (Err err) | None \<Rightarrow> Inr ()))
      else
        (case br_metadata B (cc_topic c) of
           Inl err \<Rightarrow> ([GetMetadata (cc_topic c)], Inl (Err err))
         | Inr topics \<Rightarrow>
             (case reset_to_start B (cc_topic c) [] topics of
                (eff, r) \<Rightarrow> (GetMetadata (cc_topic c) # eff, r))))"

text \<open>From the token to the end of the function, without the deferred clean-up.\<close>

definition read_changes ::
  "golib \<Rightarrow> gjson \<Rightarrow> formats \<Rightarrow> broker \<Rightarrow> consumer_config \<Rightarrow> dataset_request \<Rightarrow> decoder \<Rightarrow> tick list
     \<Rightarrow> (effect list \<times> unit go) option" where
  "read_changes L G F B c rq d ticks =
     (let since = decode_since (rq_since rq) in
      case reset_offsets B c since of
        (eff, Inl e) \<Rightarrow> Some (eff, Inl e)
      | (eff, Inr _) \<Rightarrow>
          (case br_subscribe B (cc_topic c) of
             Some err \<Rightarrow> Some (eff @ [Subscribe (cc_topic c)], Inl (Err err))
           | None \<Rightarrow>
               (case new_entity_encoder c of
                  Inl e \<Rightarrow> Some (eff @ [Subscribe (cc_topic c), CancelContext], Inl e)
                | Inr enc \<Rightarrow>
                    map_option (\<lambda>st.
                        (eff @ [Subscribe (cc_topic c)] @ map Emit (lp_out st) @
                         (case lp_failed st of
                            Some e \<Rightarrow> (if lp_run st then [CancelContext] else [])
                          | None \<Rightarrow> map Emit (continuation rq since st)),
                         (case lp_failed st of Some e \<Rightarrow> Inl e | None \<Rightarrow> Inr ())))
                      (poll_loop \<lparr>rd_lib = L, rd_gjson = G, rd_formats = F, rd_encoder = enc,
                                   rd_limit = rq_limit rq\<rparr> (loop_start d) ticks))))"

definition change_set ::
  "golib \<Rightarrow> gjson \<Rightarrow> formats \<Rightarrow> broker \<Rightarrow> consumer_config list \<Rightarrow> (string, bool) gomap
     \<Rightarrow> dataset_request \<Rightarrow> tick list \<Rightarrow> (effect list \<times> unit go) option" where
  "change_set L G F B cs running rq ticks =
     (case config_for cs (rq_dataset rq) of
        None \<Rightarrow> Some ([], Inl (Err ''config has disappeared, bad mojo''))
      | Some c \<Rightarrow>
          (let prev = (case gm_get running (topic_group c) of
                         None \<Rightarrow> []
                       | Some isCancelled \<Rightarrow>
                           CancelPrevious # (if isCancelled then [] else [ClosePrevious])) in
           case br_new_consumer B of
             Some err \<Rightarrow> Some (prev, Inl (Err err))
           | None \<Rightarrow>
               (case new_decoder F c of
                  Inl e \<Rightarrow> Some (prev @ [OpenConsumer (cc_groupId c)] @
                              (case e of Err _ \<Rightarrow> [CancelContext] | Panic _ \<Rightarrow> []), Inl e)
                | Inr d \<Rightarrow>
                    map_option (\<lambda>(eff, r).
                        (prev @ [OpenConsumer (cc_groupId c), Register (topic_group c)] @ eff @
                         [CloseConsumer, CancelContext, Unregister (topic_group c)], r))
                      (read_changes L G F B c rq d ticks))))"

section \<open>Reading a trace\<close>

fun emitted :: "effect list \<Rightarrow> entity list" where
  "emitted [] = []"
| "emitted (Emit e # es) = e # emitted es"
| "emitted (_ # es) = emitted es"

fun committed :: "effect list \<Rightarrow> (string \<times> partition \<times> offset) list" where
  "committed [] = []"
| "committed (CommitOffsets ps # es) = ps @ committed es"
| "committed (_ # es) = committed es"

lemma emitted_append [simp]: "emitted (xs @ ys) = emitted xs @ emitted ys"
  by (induction xs rule: emitted.induct) auto

lemma committed_append [simp]: "committed (xs @ ys) = committed xs @ committed ys"
  by (induction xs rule: committed.induct) auto

lemma emitted_Emit [simp]: "emitted (map Emit es) = es"
  by (induction es) auto

lemma committed_Emit [simp]: "committed (map Emit es) = []"
  by (induction es) auto

end
