(* ===== verification/ConsumerLoop.thy ===== *)
theory ConsumerLoop
  imports Consumer
begin

text \<open>
  What the poll loop of \<open>Consumer\<close> does: which messages it takes, the entities and offsets they
  leave, the bound a limit sets, and when it ends.
\<close>

named_theorems loop_rules \<open>one step of the poll loop\<close>

section \<open>The messages taken\<close>

definition taken :: "tick \<Rightarrow> loop \<Rightarrow> message list" where
  "taken t st = (if lp_done st then [] else case t of Poll (PMessage m) \<Rightarrow> [m] | _ \<Rightarrow> [])"

fun handled :: "reader \<Rightarrow> loop \<Rightarrow> tick list \<Rightarrow> message list" where
  "handled rd st [] = []"
| "handled rd st (t # ts) =
     (if stopped st then [] else taken t st @ handled rd (loop_step rd t st) ts)"

definition position :: "message \<Rightarrow> partition \<times> offset" where
  "position m = (msg_partition m, msg_offset m)"

definition message_entity :: "reader \<Rightarrow> decoder \<Rightarrow> message \<Rightarrow> entity go" where
  "message_entity rd d m =
     (let r = fresh_decode (rd_formats rd) d m in
      if is_panic r then Inl (projl r) else entity_for rd m (decoded_value r))"

text \<open>Every message comes from a poll, in the order of the polls.\<close>

fun polled :: "tick list \<Rightarrow> message list" where
  "polled [] = []"
| "polled (Poll (PMessage m) # ts) = m # polled ts"
| "polled (_ # ts) = polled ts"

lemma polled_Cons: "polled (t # ts) = (case t of Poll (PMessage m) \<Rightarrow> [m] | _ \<Rightarrow> []) @ polled ts"
  by (cases t rule: tick.exhaust) (auto split: poll_event.split)

lemma handled_stopped [simp]: "stopped st \<Longrightarrow> handled rd st ts = []"
  by (cases ts) auto

lemma poll_loop_stopped [simp]: "stopped st \<Longrightarrow> poll_loop rd st ts = Some st"
  by (cases ts) auto

lemma step_done: "lp_done st \<Longrightarrow> stopped (loop_step rd t st)"
  by (simp add: loop_step_def stopped_def)

lemma handled_done: "lp_done st \<Longrightarrow> handled rd st ts = []"
  by (cases ts) (auto simp: taken_def step_done)

lemma handled_prefix: "\<exists>rest. polled ts = handled rd st ts @ rest"
proof (induction ts arbitrary: st)
  case Nil
  then show ?case by simp
next
  case (Cons t ts)
  show ?case
  proof (cases "stopped st \<or> lp_done st")
    case True
    then have "handled rd st (t # ts) = []"
      using handled_done handled_stopped by blast
    then show ?thesis by simp
  next
    case False
    then show ?thesis
      using Cons [of "loop_step rd t st"] by (auto simp: polled_Cons taken_def)
  qed
qed

section \<open>One step\<close>

lemma on_message_simps [loop_rules]:
  "lp_count (on_message rd m st) = lp_count st + 1"
  "lp_sinceCount (on_message rd m st) = lp_sinceCount st + 1"
  "lp_offsets (on_message rd m st) = gm_put (msg_partition m) (msg_offset m) (lp_offsets st)"
  "lp_nilCount (on_message rd m st) = 0"
  "lp_isBeginning (on_message rd m st) = False"
  "lp_decoder (on_message rd m st) = fst (decode (rd_formats rd) (lp_decoder st) m)"
  by (auto simp: on_message_def Let_def split: prod.split sum.split)

lemma on_nil_simps [loop_rules]:
  "lp_count (on_nil st) = lp_count st" "lp_sinceCount (on_nil st) = lp_sinceCount st"
  "lp_offsets (on_nil st) = lp_offsets st" "lp_decoder (on_nil st) = lp_decoder st"
  "lp_out (on_nil st) = lp_out st" "lp_failed (on_nil st) = lp_failed st"
  "lp_run (on_nil st) = lp_run st" "lp_isBeginning (on_nil st) = lp_isBeginning st"
  "lp_nilCount (on_nil st) = lp_nilCount st + 1"
  "lp_done (on_nil st) = (lp_done st \<or> \<not> lp_isBeginning st \<or> lp_nilCount st = 9)"
  by (auto simp: on_nil_def Let_def)

lemma step_counts [loop_rules]:
  "lp_count (loop_step rd t st) = lp_count st + int (length (taken t st))"
  "lp_sinceCount (loop_step rd t st) = lp_sinceCount st + int (length (taken t st))"
  "lp_offsets (loop_step rd t st) = gm.put_all (map position (taken t st)) (lp_offsets st)"
  by (auto simp: loop_step_def taken_def loop_rules position_def gm.put_all_Nil gm.put_all_Cons
      split: tick.split poll_event.split)

definition decoder_from :: "formats \<Rightarrow> decoder \<Rightarrow> loop \<Rightarrow> bool" where
  "decoder_from F d st \<longleftrightarrow> cache_ok F (lp_decoder st) \<and> fresh_decode F (lp_decoder st) = fresh_decode F d"

lemma on_event_decoder:
  "lp_decoder (on_event rd ev st)
     = (case ev of PMessage m \<Rightarrow> fst (decode (rd_formats rd) (lp_decoder st) m) | _ \<Rightarrow> lp_decoder st)"
  by (cases ev) (auto simp: loop_rules)

lemma step_decoder: "decoder_from (rd_formats rd) d st \<Longrightarrow> decoder_from (rd_formats rd) d (loop_step rd t st)"
  by (auto simp: decoder_from_def loop_step_def on_event_decoder decoding.dec_inv decoding.fresh_stable
      split: tick.split poll_event.split)

lemma on_message_out:
  "decoder_from (rd_formats rd) d st \<Longrightarrow>
     (case message_entity rd d m of
        Inl e \<Rightarrow> lp_failed (on_message rd m st) = Some e \<and> lp_out (on_message rd m st) = lp_out st
      | Inr ent \<Rightarrow> lp_failed (on_message rd m st) = lp_failed st
          \<and> lp_out (on_message rd m st) = lp_out st @ [ent])"
  using decoding.dec_fresh [of "rd_formats rd" "lp_decoder st" m]
  by (auto simp: on_message_def message_entity_def decoder_from_def Let_def split: prod.split sum.split)

lemma step_out:
  assumes "decoder_from (rd_formats rd) d st" and "lp_failed (loop_step rd t st) = None"
  shows "\<exists>es. lp_out (loop_step rd t st) = lp_out st @ es
    \<and> list_all2 (\<lambda>m e. message_entity rd d m = Inr e) (taken t st) es"
proof -
  have "(\<exists>m. t = Poll (PMessage m) \<and> \<not> lp_done st)
      \<or> taken t st = [] \<and> lp_out (loop_step rd t st) = lp_out st"
    by (auto simp: taken_def loop_step_def loop_rules split: tick.split poll_event.split)
  then consider m where "t = Poll (PMessage m)" "\<not> lp_done st"
    | "taken t st = []" "lp_out (loop_step rd t st) = lp_out st"
    by blast
  then show ?thesis
  proof cases
    case 1
    then show ?thesis
      using assms(2) on_message_out [OF assms(1), of m]
      by (auto simp: loop_step_def taken_def split: sum.splits)
  next
    case 2
    then show ?thesis by simp
  qed
qed

section \<open>The whole loop\<close>

lemma loop_counts:
  "poll_loop rd st ts = Some st' \<Longrightarrow>
     lp_count st' = lp_count st + int (length (handled rd st ts))
     \<and> lp_sinceCount st' = lp_sinceCount st + int (length (handled rd st ts))
     \<and> lp_offsets st' = gm.put_all (map position (handled rd st ts)) (lp_offsets st)"
proof (induction ts arbitrary: st)
  case Nil
  then show ?case by (auto simp: gm.put_all_Nil split: if_splits)
next
  case (Cons t ts)
  show ?case
  proof (cases "stopped st")
    case True
    with Cons.prems show ?thesis by (simp add: gm.put_all_Nil)
  next
    case False
    with Cons show ?thesis
      by (simp add: step_counts gm.put_all_def)
  qed
qed

lemma loop_out:
  "poll_loop rd st ts = Some st' \<Longrightarrow> lp_failed st' = None \<Longrightarrow> decoder_from (rd_formats rd) d st \<Longrightarrow>
     \<exists>es. lp_out st' = lp_out st @ es
       \<and> list_all2 (\<lambda>m e. message_entity rd d m = Inr e) (handled rd st ts) es"
proof (induction ts arbitrary: st)
  case Nil
  then show ?case by (auto split: if_splits)
next
  case (Cons t ts)
  show ?case
  proof (cases "stopped st")
    case True
    with Cons.prems show ?thesis by simp
  next
    case False
    let ?st = "loop_step rd t st"
    have ran: "poll_loop rd ?st ts = Some st'"
      using Cons.prems(1) False by simp
    have ok: "lp_failed ?st = None"
      using ran Cons.prems(2) poll_loop_stopped [of ?st rd ts] by (cases "lp_failed ?st") (auto simp: stopped_def)
    obtain es1 where es1: "lp_out ?st = lp_out st @ es1"
        "list_all2 (\<lambda>m e. message_entity rd d m = Inr e) (taken t st) es1"
      using step_out [OF Cons.prems(3) ok] by blast
    obtain es2 where es2: "lp_out st' = lp_out ?st @ es2"
        "list_all2 (\<lambda>m e. message_entity rd d m = Inr e) (handled rd ?st ts) es2"
      using Cons.IH [OF ran Cons.prems(2) step_decoder [OF Cons.prems(3)]] by blast
    show ?thesis
      using False es1 es2 by (intro exI [of _ "es1 @ es2"]) (auto intro: list_all2_appendI)
  qed
qed

text \<open>The offset kept for a partition is that of its last message.\<close>

definition last_offset :: "message list \<Rightarrow> partition \<Rightarrow> offset option" where
  "last_offset ms p = map_of (rev (map position ms)) p"

lemma last_offset_snoc:
  "last_offset (ms @ [m]) p = (if msg_partition m = p then Some (msg_offset m) else last_offset ms p)"
  by (simp add: last_offset_def position_def)

lemma last_offset_Nil [simp]: "last_offset [] p = None"
  by (simp add: last_offset_def)

lemma last_offset_eq:
  "last_offset ms p =
     (let qs = filter (\<lambda>m. msg_partition m = p) ms in if qs = [] then None else Some (msg_offset (last qs)))"
  by (induction ms rule: rev_induct) (auto simp: last_offset_snoc Let_def)

lemma put_positions:
  "gm_get (gm.put_all (map position ms) m) p
     = (case last_offset ms p of None \<Rightarrow> gm_get m p | Some n \<Rightarrow> Some n)"
  by (simp add: gm.put_all_get last_offset_def map_add_def split: option.split)

lemma merge_since_get:
  "gm_ok since \<Longrightarrow> gm_get (merge_since since m) p
     = (case gm_get m p of Some n \<Rightarrow> Some n | None \<Rightarrow> gm_get since p)"
  unfolding merge_since_def
proof (induction since arbitrary: m)
  case Nil
  then show ?case by (auto split: option.split)
next
  case (Cons pn since)
  obtain q n where pn: "pn = (q, n)" by fastforce
  have new: "gm_get since q = None" and ok: "gm_ok since"
    using Cons.prems pn by (auto simp: gm_ok_def gm_get_None_iff)
  have cons: "gm_get ((q, n) # since) p = (if p = q then Some n else gm_get since p)" for p
    by (simp add: gm_get_def)
  show ?case
    using Cons.IH [OF ok] new by (auto simp: pn cons map_rules split: option.split)
qed

lemma merge_since_ok: "gm_ok m \<Longrightarrow> gm_ok (merge_since since m)"
  unfolding merge_since_def
  by (induction since arbitrary: m) (auto simp: map_rules)

section \<open>Limit\<close>

text \<open>The loop can go on only below the limit.\<close>

lemma on_message_run:
  "lp_run (on_message rd m st) \<Longrightarrow> lp_failed (on_message rd m st) = None
     \<Longrightarrow> rd_limit rd > -1 \<Longrightarrow> lp_count st + 1 < rd_limit rd"
  by (auto simp: on_message_def Let_def split: prod.splits sum.splits if_splits)

lemma step_limit:
  "\<not> stopped st \<Longrightarrow> rd_limit rd > -1 \<Longrightarrow>
     stopped (loop_step rd t st) \<or> taken t st = [] \<or> lp_count (loop_step rd t st) < rd_limit rd"
  using on_message_run [of rd _ st]
  by (auto simp: loop_step_def taken_def stopped_def loop_rules split: tick.splits poll_event.splits)

lemma handled_limit:
  "rd_limit rd > -1 \<Longrightarrow> lp_count st < max 1 (rd_limit rd) \<Longrightarrow>
     lp_count st + int (length (handled rd st ts)) \<le> max 1 (rd_limit rd)"
proof (induction ts arbitrary: st)
  case Nil
  then show ?case by simp
next
  case (Cons t ts)
  show ?case
  proof (cases "stopped st")
    case True
    with Cons.prems show ?thesis by simp
  next
    case False
    have one: "length (taken t st) \<le> 1"
      by (auto simp: taken_def split: tick.split poll_event.split)
    consider "stopped (loop_step rd t st)" | "taken t st = []" | "lp_count (loop_step rd t st) < rd_limit rd"
      using step_limit [OF False Cons.prems(1)] by blast
    then show ?thesis
    proof cases
      case 1
      with False one Cons.prems show ?thesis by simp
    next
      case 2
      with False Cons.prems Cons.IH [of "loop_step rd t st"] show ?thesis
        by (simp add: step_counts)
    next
      case 3
      then have "lp_count (loop_step rd t st) < max 1 (rd_limit rd)" by simp
      from Cons.IH [OF Cons.prems(1) this] False show ?thesis
        by (simp add: step_counts)
    qed
  qed
qed

section \<open>Termination\<close>

text \<open>
  Ten polls that find nothing end the loop, wherever they stand among the other events and
  however many messages arrive: before the first message they are counted, after it the first
  one cancels the context.
\<close>

definition is_nil_tick :: "tick \<Rightarrow> bool" where
  "is_nil_tick t \<longleftrightarrow> t = Poll PNil"

definition nil_budget :: "loop \<Rightarrow> int" where
  "nil_budget st = (if lp_isBeginning st then 10 - lp_nilCount st else 1)"

text \<open>The counter of empty polls is in step with the flag.\<close>

definition nil_inv :: "loop \<Rightarrow> bool" where
  "nil_inv st \<longleftrightarrow> lp_done st \<or> stopped st \<or> 0 \<le> lp_nilCount st \<and> (lp_isBeginning st \<longrightarrow> lp_nilCount st < 10)"

lemma nil_inv_start [simp]: "nil_inv (loop_start d)"
  by (simp add: nil_inv_def loop_start_def)

lemma step_nil:
  assumes "nil_inv st" and "\<not> stopped st" and "\<not> lp_done st"
  shows "nil_inv (loop_step rd t st)"
    and "stopped (loop_step rd t st) \<or> lp_done (loop_step rd t st)
      \<or> nil_budget (loop_step rd t st) + (if is_nil_tick t then 1 else 0) \<le> nil_budget st"
proof -
  have "nil_inv (loop_step rd t st) \<and> (stopped (loop_step rd t st) \<or> lp_done (loop_step rd t st)
      \<or> nil_budget (loop_step rd t st) + (if is_nil_tick t then 1 else 0) \<le> nil_budget st)"
  proof (cases t)
    case (Poll ev)
    with assms show ?thesis
      by (cases ev)
        (auto simp: loop_step_def nil_inv_def nil_budget_def is_nil_tick_def stopped_def loop_rules)
  qed (use assms in \<open>auto simp: loop_step_def nil_inv_def stopped_def\<close>)
  then show "nil_inv (loop_step rd t st)"
    and "stopped (loop_step rd t st) \<or> lp_done (loop_step rd t st)
      \<or> nil_budget (loop_step rd t st) + (if is_nil_tick t then 1 else 0) \<le> nil_budget st"
    by blast+
qed

lemma poll_loop_done: "lp_done st \<Longrightarrow> ts \<noteq> [] \<Longrightarrow> poll_loop rd st ts \<noteq> None"
  by (cases ts) (auto simp: step_done)

lemma poll_loop_more: "poll_loop rd st ts \<noteq> None \<Longrightarrow> poll_loop rd st (ts @ us) = poll_loop rd st ts"
  by (induction ts arbitrary: st) (auto split: if_splits)

lemma nils_end_loop:
  "nil_inv st \<Longrightarrow> nil_budget st \<le> int (length (filter is_nil_tick ts)) \<Longrightarrow> 0 < nil_budget st \<Longrightarrow>
     poll_loop rd st (ts @ [t']) \<noteq> None"
proof (induction ts arbitrary: st)
  case Nil
  then show ?case by simp
next
  case (Cons t ts)
  show ?case
  proof (cases "stopped st \<or> lp_done st")
    case True
    then show ?thesis using poll_loop_done [of st "t # ts @ [t']"] by auto
  next
    case False
    let ?st = "loop_step rd t st"
    have step: "nil_inv ?st" "stopped ?st \<or> lp_done ?st
      \<or> nil_budget ?st + (if is_nil_tick t then 1 else 0) \<le> nil_budget st"
      using step_nil [OF Cons.prems(1)] False by auto
    have "poll_loop rd ?st (ts @ [t']) \<noteq> None"
    proof (cases "stopped ?st \<or> lp_done ?st")
      case True
      then show ?thesis using poll_loop_done [of ?st "ts @ [t']"] by auto
    next
      case go_on: False
      then have "0 < nil_budget ?st"
        using step(1) by (auto simp: nil_inv_def nil_budget_def)
      moreover have "nil_budget ?st \<le> int (length (filter is_nil_tick ts))"
        using go_on step(2) Cons.prems(2) by (auto split: if_splits)
      ultimately show ?thesis
        by (intro Cons.IH step(1))
    qed
    with False show ?thesis by simp
  qed
qed

text \<open>With a limit the messages are bounded too: idle events apart, the loop ends in a bounded number of steps.\<close>

definition idle_tick :: "tick \<Rightarrow> bool" where
  "idle_tick t \<longleftrightarrow> t = Poll (PError False) \<or> t = Poll POther"

definition work_left :: "reader \<Rightarrow> loop \<Rightarrow> int" where
  "work_left rd st =
     (if stopped st then 0 else if lp_done st then 1
      else 1 + nil_budget st + max 1 (rd_limit rd) - lp_count st)"

lemma step_work:
  assumes "nil_inv st" and "\<not> stopped st" and "rd_limit rd > -1"
    and "lp_count st < max 1 (rd_limit rd)"
  shows "work_left rd (loop_step rd t st) + (if idle_tick t \<and> \<not> lp_done st then 0 else 1) \<le> work_left rd st"
    and "stopped (loop_step rd t st) \<or> lp_count (loop_step rd t st) < max 1 (rd_limit rd)"
proof -
  have pos: "\<not> lp_done st \<Longrightarrow> 0 < nil_budget st"
    using assms by (auto simp: nil_inv_def nil_budget_def)
  show "stopped (loop_step rd t st) \<or> lp_count (loop_step rd t st) < max 1 (rd_limit rd)"
    using step_limit [OF assms(2,3), of t] assms(4) by (auto simp: step_counts)
  show "work_left rd (loop_step rd t st) + (if idle_tick t \<and> \<not> lp_done st then 0 else 1) \<le> work_left rd st"
  proof (cases "lp_done st")
    case True
    with assms(2) show ?thesis by (simp add: work_left_def step_done)
  next
    case False
    note live = assms False pos [OF False]
    show ?thesis
    proof (cases t)
      case (Poll ev)
      with live show ?thesis
        by (cases ev)
          (auto simp: work_left_def loop_step_def nil_inv_def nil_budget_def idle_tick_def stopped_def
            loop_rules)
    qed (use live in \<open>auto simp: work_left_def loop_step_def stopped_def idle_tick_def\<close>)
  qed
qed

lemma work_ends_loop:
  "nil_inv st \<Longrightarrow> rd_limit rd > -1 \<Longrightarrow> stopped st \<or> lp_count st < max 1 (rd_limit rd) \<Longrightarrow>
     work_left rd st \<le> int (length (filter (\<lambda>t. \<not> idle_tick t) ts)) \<Longrightarrow>
     poll_loop rd st (ts @ [t']) \<noteq> None"
proof (induction ts arbitrary: st)
  case Nil
  then show ?case
    by (cases "stopped st") (auto simp: work_left_def nil_inv_def nil_budget_def split: if_splits)
next
  case (Cons t ts)
  show ?case
  proof (cases "stopped st \<or> lp_done st")
    case True
    then show ?thesis using poll_loop_done [of st "t # ts @ [t']"] by auto
  next
    case False
    then have inv: "nil_inv (loop_step rd t st)"
      using step_nil [OF Cons.prems(1)] by auto
    have "work_left rd (loop_step rd t st) \<le> int (length (filter (\<lambda>t. \<not> idle_tick t) ts))"
      using step_work(1) [OF Cons.prems(1) _ Cons.prems(2), of t] False Cons.prems(3,4)
      by (auto split: if_splits)
    with Cons.IH [OF inv Cons.prems(2)] step_work(2) [OF Cons.prems(1) _ Cons.prems(2), of t]
      False Cons.prems(3)
    show ?thesis by auto
  qed
qed

end
