(* ===== verification/ConsumerSessions.thy ===== *)
theory ConsumerSessions
  imports ConsumerLoop
begin

text \<open>
  Successive requests of one client, each sent with the token the previous one returned.  The
  broker keeps a committed position for each partition; before it polls, a request commits the
  positions of its token (or zero for every partition).  A partition's log is the list of its
  messages.
\<close>

type_synonym positions = "partition \<Rightarrow> offset option"
type_synonym logs = "partition \<Rightarrow> message list"

definition off :: "message \<Rightarrow> int" where
  "off m = sint (msg_offset m)"

definition start_at :: "positions \<Rightarrow> partition \<Rightarrow> int" where
  "start_at c p = (case c p of None \<Rightarrow> 0 | Some n \<Rightarrow> sint n)"

definition apply_commits :: "(string \<times> partition \<times> offset) list \<Rightarrow> positions \<Rightarrow> positions" where
  "apply_commits ps c = fold (\<lambda>(_, p, n) c. c(p \<mapsto> n)) ps c"

text \<open>What \<open>reset_offsets\<close> commits for a token, on a topic with the partitions \<open>ids\<close>.\<close>

definition commit_list :: "string \<Rightarrow> partition list \<Rightarrow> offsets \<Rightarrow> (string \<times> partition \<times> offset) list" where
  "commit_list topic ids since =
     (if resets topic since \<noteq> [] then resets topic since else map (\<lambda>i. (topic, i, 0)) ids)"

lemma reset_offsets_commits:
  "br_metadata B (cc_topic c) = Inr [(cc_topic c, ids)] \<Longrightarrow> (\<And>ps. br_commit B ps = None) \<Longrightarrow>
     \<exists>pre. reset_offsets B c since = (pre @ [CommitOffsets (commit_list (cc_topic c) ids since)], Inr ())"
  by (auto simp: reset_offsets_def commit_list_def Let_def)

text \<open>The token a request returns, or its own when no message was found.\<close>

definition next_token :: "string \<Rightarrow> message list \<Rightarrow> string" where
  "next_token tok ms =
     (if ms = [] then tok
      else since_token (merge_since (decode_since tok) (gm.put_all (map position ms) [])))"

lemma continuation_next_token:
  assumes "poll_loop rd (loop_start d) ts = Some st"
  shows "continuation rq (decode_since (rq_since rq)) st
    = (if next_token (rq_since rq) (handled rd (loop_start d) ts) = [] then []
       else [continuation_entity (next_token (rq_since rq) (handled rd (loop_start d) ts))])"
  using loop_counts [OF assms] since_token_ne
  by (auto simp: continuation_def next_token_def loop_start_def)

text \<open>The positions and the messages of each request of a session.\<close>

fun session :: "string \<Rightarrow> partition list \<Rightarrow> positions \<Rightarrow> string \<Rightarrow> message list list
    \<Rightarrow> (positions \<times> message list) list" where
  "session topic ids c tok [] = []"
| "session topic ids c tok (ms # mss) =
     (let c' = apply_commits (commit_list topic ids (decode_since tok)) c
      in (c', ms) # session topic ids c' (next_token tok ms) mss)"

text \<open>
  Logs hold increasing offsets below the largest \<^verbatim>\<open>int64\<close>.  A consumer delivers, for each
  partition, a run of the messages from its position on, none left out.
\<close>

definition log_ok :: "logs \<Rightarrow> bool" where
  "log_ok lg \<longleftrightarrow> (\<forall>p. sorted_wrt (\<lambda>a b. off a < off b) (lg p)
     \<and> (\<forall>m \<in> set (lg p). msg_partition m = p \<and> off m < 2 ^ 63 - 1))"

definition available :: "logs \<Rightarrow> positions \<Rightarrow> partition \<Rightarrow> message list" where
  "available lg c p = filter (\<lambda>m. start_at c p \<le> off m) (lg p)"

definition of_partition :: "partition \<Rightarrow> message list \<Rightarrow> message list" where
  "of_partition p ms = filter (\<lambda>m. msg_partition m = p) ms"

definition delivers :: "logs \<Rightarrow> positions \<Rightarrow> message list \<Rightarrow> bool" where
  "delivers lg c ms \<longleftrightarrow> (\<forall>p. \<exists>rest. available lg c p = of_partition p ms @ rest)"

section \<open>Positions after a request\<close>

lemma apply_resets:
  "gm_ok since \<Longrightarrow> apply_commits (resets topic since) c p
     = (case gm_get since p of None \<Rightarrow> c p | Some n \<Rightarrow> Some (n + 1))"
  unfolding apply_commits_def resets_def
proof (induction since arbitrary: c)
  case Nil
  then show ?case by simp
next
  case (Cons qn since)
  obtain q n where qn: "qn = (q, n)" by fastforce
  have new: "gm_get since q = None" and ok: "gm_ok since"
    using Cons.prems qn by (auto simp: gm_ok_def gm_get_None_iff)
  have cons: "gm_get ((q, n) # since) r = (if r = q then Some n else gm_get since r)" for r
    by (simp add: gm_get_def)
  show ?case
    using Cons.IH [OF ok] new by (auto simp: qn cons split: option.split)
qed

lemma apply_zero:
  "apply_commits (map (\<lambda>i. (topic, i, 0)) ids) c p = (if p \<in> set ids then Some 0 else c p)"
  unfolding apply_commits_def by (induction ids arbitrary: c) auto

lemma apply_commits_idem:
  "apply_commits (commit_list topic ids (decode_since tok))
      (apply_commits (commit_list topic ids (decode_since tok)) c)
    = apply_commits (commit_list topic ids (decode_since tok)) c"
  using decode_since_ok [of tok]
  by (auto simp: commit_list_def apply_resets apply_zero fun_eq_iff split: option.split)

lemma sint_succ:
  fixes n :: offset
  assumes "sint n < 2 ^ 63 - 1"
  shows "sint (n + 1) = sint n + 1"
proof -
  have "- (2 ^ 63) \<le> sint n"
    using sint_word_range(1) [of n] by simp
  then show ?thesis
    using assms by (simp add: sint_word_ariths signed_take_bit_int_eq_self)
qed

lemma put_positions_Nil: "gm_get (gm.put_all (map position ms) []) p = last_offset ms p"
  by (simp add: put_positions split: option.split)

lemma last_offset_of_partition:
  "last_offset ms p = (if of_partition p ms = [] then None
     else Some (msg_offset (last (of_partition p ms))))"
  by (simp add: last_offset_eq of_partition_def Let_def)

lemma next_positions:
  fixes tok c topic ids
  defines "c1 \<equiv> apply_commits (commit_list topic ids (decode_since tok)) c"
  shows "apply_commits (commit_list topic ids (decode_since (next_token tok ms))) c1 p
    = (case last_offset ms p of None \<Rightarrow> c1 p | Some n \<Rightarrow> Some (n + 1))"
proof (cases "ms = []")
  case True
  then show ?thesis
    by (simp add: c1_def next_token_def apply_commits_idem)
next
  case False
  let ?M = "merge_since (decode_since tok) (gm.put_all (map position ms) [])"
  have okM: "gm_ok ?M"
    by (simp add: merge_since_ok gm.put_all_ok)
  have getM: "gm_get ?M q = (case last_offset ms q of Some n \<Rightarrow> Some n | None \<Rightarrow> gm_get (decode_since tok) q)" for q
    by (simp add: merge_since_get decode_since_ok put_positions_Nil)
  have get: "gm_get (decode_since (next_token tok ms)) = gm_get ?M"
    using False okM by (simp add: next_token_def decode_since_token)
  obtain m ms' where ms: "ms = ms' @ [m]"
    using False by (cases ms rule: rev_cases) auto
  then have "last_offset ms (msg_partition m) = Some (msg_offset m)"
    by (simp add: last_offset_snoc)
  then have "gm_get (decode_since (next_token tok ms)) (msg_partition m) \<noteq> None"
    by (simp add: get getM)
  then have "decode_since (next_token tok ms) \<noteq> []"
    by auto
  then have list: "commit_list topic ids (decode_since (next_token tok ms))
      = resets topic (decode_since (next_token tok ms))"
    by (simp add: commit_list_def resets_def)
  have old: "c1 p = Some (n + 1)" if "gm_get (decode_since tok) p = Some n" for n
  proof -
    from that have "decode_since tok \<noteq> []" by auto
    then show ?thesis
      using that by (simp add: c1_def commit_list_def resets_def [symmetric] apply_resets decode_since_ok)
        (simp add: resets_def)
  qed
  show ?thesis
    using old by (auto simp: list apply_resets decode_since_ok get getM split: option.split)
qed

section \<open>Nothing lost, nothing twice\<close>

lemma sorted_tail:
  "sorted_wrt (\<lambda>a b. off a < off b) L \<Longrightarrow> filter (\<lambda>m. s \<le> off m) L = xs @ rest \<Longrightarrow> xs \<noteq> []
     \<Longrightarrow> filter (\<lambda>m. off (last xs) + 1 \<le> off m) L = rest"
proof -
  assume L: "sorted_wrt (\<lambda>a b. off a < off b) L" and eq: "filter (\<lambda>m. s \<le> off m) L = xs @ rest"
    and ne: "xs \<noteq> []"
  obtain ys y where xs: "xs = ys @ [y]"
    using ne by (cases xs rule: rev_cases) auto
  have sorted: "sorted_wrt (\<lambda>a b. off a < off b) (ys @ [y] @ rest)"
    using sorted_wrt_filter [OF L, of "\<lambda>m. s \<le> off m"] by (simp add: eq xs)
  have "y \<in> set (filter (\<lambda>m. s \<le> off m) L)"
    by (simp add: eq xs)
  then have s: "s \<le> off y" by simp
  have "filter (\<lambda>m. off y + 1 \<le> off m) L = filter (\<lambda>m. off y + 1 \<le> off m) (filter (\<lambda>m. s \<le> off m) L)"
    using s by (auto intro: filter_cong)
  also have "\<dots> = filter (\<lambda>m. off y + 1 \<le> off m) (ys @ [y] @ rest)"
    by (simp add: eq xs)
  also have "\<dots> = rest"
  proof -
    have "filter (\<lambda>m. off y + 1 \<le> off m) ys = []" "filter (\<lambda>m. off y + 1 \<le> off m) rest = rest"
      using sorted by (fastforce simp: sorted_wrt_append intro!: filter_False filter_True)+
    then show ?thesis by simp
  qed
  finally show ?thesis by (simp add: xs)
qed

lemma delivers_append:
  assumes lg: "log_ok lg" and first: "delivers lg c1 ms1" and second: "delivers lg c2 ms2"
    and c2: "\<And>p. c2 p = (case last_offset ms1 p of None \<Rightarrow> c1 p | Some n \<Rightarrow> Some (n + 1))"
  shows "delivers lg c1 (ms1 @ ms2)"
  unfolding delivers_def
proof
  fix p
  obtain r1 where r1: "available lg c1 p = of_partition p ms1 @ r1"
    using first by (auto simp: delivers_def)
  obtain r2 where r2: "available lg c2 p = of_partition p ms2 @ r2"
    using second by (auto simp: delivers_def)
  have "available lg c2 p = r1"
  proof (cases "of_partition p ms1 = []")
    case True
    then show ?thesis
      using r1 c2 [of p] by (simp add: available_def start_at_def last_offset_of_partition)
  next
    case False
    let ?l = "last (of_partition p ms1)"
    have "?l \<in> set (available lg c1 p)"
      using False by (simp add: r1)
    then have "off ?l < 2 ^ 63 - 1"
      using lg by (auto simp: available_def log_ok_def)
    then have "start_at c2 p = off ?l + 1"
      using False c2 [of p] by (simp add: start_at_def last_offset_of_partition off_def sint_succ)
    moreover have "filter (\<lambda>m. off ?l + 1 \<le> off m) (lg p) = r1"
      using lg r1 False by (intro sorted_tail) (auto simp: available_def log_ok_def)
    ultimately show ?thesis by (simp add: available_def)
  qed
  then show "\<exists>rest. available lg c1 p = of_partition p (ms1 @ ms2) @ rest"
    using r1 r2 by (auto simp: of_partition_def)
qed

lemma delivers_Nil: "delivers lg c []"
  by (simp add: delivers_def of_partition_def)

lemma session_delivers:
  "log_ok lg \<Longrightarrow> \<forall>(c', ms) \<in> set (session topic ids c tok mss). delivers lg c' ms \<Longrightarrow>
     delivers lg (apply_commits (commit_list topic ids (decode_since tok)) c) (concat mss)"
proof (induction mss arbitrary: c tok)
  case Nil
  then show ?case by (simp add: delivers_Nil)
next
  case (Cons ms mss)
  let ?c = "apply_commits (commit_list topic ids (decode_since tok)) c"
  have first: "delivers lg ?c ms"
    using Cons.prems(2) by (simp add: Let_def)
  have rest: "delivers lg (apply_commits (commit_list topic ids (decode_since (next_token tok ms))) ?c) (concat mss)"
    using Cons.prems by (intro Cons.IH) (simp_all add: Let_def)
  show ?case
    using delivers_append [OF Cons.prems(1) first rest next_positions] by simp
qed

section \<open>The requests themselves\<close>

definition reader_for :: "golib \<Rightarrow> gjson \<Rightarrow> formats \<Rightarrow> encoder \<Rightarrow> int \<Rightarrow> reader" where
  "reader_for L G F enc limit =
     \<lparr>rd_lib = L, rd_gjson = G, rd_formats = F, rd_encoder = enc, rd_limit = limit\<rparr>"

text \<open>A run that returns without error: what it commits and what it emits.\<close>

lemma read_changes_ok:
  assumes "read_changes L G F B c rq d ticks = Some (eff, Inr ())"
  shows "\<exists>eff1 enc st. reset_offsets B c (decode_since (rq_since rq)) = (eff1, Inr ())
    \<and> new_entity_encoder c = Inr enc
    \<and> poll_loop (reader_for L G F enc (rq_limit rq)) (loop_start d) ticks = Some st
    \<and> lp_failed st = None
    \<and> eff = eff1 @ [Subscribe (cc_topic c)] @ map Emit (lp_out st)
        @ map Emit (continuation rq (decode_since (rq_since rq)) st)"
  using assms
  by (auto simp: read_changes_def reader_for_def Let_def
      split: prod.splits sum.splits option.splits)

lemma commits_only:
  "reset_offsets B c since = (eff, r) \<Longrightarrow> emitted eff = []"
proof -
  have "reset_to_start B t ps ts = (eff, r) \<Longrightarrow> emitted eff = []" for t ps ts eff r
    by (induction B t ps ts arbitrary: eff r rule: reset_to_start.induct)
      (auto simp: Let_def split: if_splits option.splits prod.splits)
  then show "reset_offsets B c since = (eff, r) \<Longrightarrow> emitted eff = []"
    by (auto simp: reset_offsets_def Let_def split: if_splits sum.splits option.splits prod.splits)
qed

definition broker_fine :: "broker \<Rightarrow> string \<Rightarrow> partition list \<Rightarrow> bool" where
  "broker_fine B topic ids \<longleftrightarrow> br_metadata B topic = Inr [(topic, ids)] \<and> (\<forall>ps. br_commit B ps = None)"

lemma change_set_ok:
  assumes run: "change_set L G F B cs running rq ticks = Some (eff, Inr ())"
    and c: "config_for cs (rq_dataset rq) = Some c" and B: "broker_fine B (cc_topic c) ids"
  shows "\<exists>enc d st. new_entity_encoder c = Inr enc \<and> new_decoder F c = Inr d
    \<and> poll_loop (reader_for L G F enc (rq_limit rq)) (loop_start d) ticks = Some st
    \<and> lp_failed st = None
    \<and> committed eff = commit_list (cc_topic c) ids (decode_since (rq_since rq))
    \<and> emitted eff = lp_out st @ continuation rq (decode_since (rq_since rq)) st"
proof -
  define prev where "prev = (case gm_get running (topic_group c) of None \<Rightarrow> []
    | Some isCancelled \<Rightarrow> CancelPrevious # (if isCancelled then [] else [ClosePrevious]))"
  have prev: "emitted prev = []" "committed prev = []"
    by (auto simp: prev_def split: option.split)
  obtain d mid where d: "new_decoder F c = Inr d"
    and mid: "read_changes L G F B c rq d ticks = Some (mid, Inr ())"
    and eff: "eff = prev @ [OpenConsumer (cc_groupId c), Register (topic_group c)] @ mid
      @ [CloseConsumer, CancelContext, Unregister (topic_group c)]"
    using run c by (auto simp: change_set_def prev_def [symmetric] Let_def split: option.splits sum.splits)
  obtain eff1 enc st where
      r: "reset_offsets B c (decode_since (rq_since rq)) = (eff1, Inr ())"
    and enc: "new_entity_encoder c = Inr enc"
    and st: "poll_loop (reader_for L G F enc (rq_limit rq)) (loop_start d) ticks = Some st"
      "lp_failed st = None"
    and m: "mid = eff1 @ [Subscribe (cc_topic c)] @ map Emit (lp_out st)
        @ map Emit (continuation rq (decode_since (rq_since rq)) st)"
    using read_changes_ok [OF mid] by blast
  have "committed eff1 = commit_list (cc_topic c) ids (decode_since (rq_since rq))"
    using r B by (auto simp: reset_offsets_def broker_fine_def commit_list_def Let_def)
  with d enc st prev eff m commits_only [OF r] show ?thesis by auto
qed

text \<open>
  The parts that stay the same over a session, the messages a run takes, and the entities of its
  reply without the token at the end.
\<close>

record service =
  sv_lib :: golib
  sv_gjson :: gjson
  sv_formats :: formats
  sv_broker :: broker
  sv_configs :: "consumer_config list"
  sv_dataset :: string
  sv_limit :: int

definition request_for :: "service \<Rightarrow> string \<Rightarrow> dataset_request" where
  "request_for V tok = \<lparr>rq_dataset = sv_dataset V, rq_since = tok, rq_limit = sv_limit V\<rparr>"

definition run_request ::
  "service \<Rightarrow> (string, bool) gomap \<Rightarrow> string \<Rightarrow> tick list \<Rightarrow> (effect list \<times> unit go) option" where
  "run_request V running tok ticks =
     change_set (sv_lib V) (sv_gjson V) (sv_formats V) (sv_broker V) (sv_configs V) running
       (request_for V tok) ticks"

definition service_reader :: "service \<Rightarrow> consumer_config \<Rightarrow> (reader \<times> decoder) option" where
  "service_reader V c =
     (case (new_entity_encoder c, new_decoder (sv_formats V) c) of
        (Inr enc, Inr d) \<Rightarrow>
          Some (reader_for (sv_lib V) (sv_gjson V) (sv_formats V) enc (sv_limit V), d)
      | _ \<Rightarrow> None)"

definition messages_read :: "service \<Rightarrow> tick list \<Rightarrow> message list" where
  "messages_read V ticks =
     (case config_for (sv_configs V) (sv_dataset V) of
        None \<Rightarrow> []
      | Some c \<Rightarrow>
          (case service_reader V c of None \<Rightarrow> [] | Some (rd, d) \<Rightarrow> handled rd (loop_start d) ticks))"

definition entity_of_message :: "service \<Rightarrow> message \<Rightarrow> entity go" where
  "entity_of_message V m =
     (case Option.bind (config_for (sv_configs V) (sv_dataset V)) (service_reader V) of
        None \<Rightarrow> Inl (Panic NilDereference)
      | Some (rd, d) \<Rightarrow> message_entity rd d m)"

definition returned_token :: "string \<Rightarrow> effect list \<Rightarrow> string" where
  "returned_token tok eff =
     (case rev (emitted eff) of
        [] \<Rightarrow> tok
      | e # _ \<Rightarrow> (case gm_get (ent_props e) ''token'' of Some (GStr t) \<Rightarrow> t | _ \<Rightarrow> tok))"

definition changes :: "effect list \<Rightarrow> entity list" where
  "changes eff = butlast (emitted eff)"

text \<open>
  A client that sends each request with the token of the reply before; a request that does not
  return, or returns an error, ends the session.  The result of each is what the broker then has
  as its positions, and the trace.
\<close>

fun serve_all ::
  "service \<Rightarrow> positions \<Rightarrow> string \<Rightarrow> ((string, bool) gomap \<times> tick list) list
     \<Rightarrow> (positions \<times> effect list) list option" where
  "serve_all V c tok [] = Some []"
| "serve_all V c tok ((running, ticks) # rs) =
     (case run_request V running tok ticks of
        Some (eff, Inr _) \<Rightarrow>
          (let c' = apply_commits (committed eff) c in
           map_option (Cons (c', eff)) (serve_all V c' (returned_token tok eff) rs))
      | _ \<Rightarrow> None)"

lemma token_of_continuation:
  "gm_get (ent_props (continuation_entity t)) ''token'' = Some (GStr t)"
  by (simp add: continuation_entity_def new_entity_def gm_get_def)

lemma run_request_ok:
  assumes run: "run_request V running tok ticks = Some (eff, Inr ())"
    and c: "config_for (sv_configs V) (sv_dataset V) = Some c"
    and B: "broker_fine (sv_broker V) (cc_topic c) ids"
  shows "committed eff = commit_list (cc_topic c) ids (decode_since tok)"
    and "returned_token tok eff = next_token tok (messages_read V ticks)"
    and "list_all2 (\<lambda>m e. entity_of_message V m = Inr e) (messages_read V ticks) (changes eff)"
    and "emitted eff = changes eff @ (if returned_token tok eff = [] then []
      else [continuation_entity (returned_token tok eff)])"
proof -
  let ?rq = "request_for V tok"
  have rq: "rq_since ?rq = tok" "rq_limit ?rq = sv_limit V" "rq_dataset ?rq = sv_dataset V"
    by (simp_all add: request_for_def)
  obtain enc d st where enc: "new_entity_encoder c = Inr enc" and d: "new_decoder (sv_formats V) c = Inr d"
    and st: "poll_loop (reader_for (sv_lib V) (sv_gjson V) (sv_formats V) enc (sv_limit V)) (loop_start d) ticks = Some st"
    and fine: "lp_failed st = None"
    and com: "committed eff = commit_list (cc_topic c) ids (decode_since tok)"
    and em: "emitted eff = lp_out st @ continuation ?rq (decode_since tok) st"
    using change_set_ok [of "sv_lib V" "sv_gjson V" "sv_formats V" "sv_broker V" "sv_configs V" running
        ?rq ticks eff c ids] run c B
    by (auto simp: run_request_def rq)
  let ?rd = "reader_for (sv_lib V) (sv_gjson V) (sv_formats V) enc (sv_limit V)"
  let ?ms = "handled ?rd (loop_start d) ticks"
  have sr: "service_reader V c = Some (?rd, d)"
    by (simp add: service_reader_def enc d)
  then have ms: "messages_read V ticks = ?ms" and ent: "entity_of_message V = message_entity ?rd d"
    by (simp_all add: messages_read_def entity_of_message_def c fun_eq_iff)
  have cont: "continuation ?rq (decode_since tok) st
      = (if next_token tok ?ms = [] then [] else [continuation_entity (next_token tok ?ms)])"
    using continuation_next_token [OF st, of ?rq] by (simp add: rq)
  have "decoder_from (sv_formats V) d (loop_start d)"
    using new_decoder_ok [OF d] by (simp add: decoder_from_def loop_start_def)
  then obtain es where out: "lp_out st = es"
      and es: "list_all2 (\<lambda>m e. message_entity ?rd d m = Inr e) ?ms es"
    using loop_out [OF st fine, of d] by (auto simp: reader_for_def loop_start_def)
  have none: "es = []" if "next_token tok ?ms = []"
    using that es since_token_ne by (auto simp: next_token_def split: if_splits)
  show "committed eff = commit_list (cc_topic c) ids (decode_since tok)" by (rule com)
  show nt: "returned_token tok eff = next_token tok (messages_read V ticks)"
  proof (cases "next_token tok ?ms = []")
    case True
    with none em out cont have "emitted eff = []" by simp
    moreover have "tok = []"
      using True since_token_ne by (auto simp: next_token_def split: if_splits)
    ultimately show ?thesis using True by (simp add: returned_token_def ms)
  next
    case False
    with em cont show ?thesis by (simp add: returned_token_def ms token_of_continuation)
  qed
  show "list_all2 (\<lambda>m e. entity_of_message V m = Inr e) (messages_read V ticks) (changes eff)"
    using es em out cont none by (cases "next_token tok ?ms = []") (auto simp: ms ent changes_def)
  show "emitted eff = changes eff @ (if returned_token tok eff = [] then []
      else [continuation_entity (returned_token tok eff)])"
    using em out cont none nt by (cases "next_token tok ?ms = []") (auto simp: ms changes_def)
qed

lemma serve_all_session:
  assumes c: "config_for (sv_configs V) (sv_dataset V) = Some c"
    and B: "broker_fine (sv_broker V) (cc_topic c) ids"
  shows "serve_all V pos tok rs = Some out \<Longrightarrow>
    session (cc_topic c) ids pos tok (map (\<lambda>r. messages_read V (snd r)) rs)
      = zip (map fst out) (map (\<lambda>r. messages_read V (snd r)) rs)
    \<and> list_all2 (\<lambda>m e. entity_of_message V m = Inr e)
        (concat (map (\<lambda>r. messages_read V (snd r)) rs)) (concat (map (\<lambda>o'. changes (snd o')) out))"
proof (induction rs arbitrary: pos tok out)
  case Nil
  then show ?case by simp
next
  case (Cons r rs)
  obtain running ticks where r: "r = (running, ticks)" by fastforce
  obtain eff where run: "run_request V running tok ticks = Some (eff, Inr ())"
    using Cons.prems r by (auto split: option.splits sum.splits)
  note ok = run_request_ok [OF run c B]
  let ?pos = "apply_commits (committed eff) pos"
  obtain out' where out': "serve_all V ?pos (returned_token tok eff) rs = Some out'"
      and out: "out = (?pos, eff) # out'"
    using Cons.prems run r by (auto simp: Let_def)
  show ?case
    using Cons.IH [OF out'] ok by (simp add: r out Let_def list_all2_appendI)
qed

lemma serve_all_delivers:
  assumes "config_for (sv_configs V) (sv_dataset V) = Some c"
    and "broker_fine (sv_broker V) (cc_topic c) ids" and "log_ok lg"
    and "serve_all V pos tok rs = Some out"
    and each: "list_all2 (\<lambda>r o'. delivers lg (fst o') (messages_read V (snd r))) rs out"
  shows "delivers lg (apply_commits (commit_list (cc_topic c) ids (decode_since tok)) pos)
      (concat (map (\<lambda>r. messages_read V (snd r)) rs))"
    and "list_all2 (\<lambda>m e. entity_of_message V m = Inr e)
      (concat (map (\<lambda>r. messages_read V (snd r)) rs)) (concat (map (\<lambda>o'. changes (snd o')) out))"
proof -
  note ses = serve_all_session [OF assms(1,2,4)]
  have "\<forall>(c', ms) \<in> set (zip (map fst out) (map (\<lambda>r. messages_read V (snd r)) rs)). delivers lg c' ms"
    using each by (induction rule: list_all2_induct) auto
  then have "\<forall>(c', ms) \<in> set (session (cc_topic c) ids pos tok (map (\<lambda>r. messages_read V (snd r)) rs)).
      delivers lg c' ms"
    using ses by simp
  then show "delivers lg (apply_commits (commit_list (cc_topic c) ids (decode_since tok)) pos)
      (concat (map (\<lambda>r. messages_read V (snd r)) rs))"
    by (rule session_delivers [OF assms(3)])
qed (use serve_all_session [OF assms(1,2,4)] in blast)

end
