(* ===== verification/ConsumerTrace.thy ===== *)
theory ConsumerTrace
  imports ConsumerSessions
begin

text \<open>
  The protocol a run of \<^verbatim>\<open>ChangeSet\<close> follows on the Kafka client and the registry, as an automaton
  on its trace: offsets are set before the topic is subscribed to, entities are emitted after,
  and a registered consumer is closed, cancelled and unregistered, in this order and once, before
  the run ends, however it ends.
\<close>

datatype stage = Idle | Opened | Registered | Subscribed | Closed | Stopped | Done | Aborted

fun stage_step :: "stage \<Rightarrow> effect \<Rightarrow> stage option" where
  "stage_step Idle CancelPrevious = Some Idle"
| "stage_step Idle ClosePrevious = Some Idle"
| "stage_step Idle (OpenConsumer _) = Some Opened"
| "stage_step Opened (Register _) = Some Registered"
| "stage_step Opened CancelContext = Some Aborted"
| "stage_step Registered (GetMetadata _) = Some Registered"
| "stage_step Registered (CommitOffsets _) = Some Registered"
| "stage_step Registered (Subscribe _) = Some Subscribed"
| "stage_step Registered CloseConsumer = Some Closed"
| "stage_step Subscribed (Emit _) = Some Subscribed"
| "stage_step Subscribed CancelContext = Some Subscribed"
| "stage_step Subscribed CloseConsumer = Some Closed"
| "stage_step Closed CancelContext = Some Stopped"
| "stage_step Stopped (Unregister _) = Some Done"
| "stage_step _ _ = None"

fun stage_after :: "stage \<Rightarrow> effect list \<Rightarrow> stage option" where
  "stage_after g [] = Some g"
| "stage_after g (e # es) = Option.bind (stage_step g e) (\<lambda>g'. stage_after g' es)"

lemma stage_after_append: "stage_after g (xs @ ys) = Option.bind (stage_after g xs) (\<lambda>g'. stage_after g' ys)"
  by (induction xs arbitrary: g) (auto simp: Option.bind_assoc)

lemma stage_after_emits [simp]: "stage_after Subscribed (map Emit es) = Some Subscribed"
  by (induction es) auto

lemma stage_after_resets:
  "reset_offsets B c since = (eff, r) \<Longrightarrow> stage_after Registered eff = Some Registered"
proof -
  have "reset_to_start B t ps ts = (eff, r) \<Longrightarrow> stage_after Registered eff = Some Registered" for t ps ts eff r
    by (induction B t ps ts arbitrary: eff r rule: reset_to_start.induct)
      (auto simp: Let_def split: if_splits option.splits prod.splits)
  then show "reset_offsets B c since = (eff, r) \<Longrightarrow> stage_after Registered eff = Some Registered"
    by (auto simp: reset_offsets_def Let_def split: if_splits sum.splits option.splits prod.splits)
qed

lemma stage_after_read:
  assumes "read_changes L G F B c rq d ticks = Some (eff, r)"
  shows "stage_after Registered eff \<in> {Some Registered, Some Subscribed}"
proof -
  obtain eff1 r1 where r1: "reset_offsets B c (decode_since (rq_since rq)) = (eff1, r1)" by fastforce
  show ?thesis
    using assms r1 stage_after_resets [OF r1]
    by (auto simp: read_changes_def Let_def stage_after_append split: sum.splits option.splits if_splits)
qed

lemma stage_after_change_set:
  assumes "change_set L G F B cs running rq ticks = Some (eff, r)"
  shows "stage_after Idle eff = Some Idle \<and> (\<exists>e. r = Inl (Err e))
    \<or> (\<exists>c e. config_for cs (rq_dataset rq) = Some c \<and> new_decoder F c = Inl e \<and> r = Inl e
         \<and> stage_after Idle eff \<in> {Some Opened, Some Aborted})
    \<or> stage_after Idle eff = Some Done"
proof (cases "config_for cs (rq_dataset rq)")
  case None
  with assms show ?thesis by (auto simp: change_set_def)
next
  case (Some c)
  define prev where "prev = (case gm_get running (topic_group c) of None \<Rightarrow> []
    | Some isCancelled \<Rightarrow> CancelPrevious # (if isCancelled then [] else [ClosePrevious]))"
  have prev: "stage_after Idle prev = Some Idle"
    by (auto simp: prev_def split: option.split)
  show ?thesis
  proof (cases "br_new_consumer B")
    case err: (Some e)
    with assms Some prev show ?thesis by (auto simp: change_set_def prev_def [symmetric] Let_def)
  next
    case ok: None
    show ?thesis
    proof (cases "new_decoder F c")
      case (Inl e)
      with assms Some ok prev show ?thesis
        by (cases e) (auto simp: change_set_def prev_def [symmetric] Let_def stage_after_append)
    next
      case (Inr d)
      then obtain mid where mid: "read_changes L G F B c rq d ticks = Some (mid, r)"
        and eff: "eff = prev @ [OpenConsumer (cc_groupId c), Register (topic_group c)] @ mid
          @ [CloseConsumer, CancelContext, Unregister (topic_group c)]"
        using assms Some ok by (auto simp: change_set_def prev_def [symmetric] Let_def)
      with stage_after_read [OF mid] prev show ?thesis
        by (auto simp: stage_after_append)
    qed
  qed
qed

text \<open>Only a consumer that has been stopped is unregistered, and that ends the run.\<close>

fun_cases unregisterE: "stage_step g (Unregister k) = Some g'"

text \<open>A trace that ends in \<open>Done\<close> closed its consumer exactly once.\<close>

definition count_closes :: "effect list \<Rightarrow> nat" where
  "count_closes eff = length (filter (\<lambda>e. e = CloseConsumer) eff)"

fun closes_at :: "stage \<Rightarrow> nat" where
  "closes_at Closed = 1"
| "closes_at Stopped = 1"
| "closes_at Done = 1"
| "closes_at _ = 0"

lemma stage_closes: "stage_after g eff = Some g' \<Longrightarrow> closes_at g' = closes_at g + count_closes eff"
proof (induction eff arbitrary: g)
  case Nil
  then show ?case by (simp add: count_closes_def)
next
  case (Cons e eff)
  then obtain g1 where g1: "stage_step g e = Some g1" "stage_after g1 eff = Some g'"
    by (auto simp: bind_eq_Some_conv)
  have "closes_at g1 = closes_at g + (if e = CloseConsumer then 1 else 0)"
    using g1(1) by (cases "(g, e)" rule: stage_step.cases) auto
  with Cons.IH [OF g1(2)] show ?case by (simp add: count_closes_def)
qed

lemma change_set_closes:
  assumes "change_set L G F B cs running rq ticks = Some (eff, r)"
  shows "count_closes eff \<le> 1"
    and "config_for cs (rq_dataset rq) = Some c \<Longrightarrow> new_decoder F c = Inr d \<Longrightarrow> br_new_consumer B = None
      \<Longrightarrow> stage_after Idle eff = Some Done \<and> count_closes eff = 1"
proof -
  have "stage_after Idle eff \<noteq> None"
    using stage_after_change_set [OF assms] by auto
  then obtain g where "stage_after Idle eff = Some g" by blast
  moreover have "closes_at g \<le> 1" by (cases g) auto
  ultimately show "count_closes eff \<le> 1" using stage_closes [of Idle eff g] by simp
next
  assume c: "config_for cs (rq_dataset rq) = Some c" "new_decoder F c = Inr d" "br_new_consumer B = None"
  have "eff \<noteq> [] \<and> last eff = Unregister (topic_group c)"
    using assms c by (auto simp: change_set_def Let_def)
  then obtain es where es: "eff = es @ [Unregister (topic_group c)]"
    by (metis append_butlast_last_id)
  have "stage_after Idle eff \<noteq> Some Idle"
  proof
    assume idle: "stage_after Idle eff = Some Idle"
    then obtain g where "stage_step g (Unregister (topic_group c)) = Some Idle"
      by (auto simp: es stage_after_append bind_eq_Some_conv)
    then show False by (auto elim: unregisterE)
  qed
  then have "stage_after Idle eff = Some Done"
    using stage_after_change_set [OF assms] c by auto
  then show "stage_after Idle eff = Some Done \<and> count_closes eff = 1"
    using stage_closes [of Idle eff Done] by simp
qed

section \<open>A run returns\<close>

lemma change_set_returns:
  assumes "\<And>c enc d. new_entity_encoder c = Inr enc \<Longrightarrow> new_decoder F c = Inr d \<Longrightarrow>
      poll_loop (reader_for L G F enc (rq_limit rq)) (loop_start d) ticks \<noteq> None"
  shows "change_set L G F B cs running rq ticks \<noteq> None"
proof (cases "config_for cs (rq_dataset rq)")
  case None
  then show ?thesis by (simp add: change_set_def)
next
  case (Some c)
  have "read_changes L G F B c rq d ticks \<noteq> None" if "new_decoder F c = Inr d" for d
    using assms [of c _ d] that
    by (auto simp: read_changes_def reader_for_def Let_def split: prod.split sum.split option.split)
  with Some show ?thesis
    by (auto simp: change_set_def Let_def split: option.split sum.split)
qed

lemma start_budget: "nil_budget (loop_start d) = 10"
  by (simp add: nil_budget_def loop_start_def)

lemma start_work: "work_left rd (loop_start d) = 11 + max 1 (rd_limit rd)"
  by (simp add: work_left_def nil_budget_def loop_start_def stopped_def)

lemma start_count: "lp_count (loop_start d) = 0"
  by (simp add: loop_start_def)

lemma messages_read_limit:
  "0 \<le> sv_limit V \<Longrightarrow> int (length (messages_read V ticks)) \<le> max 1 (sv_limit V)"
  using handled_limit [of "reader_for (sv_lib V) (sv_gjson V) (sv_formats V) enc (sv_limit V)" "loop_start d" ticks
      for enc d]
  by (auto simp: messages_read_def service_reader_def reader_for_def start_count
      split: option.split sum.split)

text \<open>A value that could not be decoded is encoded as the empty document.\<close>

lemma encode_empty: "encode L G enc key [] = Inr new_entity"
proof -
  have "json_parse [] = None" by code_simp
  then show ?thesis by (simp add: encode_def unmarshal_map_def)
qed

lemma undecoded_entity:
  "fresh_decode (rd_formats rd) d m = Inl (Err e) \<Longrightarrow> \<not> cc_includeHeaders (enc_config (rd_encoder rd)) \<Longrightarrow>
     message_entity rd d m = Inr new_entity"
  by (simp add: message_entity_def entity_for_def decoded_value_def encode_empty)

end
