(* ===== verification/Samples.thy ===== *)
theory Samples
  imports ConsumerTrace
begin

text \<open>
  Concrete parameters and one small configuration, on which the witnesses of the properties are
  evaluated: a topic with two partitions, read without a value decoder.
\<close>

definition sample_lib :: golib where
  "sample_lib = \<lparr>parse_float = (\<lambda>_. Some 0), show_float = (\<lambda>_. ''0''), fmt_verb = (\<lambda>_ _. []),
     map_rank = (\<lambda>_ k. length k)\<rparr>"

definition sample_gjson :: gjson where
  "sample_gjson js path = \<lparr>gr_value = GStr ''v'', gr_bool = True, gr_exists = True\<rparr>"

definition sample_formats :: formats where
  "sample_formats = \<lparr>get_schema = (\<lambda>_ i. Inr (nat i)), native_from_binary = (\<lambda>_ _. Some 0),
     textual_from_native = (\<lambda>_ _. Inr ''{}''), parse_files = (\<lambda>_ _. Inr [0]),
     find_message = (\<lambda>_ _. Some 0), proto_unmarshal = (\<lambda>_ _. Inl (Err ''bad'')),
     proto_json = (\<lambda>_. Inr ''{}'')\<rparr>"

definition sample_consumer :: consumer_config where
  "sample_consumer = \<lparr>cc_dataset = ''ds'', cc_topic = ''t'', cc_groupId = ''g'', cc_valueDecoder = None,
     cc_position = [], cc_nameSpace = ''people'', cc_baseNameSpace = ''http://x/'',
     cc_includeHeaders = False, cc_entityIdConstructor = ''p/%v'', cc_types = [],
     cc_fieldMappings = [], cc_schemaRegistry = None, cc_protobufSchema = None\<rparr>"

definition sample_broker :: broker where
  "sample_broker = \<lparr>br_new_consumer = None, br_metadata = (\<lambda>t. Inr [(t, [0, 1])]),
     br_commit = (\<lambda>_. None), br_subscribe = (\<lambda>_. None)\<rparr>"

definition sample_service :: service where
  "sample_service = \<lparr>sv_lib = sample_lib, sv_gjson = sample_gjson, sv_formats = sample_formats,
     sv_broker = sample_broker, sv_configs = [sample_consumer], sv_dataset = ''ds'', sv_limit = -1\<rparr>"

definition sample_message :: "64 word \<Rightarrow> message" where
  "sample_message n = \<lparr>msg_partition = 0, msg_offset = n, msg_key = ''k'', msg_value = ''{\"a\":\"b\"}'',
     msg_spare = [], msg_headers = []\<rparr>"

definition sample_ticks :: "64 word \<Rightarrow> tick list" where
  "sample_ticks n = [Poll (PMessage (sample_message n)), Poll PNil, Cancelled]"

definition sample_requests :: "((string, bool) gomap \<times> tick list) list" where
  "sample_requests = [([], sample_ticks 0), ([], sample_ticks 1)]"

definition sample_log :: logs where
  "sample_log p = (if p = 0 then [sample_message 0, sample_message 1] else [])"

lemma sample_config: "config_for (sv_configs sample_service) (sv_dataset sample_service) = Some sample_consumer"
  by code_simp

lemma sample_topic [simp]: "cc_topic sample_consumer = ''t''"
  by (simp add: sample_consumer_def)

lemma sample_broker_fine: "broker_fine (sv_broker sample_service) (cc_topic sample_consumer) [0, 1]"
  by (simp add: broker_fine_def sample_service_def sample_broker_def)

lemma sample_log_ok: "log_ok sample_log"
  by (auto simp: log_ok_def sample_log_def off_def sample_message_def)

lemma sample_num: "valid_num ''0''"
  by code_simp

lemma sample_lib_ok: "lib_ok sample_lib"
  by (simp add: lib_ok_def sample_lib_def sample_num)

lemma sample_read:
  "messages_read sample_service (sample_ticks 0) = [sample_message 0]"
  "messages_read sample_service (sample_ticks 1) = [sample_message 1]"
  by code_simp+

text \<open>The token after the first request is \<^verbatim>\<open>{"0":0}\<close>, after the second \<^verbatim>\<open>{"0":1}\<close>.\<close>

lemma sample_run:
  "map_option (\<lambda>(eff, r). (committed eff, returned_token [] eff, r))
     (run_request sample_service [] [] (sample_ticks 0))
   = Some ([(''t'', 0, 0), (''t'', 1, 0)], ''eyIwIjowfQ=='', Inr ())"
  "map_option (\<lambda>(eff, r). (committed eff, returned_token ''eyIwIjowfQ=='' eff, r))
     (run_request sample_service [] ''eyIwIjowfQ=='' (sample_ticks 1))
   = Some ([(''t'', 0, 1)], ''eyIwIjoxfQ=='', Inr ())"
  by code_simp+

lemma sample_session:
  obtains e1 e2 where "serve_all sample_service (\<lambda>_. None) [] sample_requests
      = Some [((\<lambda>_. None)(0 \<mapsto> 0, 1 \<mapsto> 0), e1), ((\<lambda>_. None)(0 \<mapsto> 1, 1 \<mapsto> 0), e2)]"
proof -
  obtain e1 where e1: "run_request sample_service [] [] (sample_ticks 0) = Some (e1, Inr ())"
      "committed e1 = [(''t'', 0, 0), (''t'', 1, 0)]" "returned_token [] e1 = ''eyIwIjowfQ==''"
    using sample_run(1) by auto
  obtain e2 where e2: "run_request sample_service [] ''eyIwIjowfQ=='' (sample_ticks 1) = Some (e2, Inr ())"
      "committed e2 = [(''t'', 0, 1)]"
    using sample_run(2) by auto
  have "serve_all sample_service (\<lambda>_. None) [] sample_requests
      = Some [((\<lambda>_. None)(0 \<mapsto> 0, 1 \<mapsto> 0), e1), ((\<lambda>_. None)(0 \<mapsto> 1, 1 \<mapsto> 0), e2)]"
    using e1 e2 by (simp add: sample_requests_def apply_commits_def fun_upd_twist)
  then show thesis by (rule that)
qed

end
