(* ===== verification/ConsumerRegistry.thy ===== *)
theory ConsumerRegistry
  imports Main
begin

text \<open>
  The registry of running requests in \<^verbatim>\<open>internal/kafka/consumer.go\<close> under concurrency: the map
  \<^verbatim>\<open>running\<close>, its lock, and the \<^verbatim>\<open>runState\<close> of each request.  A request is a number; the pieces
  of \<^verbatim>\<open>ChangeSet\<close> between which another request can run are the steps.
\<close>

text \<open>
  \<open>Replacing j\<close> holds the read lock and has cancelled the registered request \<open>j\<close>; \<open>HasConsumer\<close> has
  opened its Kafka consumer and not registered it; \<open>Polling\<close> lasts from the registration to the deferred
  clean-up; \<open>Failed\<close> is the end of a request whose decoder could not be made.
\<close>

datatype phase =
  NotStarted | Replacing nat | LookedUp | HasConsumer | Polling | Leaving | Closing | Deregistering | Finished | Failed

text \<open>
  \<open>entry\<close> is the map, \<open>readers\<close> the holders of the read lock, \<open>cancelled\<close> the contexts, \<open>flag\<close>
  the field \<^verbatim>\<open>isCancelled\<close>; \<open>opened\<close> and \<open>closes\<close> count the calls on the Kafka consumer of a
  request.
\<close>

record registry =
  entry :: "string \<Rightarrow> nat option"
  readers :: nat
  phase_of :: "nat \<Rightarrow> phase"
  key_of_req :: "nat \<Rightarrow> string"
  cancelled :: "nat \<Rightarrow> bool"
  flag :: "nat \<Rightarrow> bool"
  opened :: "nat \<Rightarrow> nat"
  closes :: "nat \<Rightarrow> nat"

definition start_registry :: registry where
  "start_registry = \<lparr>entry = (\<lambda>_. None), readers = 0, phase_of = (\<lambda>_. NotStarted),
     key_of_req = (\<lambda>_. []), cancelled = (\<lambda>_. False), flag = (\<lambda>_. False), opened = (\<lambda>_. 0),
     closes = (\<lambda>_. 0)\<rparr>"

definition at :: "nat \<Rightarrow> phase \<Rightarrow> registry \<Rightarrow> registry" where
  "at i p s = s\<lparr>phase_of := (phase_of s)(i := p)\<rparr>"

definition cancel_req :: "nat \<Rightarrow> registry \<Rightarrow> registry" where
  "cancel_req i s = s\<lparr>cancelled := (cancelled s)(i := True)\<rparr>"

definition open_consumer :: "nat \<Rightarrow> registry \<Rightarrow> registry" where
  "open_consumer i s = s\<lparr>opened := (opened s)(i := opened s i + 1)\<rparr>"

definition close_consumer :: "nat \<Rightarrow> registry \<Rightarrow> registry" where
  "close_consumer i s = (if flag s i then s else s\<lparr>closes := (closes s)(i := closes s i + 1)\<rparr>)"

text \<open>Under the read lock: what is registered for the key is cancelled.\<close>

definition look_up_key :: "nat \<Rightarrow> string \<Rightarrow> registry \<Rightarrow> registry" where
  "look_up_key i k s =
     (let s1 = s\<lparr>key_of_req := (key_of_req s)(i := k)\<rparr> in
      case entry s k of
        None \<Rightarrow> at i LookedUp s1
      | Some j \<Rightarrow> at i (Replacing j) (cancel_req j (s1\<lparr>readers := readers s + 1\<rparr>)))"

text \<open>
  \<open>cancel_self\<close> is the loop cancelling its own context: after ten empty polls, on a depleted topic, a
  fatal error or a message that cannot be decoded.  \<open>leave\<close> is the way into the clean-up: when the loop finds
  its context cancelled, on a signal, at the limit, with the error of an early return, or in a panic.
\<close>

inductive reg_step :: "registry \<Rightarrow> registry \<Rightarrow> bool" where
  look_up: "phase_of s i = NotStarted \<Longrightarrow> reg_step s (look_up_key i k s)"
| close_previous: "phase_of s i = Replacing j \<Longrightarrow>
    reg_step s (at i LookedUp (close_consumer j (s\<lparr>readers := readers s - 1\<rparr>)))"
| no_consumer: "phase_of s i = LookedUp \<Longrightarrow> reg_step s (at i Finished s)"
| new_consumer: "phase_of s i = LookedUp \<Longrightarrow> reg_step s (at i HasConsumer (open_consumer i s))"
| no_decoder: "phase_of s i = HasConsumer \<Longrightarrow> reg_step s (at i Failed (cancel_req i s))"
| decoder_panic: "phase_of s i = HasConsumer \<Longrightarrow> reg_step s (at i Failed s)"
| register: "phase_of s i = HasConsumer \<Longrightarrow> readers s = 0 \<Longrightarrow>
    reg_step s (at i Polling (s\<lparr>entry := (entry s)(key_of_req s i \<mapsto> i)\<rparr>))"
| cancel_self: "phase_of s i = Polling \<Longrightarrow> reg_step s (cancel_req i s)"
| leave: "phase_of s i = Polling \<Longrightarrow> reg_step s (at i Leaving s)"
| close_own: "phase_of s i = Leaving \<Longrightarrow> reg_step s (at i Closing (close_consumer i s))"
| mark: "phase_of s i = Closing \<Longrightarrow>
    reg_step s (at i Deregistering (cancel_req i (s\<lparr>flag := (flag s)(i := True)\<rparr>)))"
| deregister: "phase_of s i = Deregistering \<Longrightarrow> readers s = 0 \<Longrightarrow>
    reg_step s (at i Finished (s\<lparr>entry := (entry s)(key_of_req s i := None)\<rparr>))"

inductive reachable :: "registry \<Rightarrow> bool" where
  start: "reachable start_registry"
| step: "reachable s \<Longrightarrow> reg_step s t \<Longrightarrow> reachable t"

inductive leads_to :: "registry \<Rightarrow> registry \<Rightarrow> bool" for s where
  stay: "leads_to s s"
| further: "leads_to s t \<Longrightarrow> reg_step t u \<Longrightarrow> leads_to s u"

inductive_cases reg_stepE: "reg_step s t"

lemmas reg_defs = at_def cancel_req_def open_consumer_def close_consumer_def look_up_key_def Let_def

text \<open>A request that polls under a live context: what there should be at most one of.\<close>

definition live :: "registry \<Rightarrow> nat \<Rightarrow> bool" where
  "live s i \<longleftrightarrow> phase_of s i = Polling \<and> \<not> cancelled s i"

section \<open>What every interleaving keeps\<close>

fun registered_phase :: "phase \<Rightarrow> bool" where
  "registered_phase Polling = True"
| "registered_phase Leaving = True"
| "registered_phase Closing = True"
| "registered_phase Deregistering = True"
| "registered_phase _ = False"

text \<open>
  The map holds requests that are registered under their own key.  A consumer is opened at most
  once, and is open for every registered request; the clean-up closes it and cancels the context.
\<close>

definition entry_ok :: "registry \<Rightarrow> bool" where
  "entry_ok s \<longleftrightarrow>
     (\<forall>k i. entry s k = Some i \<longrightarrow> key_of_req s i = k \<and> registered_phase (phase_of s i))"

definition replacing_ok :: "registry \<Rightarrow> bool" where
  "replacing_ok s \<longleftrightarrow>
     (\<forall>i j. phase_of s i = Replacing j \<longrightarrow> registered_phase (phase_of s j) \<or> phase_of s j = Finished)"

text \<open>
  What a request has done on reaching a phase: consumers opened, calls to close it, the flag, and
  whether its context is cancelled.
\<close>

fun state_ok :: "phase \<Rightarrow> nat \<Rightarrow> nat \<Rightarrow> bool \<Rightarrow> bool \<Rightarrow> bool" where
  "state_ok HasConsumer n c f x \<longleftrightarrow> n = 1 \<and> c = 0 \<and> \<not> f"
| "state_ok Polling n c f x \<longleftrightarrow> n = 1 \<and> \<not> f"
| "state_ok Leaving n c f x \<longleftrightarrow> n = 1 \<and> \<not> f"
| "state_ok Closing n c f x \<longleftrightarrow> n = 1 \<and> c \<ge> 1 \<and> \<not> f"
| "state_ok Deregistering n c f x \<longleftrightarrow> n = 1 \<and> c \<ge> 1 \<and> f \<and> x"
| "state_ok Finished n c f x \<longleftrightarrow> (n = 0 \<or> n = 1 \<and> c \<ge> 1 \<and> f \<and> x)"
| "state_ok Failed n c f x \<longleftrightarrow> n = 1 \<and> c = 0 \<and> \<not> f"
| "state_ok _ n c f x \<longleftrightarrow> n = 0 \<and> c = 0 \<and> \<not> f"

definition req_ok :: "registry \<Rightarrow> nat \<Rightarrow> bool" where
  "req_ok s i \<longleftrightarrow> state_ok (phase_of s i) (opened s i) (closes s i) (flag s i) (cancelled s i)"

lemma state_ok_cancel: "state_ok p n c f x \<Longrightarrow> state_ok p n c f True"
  by (cases p) auto

lemma state_ok_close:
  "state_ok p n c f x \<Longrightarrow> registered_phase p \<or> p = Finished \<Longrightarrow> state_ok p n (Suc c) f x"
  by (cases p) auto

definition reg_inv :: "registry \<Rightarrow> bool" where
  "reg_inv s \<longleftrightarrow> entry_ok s \<and> replacing_ok s \<and> (\<forall>i. req_ok s i)"

lemma reg_inv_start: "reg_inv start_registry"
  by (simp add: reg_inv_def entry_ok_def replacing_ok_def req_ok_def start_registry_def)

lemma entry_okD: "entry_ok s \<Longrightarrow> entry s k = Some i \<Longrightarrow> key_of_req s i = k \<and> registered_phase (phase_of s i)"
  by (simp add: entry_ok_def)

lemma entry_ok_step: "reg_step s t \<Longrightarrow> entry_ok s \<Longrightarrow> entry_ok t"
  by (erule reg_stepE; subst entry_ok_def)
    (auto simp: reg_defs dest: entry_okD split: option.splits if_splits)

lemma replacing_okD: "replacing_ok s \<Longrightarrow> phase_of s i = Replacing j \<Longrightarrow>
    registered_phase (phase_of s j) \<or> phase_of s j = Finished"
  by (simp add: replacing_ok_def)

lemma replacing_ok_step: "reg_step s t \<Longrightarrow> entry_ok s \<Longrightarrow> replacing_ok s \<Longrightarrow> replacing_ok t"
  by (erule reg_stepE; subst replacing_ok_def)
    (auto simp: reg_defs dest: replacing_okD entry_okD split: option.splits if_splits)

lemma req_ok_step: "reg_step s t \<Longrightarrow> replacing_ok s \<Longrightarrow> req_ok s i \<Longrightarrow> req_ok t i"
proof (induction rule: reg_step.induct)
  case (look_up s j k)
  then show ?case
    by (cases "entry s k") (auto simp: req_ok_def reg_defs intro: state_ok_cancel)
next
  case (close_previous s j m)
  then show ?case
    by (auto simp: req_ok_def reg_defs intro: state_ok_close dest: replacing_okD)
qed (auto simp: req_ok_def reg_defs intro: state_ok_cancel)

lemma reg_inv_step: "reg_step s t \<Longrightarrow> reg_inv s \<Longrightarrow> reg_inv t"
  using entry_ok_step replacing_ok_step req_ok_step by (auto simp: reg_inv_def)

lemma reachable_reg_inv: "reachable s \<Longrightarrow> reg_inv s"
proof (induction rule: reachable.induct)
  case start
  show ?case by (rule reg_inv_start)
next
  case (step s t)
  then show ?case using reg_inv_step by blast
qed

text \<open>A cancelled context stays cancelled.\<close>

lemma cancelled_step: "reg_step s t \<Longrightarrow> cancelled s i \<Longrightarrow> cancelled t i"
  by (erule reg_stepE) (auto simp: reg_defs split: option.split)

lemma cancelled_stays: "leads_to s t \<Longrightarrow> cancelled s i \<Longrightarrow> cancelled t i"
  by (induction rule: leads_to.induct) (blast intro: cancelled_step)+

lemma reachable_leads_to: "leads_to s t \<Longrightarrow> reachable s \<Longrightarrow> reachable t"
  by (induction rule: leads_to.induct) (blast intro: reachable.step)+

lemma look_up_cancels: "entry s k = Some j \<Longrightarrow> cancelled (look_up_key i k s) j"
  by (simp add: reg_defs)

section \<open>Two requests at once\<close>

text \<open>Both look the key up before either registers.\<close>

definition both_looked_up :: "string \<Rightarrow> registry" where
  "both_looked_up k = look_up_key 1 k (look_up_key 0 k start_registry)"

definition register_req :: "nat \<Rightarrow> registry \<Rightarrow> registry" where
  "register_req i s =
     (let s1 = at i HasConsumer (open_consumer i s) in
      at i Polling (s1\<lparr>entry := (entry s1)(key_of_req s1 i \<mapsto> i)\<rparr>))"

lemma register_req_step:
  "readers s = 0 \<Longrightarrow> reg_step (at i HasConsumer (open_consumer i s)) (register_req i s)"
  unfolding register_req_def Let_def
  by (rule reg_step.register) (simp_all add: at_def open_consumer_def)

lemma register_req_reachable:
  "reachable s \<Longrightarrow> phase_of s i = LookedUp \<Longrightarrow> readers s = 0 \<Longrightarrow> reachable (register_req i s)"
  using register_req_step reg_step.new_consumer reachable.step by blast

lemma look_up_key_start: "look_up_key 0 k start_registry = at 0 LookedUp (start_registry\<lparr>key_of_req := (\<lambda>_. [])(0 := k)\<rparr>)"
  by (simp add: look_up_key_def start_registry_def)

lemma both_looked_up_eq:
  "both_looked_up k = start_registry\<lparr>
     phase_of := (\<lambda>_. NotStarted)(0 := LookedUp, 1 := LookedUp),
     key_of_req := (\<lambda>_. [])(0 := k, 1 := k)\<rparr>"
  by (simp add: both_looked_up_def look_up_key_start) (simp add: look_up_key_def at_def start_registry_def)

lemma both_looked_up_reachable: "reachable (both_looked_up k)"
proof -
  have "reachable (look_up_key 0 k start_registry)"
    by (rule reachable.step [OF reachable.start reg_step.look_up]) (simp add: start_registry_def)
  then show ?thesis
    unfolding both_looked_up_def
    by (rule reachable.step [OF _ reg_step.look_up])
      (simp add: look_up_key_def at_def start_registry_def)
qed

lemma both_registered_reachable: "reachable (register_req 1 (register_req 0 (both_looked_up k)))"
proof (rule register_req_reachable)
  show "reachable (register_req 0 (both_looked_up k))"
    by (rule register_req_reachable [OF both_looked_up_reachable])
      (simp_all add: both_looked_up_eq start_registry_def)
qed (simp_all add: both_looked_up_eq register_req_def at_def open_consumer_def start_registry_def Let_def)

text \<open>The first one ends: its clean-up removes the entry of the second.\<close>

definition first_gone :: "string \<Rightarrow> registry" where
  "first_gone k =
     (let s = register_req 1 (register_req 0 (both_looked_up k));
          s1 = at 0 Closing (close_consumer 0 (at 0 Leaving s));
          s2 = at 0 Deregistering (cancel_req 0 (s1\<lparr>flag := (flag s1)(0 := True)\<rparr>)) in
      at 0 Finished (s2\<lparr>entry := (entry s2)(key_of_req s2 0 := None)\<rparr>))"

lemma after_cleanup:
  assumes "phase_of s i = Polling" and "readers s = 0"
  shows "leads_to s
     (let s1 = at i Closing (close_consumer i (at i Leaving s));
          s2 = at i Deregistering (cancel_req i (s1\<lparr>flag := (flag s1)(i := True)\<rparr>)) in
      at i Finished (s2\<lparr>entry := (entry s2)(key_of_req s2 i := None)\<rparr>))"
proof -
  let ?s0 = "at i Leaving s"
  let ?s1 = "at i Closing (close_consumer i ?s0)"
  let ?s2 = "at i Deregistering (cancel_req i (?s1\<lparr>flag := (flag ?s1)(i := True)\<rparr>))"
  have "leads_to s ?s0"
    using assms(1) by (blast intro: leads_to.intros reg_step.leave)
  then have "leads_to s ?s1"
    by (rule leads_to.further) (rule reg_step.close_own, simp add: at_def)
  then have "leads_to s ?s2"
    by (rule leads_to.further) (rule reg_step.mark, simp add: at_def)
  then have "leads_to s (at i Finished (?s2\<lparr>entry := (entry ?s2)(key_of_req ?s2 i := None)\<rparr>))"
    by (rule leads_to.further)
      (rule reg_step.deregister, simp_all add: at_def cancel_req_def close_consumer_def assms(2))
  then show ?thesis by (simp add: Let_def)
qed

lemma first_gone_leads: "leads_to (register_req 1 (register_req 0 (both_looked_up k))) (first_gone k)"
  using after_cleanup [of "register_req 1 (register_req 0 (both_looked_up k))" 0]
  by (simp add: first_gone_def both_looked_up_eq register_req_def at_def open_consumer_def start_registry_def Let_def)

lemma first_gone_reachable: "reachable (first_gone k)"
  using reachable_leads_to [OF first_gone_leads both_registered_reachable] .

end
