(* ===== verification/ConsumerProperties.thy ===== *)
theory ConsumerProperties
  imports Samples ConsumerRegistry
begin

text \<open>
  The properties of the consumer side, \<^verbatim>\<open>internal/kafka/consumer.go\<close> and its decoders, each with a
  witness on the samples where it has hypotheses.
\<close>

section \<open>Sessions\<close>

text \<open>
  C1.  A client that reads a dataset in several requests, each sent with the token of the reply
  before, gets every message of every partition exactly once and in order, from the positions
  the first request sets on, and in each reply one entity for each message, in the order the
  messages were read.  The hypotheses are what Kafka promises: logs with increasing offsets, commits
  that succeed, and a consumer that is given the messages of a partition from its committed position
  on.
\<close>

theorem session_exactly_once:
  assumes "config_for (sv_configs V) (sv_dataset V) = Some c"
    and "broker_fine (sv_broker V) (cc_topic c) ids" and "log_ok lg"
    and "serve_all V pos tok rs = Some out"
    and "list_all2 (\<lambda>r o'. delivers lg (fst o') (messages_read V (snd r))) rs out"
  shows "delivers lg (apply_commits (commit_list (cc_topic c) ids (decode_since tok)) pos)
      (concat (map (\<lambda>r. messages_read V (snd r)) rs))
    \<and> list_all2 (\<lambda>m e. entity_of_message V m = Inr e)
      (concat (map (\<lambda>r. messages_read V (snd r)) rs)) (concat (map (\<lambda>o'. changes (snd o')) out))"
  using serve_all_delivers [OF assms] by blast

lemma sample_delivers:
  "delivers sample_log ((\<lambda>_. None)(0 \<mapsto> 0, 1 \<mapsto> 0)) [sample_message 0]"
  "delivers sample_log ((\<lambda>_. None)(0 \<mapsto> 1, 1 \<mapsto> 0)) [sample_message 1]"
  by (auto simp: delivers_def available_def of_partition_def sample_log_def start_at_def off_def
      sample_message_def)

theorem session_exactly_once_witness:
  "delivers sample_log (apply_commits (commit_list ''t'' [0, 1] (decode_since [])) (\<lambda>_. None))
     (concat (map (\<lambda>r. messages_read sample_service (snd r)) sample_requests))"
proof -
  obtain e1 e2 where out: "serve_all sample_service (\<lambda>_. None) [] sample_requests
      = Some [((\<lambda>_. None)(0 \<mapsto> 0, 1 \<mapsto> 0), e1), ((\<lambda>_. None)(0 \<mapsto> 1, 1 \<mapsto> 0), e2)]"
    by (rule sample_session)
  have "list_all2 (\<lambda>r o'. delivers sample_log (fst o') (messages_read sample_service (snd r)))
      sample_requests [((\<lambda>_. None)(0 \<mapsto> 0, 1 \<mapsto> 0), e1), ((\<lambda>_. None)(0 \<mapsto> 1, 1 \<mapsto> 0), e2)]"
    by (simp add: sample_requests_def sample_read sample_delivers)
  from session_exactly_once [OF sample_config sample_broker_fine sample_log_ok out this]
  show ?thesis by simp
qed

text \<open>
  C6.  The token at the end of a reply, decoded by the next request, has for each partition the
  offset of the last message read of it, and for a partition that gave none the offset it had in the
  request's own token.
\<close>

theorem returned_token_offsets:
  assumes "run_request V running tok ticks = Some (eff, Inr ())"
    and "config_for (sv_configs V) (sv_dataset V) = Some c"
    and "broker_fine (sv_broker V) (cc_topic c) ids"
  shows "gm_get (decode_since (returned_token tok eff)) p
    = (case last_offset (messages_read V ticks) p of
         Some n \<Rightarrow> Some n | None \<Rightarrow> gm_get (decode_since tok) p)"
proof (cases "messages_read V ticks = []")
  case True
  then show ?thesis by (simp add: run_request_ok(2) [OF assms] next_token_def)
next
  case False
  have "gm_ok (merge_since (decode_since tok) (gm.put_all (map position (messages_read V ticks)) []))"
    by (simp add: merge_since_ok gm.put_all_ok)
  with False show ?thesis
    by (simp add: run_request_ok(2) [OF assms] next_token_def decode_since_token merge_since_get
        decode_since_ok put_positions_Nil split: option.split)
qed

theorem returned_token_offsets_witness:
  "\<exists>eff. run_request sample_service [] [] (sample_ticks 0) = Some (eff, Inr ())
     \<and> gm_get (decode_since (returned_token [] eff)) 0 = Some 0"
proof -
  obtain eff where run: "run_request sample_service [] [] (sample_ticks 0) = Some (eff, Inr ())"
    using sample_run(1) by auto
  with returned_token_offsets [OF run sample_config sample_broker_fine, of 0]
  show ?thesis by (simp add: sample_read last_offset_def position_def sample_message_def)
qed

text \<open>
  C7.  Tokens lose nothing: the map a token is made of, of any 32-bit partitions and 64-bit
  offsets, is what decoding the token gives back.
\<close>

theorem since_token_roundtrip: "gm_ok m \<Longrightarrow> gm_get (decode_since (since_token m)) = gm_get m"
  by (rule decode_since_token)

theorem since_token_roundtrip_witness:
  "gm_get (decode_since (since_token [(3, 7), (-1, -5)])) (-1) = Some (-5)"
  using since_token_roundtrip [of "[(3, 7), (-1, -5)]"] by (simp add: gm_ok_def gm_get_def)

text \<open>
  C18.  A request with a limit gets at most that many entities, and at most one for the limit
  zero.
\<close>

theorem limit_bounds_changes:
  assumes "run_request V running tok ticks = Some (eff, Inr ())"
    and "config_for (sv_configs V) (sv_dataset V) = Some c"
    and "broker_fine (sv_broker V) (cc_topic c) ids" and "0 \<le> sv_limit V"
  shows "int (length (changes eff)) \<le> max 1 (sv_limit V)"
  using run_request_ok(3) [OF assms(1-3)] messages_read_limit [OF assms(4), of ticks]
  by (simp add: list_all2_lengthD)

text \<open>With the limit zero one message is emitted all the same.\<close>

theorem limit_bounds_changes_witness:
  "\<exists>eff. run_request (sample_service\<lparr>sv_limit := 0\<rparr>) [] [] (sample_ticks 0) = Some (eff, Inr ())
     \<and> length (changes eff) \<le> 1 \<and> length (changes eff) = 1"
proof -
  let ?V = "sample_service\<lparr>sv_limit := 0\<rparr>"
  have "map_option (\<lambda>(eff, r). (length (changes eff), r)) (run_request ?V [] [] (sample_ticks 0))
      = Some (1, Inr ())"
    by code_simp
  then obtain eff where eff: "run_request ?V [] [] (sample_ticks 0) = Some (eff, Inr ())"
      "length (changes eff) = 1"
    by auto
  have "config_for (sv_configs ?V) (sv_dataset ?V) = Some sample_consumer"
      "broker_fine (sv_broker ?V) (cc_topic sample_consumer) [0, 1]"
    using sample_config sample_broker_fine by simp_all
  from limit_bounds_changes [OF eff(1) this] eff show ?thesis by simp
qed

section \<open>The poll loop ends\<close>

text \<open>
  C11.  Every request returns once ten of its polls have found nothing, whatever else the
  broker does in between and whatever the configuration.
\<close>

theorem ten_empty_polls:
  assumes "10 \<le> length (filter is_nil_tick ticks)"
  shows "change_set L G F B cs running rq (ticks @ [t]) \<noteq> None"
proof (rule change_set_returns)
  fix enc d
  have "nil_budget (loop_start d) \<le> int (length (filter is_nil_tick ticks))"
    using assms by (simp add: start_budget)
  then show "poll_loop (reader_for L G F enc (rq_limit rq)) (loop_start d) (ticks @ [t]) \<noteq> None"
    by (intro nils_end_loop) (simp_all add: start_budget)
qed

theorem ten_empty_polls_witness:
  "change_set sample_lib sample_gjson sample_formats sample_broker [sample_consumer] []
     \<lparr>rq_dataset = ''ds'', rq_since = [], rq_limit = -1\<rparr> (replicate 10 (Poll PNil) @ [Cancelled]) \<noteq> None"
  by (rule ten_empty_polls) (simp add: is_nil_tick_def)

text \<open>
  C12.  A request with a limit returns before its loop has made more than a bounded number of the iterations that
  count: ten empty polls, as many messages as the limit or one if it is zero, and one more.  Polls that
  return an informational error or an event of another kind do not count; of these there may be any number.
\<close>

theorem limited_request_returns:
  assumes "0 \<le> rq_limit rq"
    and "11 + max 1 (rq_limit rq) \<le> int (length (filter (\<lambda>t. \<not> idle_tick t) ticks))"
  shows "change_set L G F B cs running rq (ticks @ [t]) \<noteq> None"
proof (rule change_set_returns)
  fix enc d
  let ?rd = "reader_for L G F enc (rq_limit rq)"
  have "rd_limit ?rd = rq_limit rq" by (simp add: reader_for_def)
  with assms show "poll_loop ?rd (loop_start d) (ticks @ [t]) \<noteq> None"
    by (intro work_ends_loop) (auto simp: start_work start_count)
qed

theorem limited_request_returns_witness:
  "change_set sample_lib sample_gjson sample_formats sample_broker [sample_consumer] []
     \<lparr>rq_dataset = ''ds'', rq_since = [], rq_limit = 2\<rparr>
     (replicate 13 (Poll (PMessage (sample_message 4))) @ [Cancelled]) \<noteq> None"
  by (rule limited_request_returns) (simp_all add: idle_tick_def)

section \<open>The trace of a request\<close>

text \<open>
  C9.  The calls of a run follow one protocol: offsets are committed before the subscription and
  entities emitted after it, and a run that has its consumer registered closes it, cancels its
  context and unregisters, in this order and as its last calls, whether it succeeds, fails or panics.
  The exceptions are a dataset without configuration or a consumer that could not be opened, where there
  is nothing to release, and a decoder that could not be made.
\<close>

theorem change_set_protocol:
  assumes "change_set L G F B cs running rq ticks = Some (eff, r)"
  shows "stage_after Idle eff = Some Done
    \<or> stage_after Idle eff = Some Idle \<and> (\<exists>e. r = Inl (Err e))
    \<or> (\<exists>c e. config_for cs (rq_dataset rq) = Some c \<and> new_decoder F c = Inl e \<and> r = Inl e
         \<and> stage_after Idle eff \<in> {Some Opened, Some Aborted})"
  using stage_after_change_set [OF assms] by blast

theorem change_set_protocol_witness:
  "\<exists>eff. change_set sample_lib sample_gjson sample_formats sample_broker [sample_consumer] []
     \<lparr>rq_dataset = ''ds'', rq_since = [], rq_limit = -1\<rparr> [Signal] = Some (eff, Inr ())
     \<and> stage_after Idle eff = Some Done"
proof -
  let ?run = "change_set sample_lib sample_gjson sample_formats sample_broker [sample_consumer] []
     \<lparr>rq_dataset = ''ds'', rq_since = [], rq_limit = -1\<rparr> [Signal]"
  have "map_option (\<lambda>(eff, r). (r, eff = [])) ?run = Some (Inr (), False)" by code_simp
  then obtain eff where eff: "?run = Some (eff, Inr ())" by auto
  moreover have "stage_after Idle (fst (the ?run)) \<noteq> Some Idle" by code_simp
  ultimately show ?thesis using change_set_protocol [OF eff] by auto
qed

text \<open>
  C37.  A consumer whose decoder cannot be made has been opened and is never closed: the run's
  trace ends without a close.
\<close>

theorem decoder_failure_leaks:
  assumes "change_set L G F B cs running rq ticks = Some (eff, r)"
    and "config_for cs (rq_dataset rq) = Some c" and "br_new_consumer B = None"
    and "new_decoder F c = Inl e"
  shows "OpenConsumer (cc_groupId c) \<in> set eff \<and> CloseConsumer \<notin> set eff \<and> r = Inl e"
  using assms by (auto simp: change_set_def Let_def split: option.splits failure.splits if_splits)

theorem decoder_failure_leaks_witness:
  "\<exists>eff r. change_set sample_lib sample_gjson sample_formats sample_broker
       [sample_consumer\<lparr>cc_valueDecoder := Some ''avro''\<rparr>] []
       \<lparr>rq_dataset = ''ds'', rq_since = [], rq_limit = -1\<rparr> [] = Some (eff, r)
     \<and> CloseConsumer \<notin> set eff"
proof -
  let ?c = "sample_consumer\<lparr>cc_valueDecoder := Some ''avro''\<rparr>"
  let ?run = "change_set sample_lib sample_gjson sample_formats sample_broker [?c] []
     \<lparr>rq_dataset = ''ds'', rq_since = [], rq_limit = -1\<rparr> []"
  have "?run \<noteq> None" by code_simp
  then obtain eff r where run: "?run = Some (eff, r)" by auto
  have c: "config_for [?c] (rq_dataset \<lparr>rq_dataset = ''ds'', rq_since = [], rq_limit = -1\<rparr>) = Some ?c"
      "br_new_consumer sample_broker = None"
      "new_decoder sample_formats ?c = Inl (Err ''avro decoder requires schemaRegistry.location.'')"
    by code_simp+
  from decoder_failure_leaks [OF run c] run show ?thesis by blast
qed

text \<open>
  A message that cannot be decoded still yields an entity, one without identifier and
  properties, unless headers are included.
\<close>

lemma undecodable_message_entity:
  assumes "fresh_decode (rd_formats rd) d m = Inl (Err e)"
    and "\<not> cc_includeHeaders (enc_config (rd_encoder rd))"
  shows "message_entity rd d m = Inr new_entity"
  using assms by (rule undecoded_entity)

lemma undecodable_message_entity_witness:
  "message_entity (reader_for sample_lib sample_gjson sample_formats
       \<lparr>enc_config = sample_consumer, enc_columns = []\<rparr> (-1)) (GenericProtoDecoder (Some 0)) (sample_message 0)
     = Inr new_entity"
  by (rule undecodable_message_entity [of _ _ _ "''bad''"])
    (simp_all add: reader_for_def sample_formats_def sample_consumer_def proto_decode_def)

text \<open>
  C33.  The schema cache does not show: a decoder that has decoded a sequence of messages gave, for
  each, what a new decoder gives.
\<close>

theorem decoder_cache_transparent:
  assumes "new_decoder F config = Inr d"
  shows "snd (decoding.run_all F d ms) = map (fresh_decode F d) ms"
  using decoding.run_fresh [OF new_decoder_ok [OF assms]] by blast

theorem decoder_cache_transparent_witness:
  "snd (decoding.run_all sample_formats (AvroDecoder ''u'' []) [sample_message 0, sample_message 1])
     = map (fresh_decode sample_formats (AvroDecoder ''u'' [])) [sample_message 0, sample_message 1]"
  by (rule decoder_cache_transparent [of _ "sample_consumer\<lparr>cc_valueDecoder := Some ''avro'',
      cc_schemaRegistry := Some \<lparr>sr_location = ''u''\<rparr>\<rparr>"]) code_simp

section \<open>The registry of running requests\<close>

text \<open>
  C20.  In every interleaving of requests: the registry holds requests that are not yet
  deregistered, under their own key; a request opens at most one consumer, and every registered one has
  opened its own; a request that has
  finished with a consumer has closed it and cancelled its context; and the consumer of a request
  whose decoder failed is never closed by anyone.
\<close>

theorem registry_safe:
  assumes "reachable s"
  shows "(entry s k = Some i \<longrightarrow> key_of_req s i = k \<and> registered_phase (phase_of s i))
    \<and> opened s i \<le> 1 \<and> (registered_phase (phase_of s i) \<longrightarrow> opened s i = 1)
    \<and> (phase_of s i = Finished \<and> opened s i = 1 \<longrightarrow> closes s i \<ge> 1 \<and> cancelled s i)
    \<and> (phase_of s i = Failed \<longrightarrow> opened s i = 1 \<and> closes s i = 0)"
proof -
  have inv: "entry_ok s" "req_ok s i"
    using reachable_reg_inv [OF assms] by (auto simp: reg_inv_def)
  moreover have "opened s i \<le> 1 \<and> (registered_phase (phase_of s i) \<longrightarrow> opened s i = 1)"
    using inv(2) by (cases "phase_of s i") (auto simp: req_ok_def)
  moreover have "phase_of s i = Finished \<and> opened s i = 1 \<longrightarrow> closes s i \<ge> 1 \<and> cancelled s i"
      "phase_of s i = Failed \<longrightarrow> opened s i = 1 \<and> closes s i = 0"
    using inv(2) by (auto simp: req_ok_def)
  ultimately show ?thesis using entry_okD by blast
qed

theorem registry_safe_witness:
  "phase_of (first_gone ''k'') 0 = Finished \<and> closes (first_gone ''k'') 0 \<ge> 1
     \<and> cancelled (first_gone ''k'') 0"
proof -
  have "phase_of (first_gone ''k'') 0 = Finished \<and> opened (first_gone ''k'') 0 = 1"
    by (simp add: first_gone_def both_looked_up_eq register_req_def reg_defs start_registry_def)
  with registry_safe [OF first_gone_reachable, of "''k''" "''k''" 0] show ?thesis by blast
qed

text \<open>
  C22.  A request found in the registry by a later one for the same key is cancelled, and never
  polls under a live context again.
\<close>

theorem replaced_request_stops:
  assumes "entry s k = Some j" and "leads_to (look_up_key i k s) t"
  shows "\<not> live t j"
  using cancelled_stays [OF assms(2) look_up_cancels [OF assms(1)]] by (simp add: live_def)

theorem replaced_request_stops_witness:
  "\<not> live (look_up_key 2 ''k'' (register_req 0 (both_looked_up ''k''))) 0"
  by (rule replaced_request_stops [OF _ leads_to.stay])
    (simp add: both_looked_up_eq register_req_def at_def open_consumer_def Let_def)


text \<open>
  Requests share a registry key exactly when topic and group, joined by a dash, are the same
  text; for topics without a dash that means the same topic and the same group.
\<close>

lemma topic_group_separates:
  assumes "CHR ''-'' \<notin> set (cc_topic c1)" and "CHR ''-'' \<notin> set (cc_topic c2)"
  shows "topic_group c1 = topic_group c2 \<longleftrightarrow> cc_topic c1 = cc_topic c2 \<and> cc_groupId c1 = cc_groupId c2"
proof
  assume "topic_group c1 = topic_group c2"
  then have eq: "cc_topic c1 @ CHR ''-'' # cc_groupId c1 = cc_topic c2 @ CHR ''-'' # cc_groupId c2"
    by (simp add: topic_group_def)
  moreover have "cc_topic c1 = cc_topic c2"
    using arg_cong [OF eq, of "\<lambda>s. hd (split_on (CHR ''-'') s)"] assms by (simp add: split_on_append)
  ultimately show "cc_topic c1 = cc_topic c2 \<and> cc_groupId c1 = cc_groupId c2" by simp
qed (simp add: topic_group_def)

end
