(* ===== verification/Http.thy ===== *)
theory Http
  imports Prelude
begin

text \<open>
  Requests, replies and middleware as the handlers of \<^verbatim>\<open>internal/web\<close> use them.  A middleware maps
  the next handler to a handler; what it stores in the request context is passed on as a changed
  request.
\<close>

record claims =
  cl_scope :: string
  cl_gty :: string
  cl_adm :: bool
  cl_issuer :: string
  cl_subject :: string
  cl_audience :: string

record token =
  tk_claims :: claims
  tk_alg :: string
  tk_kid :: "string option"

record request =
  rq_method :: string
  rq_path :: string
  rq_uri :: string
  rq_authorization :: string
  rq_user_agent :: string
  rq_user :: "token option"

text \<open>
  A handler writes a response, returns an error echo turns into one, or panics; a panic may come
  after part of a response with status 200 has been sent.
\<close>

datatype reply =
    Reply nat string
  | ReplyError nat string
  | ReplyPanic "string option" panic

type_synonym handler = "request \<Rightarrow> reply"
type_synonym middleware = "handler \<Rightarrow> handler"

section \<open>Guards\<close>

text \<open>
  The contract of a middleware that decides: on an allowed request it is the next handler on a
  request it may have changed, on any other its answer does not depend on what comes next.
\<close>

locale guard =
  fixes mw :: middleware
    and allow :: "request \<Rightarrow> bool"
    and pass :: "request \<Rightarrow> request"
    and deny :: "request \<Rightarrow> reply"
  assumes mw_eq: "mw next_handler c = (if allow c then next_handler (pass c) else deny c)"
begin

lemma blocks: "\<not> allow c \<Longrightarrow> mw h1 c = mw h2 c"
  by (simp add: mw_eq)

lemma passes: "allow c \<Longrightarrow> mw h c = h (pass c)"
  by (simp add: mw_eq)

text \<open>If replacing the next handler changes the answer, the guard let the request through.\<close>

lemma reached: "mw h1 c \<noteq> mw h2 c \<Longrightarrow> allow c"
  using blocks by blast

lemma differs: "mw h1 c \<noteq> mw h2 c \<Longrightarrow> h1 (pass c) \<noteq> h2 (pass c)"
  by (cases "allow c") (simp_all add: mw_eq)

end

locale guard_pair = outer: guard mw1 allow1 pass1 deny1 + inner: guard mw2 allow2 pass2 deny2
  for mw1 allow1 pass1 deny1 mw2 allow2 pass2 deny2
begin

definition both_allow :: "request \<Rightarrow> bool" where
  "both_allow c \<longleftrightarrow> allow1 c \<and> allow2 (pass1 c)"

definition both_deny :: "request \<Rightarrow> reply" where
  "both_deny c = (if allow1 c then deny2 (pass1 c) else deny1 c)"

lemma pair_eq:
  "mw1 (mw2 h) c = (if both_allow c then h (pass2 (pass1 c)) else both_deny c)"
  by (simp add: outer.mw_eq inner.mw_eq both_allow_def both_deny_def)

lemma pair_reached: "mw1 (mw2 h1) c \<noteq> mw1 (mw2 h2) c \<Longrightarrow> allow1 c \<and> allow2 (pass1 c)"
  by (auto simp: pair_eq both_allow_def split: if_splits)

end

end
