(* ===== verification/Producer.thy ===== *)
theory Producer
  imports Entity Conf Http
begin

text \<open>
  \<^verbatim>\<open>internal/kafka/producer.go\<close> and the handler \<^verbatim>\<open>internal/web/producerhandler.go\<close> that feeds it.
  A writer of the third-party client is known by its topic; \<open>W\<close> says which messages of a batch a
  writer got through and with which error, \<open>U\<close> is the sequence of generated UUIDs and \<open>A\<close> the
  admin client's answer.
\<close>

record kmessage =
  km_key :: "string option"
  km_value :: string

record producers =
  pr_writers :: "(string, string) gomap"
  pr_written :: "(string \<times> kmessage list) list"
  pr_uuids :: nat

type_synonym writer = "string \<Rightarrow> kmessage list \<Rightarrow> kmessage list \<times> string option"

section \<open>Configuration\<close>

definition producer_exists :: "producer_config list \<Rightarrow> string \<Rightarrow> bool" where
  "producer_exists ps d \<longleftrightarrow> list_ex (\<lambda>c. pc_dataset c = d) ps"

definition config_for_dataset :: "producer_config list \<Rightarrow> string \<Rightarrow> producer_config option" where
  "config_for_dataset ps d = find (\<lambda>c. pc_dataset c = d) ps"

section \<open>Producing\<close>

definition determine_key ::
  "(nat \<Rightarrow> string) \<Rightarrow> entity \<Rightarrow> producer_config \<Rightarrow> nat \<Rightarrow> string option \<times> nat" where
  "determine_key U e c n =
     (case pc_key c of
        None \<Rightarrow> (None, n)
      | Some k \<Rightarrow>
          (if k = ''id'' then (Some (ent_id e), n)
           else if k = ''uuid'' then (Some (U n), Suc n)
           else (None, n)))"

definition entity_value :: "golib \<Rightarrow> producer_config \<Rightarrow> ctx \<Rightarrow> entity \<Rightarrow> string go" where
  "entity_value L c cx e =
     (if pc_stripProps c then strip_props L e
      else Inr (json_print (entity_json L (e\<lparr>ent_context := ctx_namespaces cx\<rparr>))))"

fun entity_messages ::
  "golib \<Rightarrow> (nat \<Rightarrow> string) \<Rightarrow> producer_config \<Rightarrow> ctx \<Rightarrow> entity list \<Rightarrow> nat \<Rightarrow> kmessage list go \<times> nat" where
  "entity_messages L U c cx [] n = (Inr [], n)"
| "entity_messages L U c cx (e # es) n =
     (case entity_value L c cx e of
        Inl err \<Rightarrow> (Inl err, n)
      | Inr v \<Rightarrow>
          (case determine_key U e c n of (k, n') \<Rightarrow>
            (case entity_messages L U c cx es n' of (r, n'') \<Rightarrow>
              (go_bind r (\<lambda>ms. Inr (\<lparr>km_key = k, km_value = v\<rparr> # ms)), n''))))"

text \<open>
  A nil configuration is dereferenced whether or not a writer is cached.  A writer is created once
  for a dataset and kept.
\<close>

definition produce_entities ::
  "golib \<Rightarrow> (nat \<Rightarrow> string) \<Rightarrow> writer \<Rightarrow> producer_config list \<Rightarrow> string \<Rightarrow> ctx \<Rightarrow> entity list
     \<Rightarrow> producers \<Rightarrow> producers \<times> unit go" where
  "produce_entities L U W ps d cx es st =
     (case config_for_dataset ps d of
        None \<Rightarrow> (st, Inl (Panic NilDereference))
      | Some c \<Rightarrow>
          (let topic = (case gm_get (pr_writers st) d of None \<Rightarrow> pc_topic c | Some t \<Rightarrow> t);
               st1 = (case gm_get (pr_writers st) d of
                        None \<Rightarrow> st\<lparr>pr_writers := gm_put d topic (pr_writers st)\<rparr>
                      | Some _ \<Rightarrow> st) in
           case entity_messages L U c cx es (pr_uuids st1) of
             (Inl err, n) \<Rightarrow> (st1\<lparr>pr_uuids := n\<rparr>, Inl err)
           | (Inr ms, n) \<Rightarrow>
               (case W topic ms of (sent, err) \<Rightarrow>
                 (st1\<lparr>pr_uuids := n, pr_written := pr_written st1 @ [(topic, sent)]\<rparr>,
                  (case err of None \<Rightarrow> Inr () | Some e \<Rightarrow> Inl (Err e))))))"

section \<open>Creating topics\<close>

record topic_spec =
  tp_topic :: string
  tp_partitions :: int
  tp_replicas :: int
  tp_config :: "(string, string) gomap"

definition topic_spec_for :: "producer_config \<Rightarrow> topic_spec go" where
  "topic_spec_for c =
     (case pc_topicSettings c of
        None \<Rightarrow> Inl (Panic NilDereference)
      | Some ts \<Rightarrow>
          (let given = (case ts_config ts of None \<Rightarrow> [] | Some m \<Rightarrow> gm.put_all m []);
               cfg = (if gm_get given ''retention.ms'' = None
                      then gm_put ''retention.ms'' ''-1'' given else given) in
           Inr \<lparr>tp_topic = pc_topic c, tp_partitions = ts_partitions ts,
                tp_replicas = ts_replicas ts, tp_config = cfg\<rparr>))"

text \<open>The specifications sent to the admin client, if any, and the result.\<close>

definition init_topics ::
  "(topic_spec list \<Rightarrow> string option) \<Rightarrow> producer_config list \<Rightarrow> topic_spec list option \<times> unit go" where
  "init_topics A ps =
     (case go_map topic_spec_for (filter pc_createTopic ps) of
        Inl e \<Rightarrow> (None, Inl e)
      | Inr specs \<Rightarrow>
          (if specs = [] then (None, Inr ())
           else (Some specs, (case A specs of None \<Rightarrow> Inr () | Some err \<Rightarrow> Inl (Err err)))))"

section \<open>The handler\<close>

record upload =
  up_first :: bool
  up_ctx :: ctx
  up_entities :: "entity list"
  up_read :: nat
  up_producers :: producers

definition batch_size :: nat where
  "batch_size = 10000"

definition upload_start :: "producers \<Rightarrow> upload" where
  "upload_start st = \<lparr>up_first = True, up_ctx = empty_ctx, up_entities = [], up_read = 0,
     up_producers = st\<rparr>"

text \<open>The callback given to \<^verbatim>\<open>ParseStream\<close>; \<open>P\<close> is \<^verbatim>\<open>ProduceEntities\<close> for the dataset.\<close>

definition on_value ::
  "nat \<Rightarrow> (ctx \<Rightarrow> entity list \<Rightarrow> producers \<Rightarrow> producers \<times> unit go) \<Rightarrow> gval \<Rightarrow> upload \<Rightarrow> upload \<times> unit go" where
  "on_value bsz P v u =
     (if up_first u then
        (case as_context v of
           Inl e \<Rightarrow> (u, Inl e)
         | Inr cx \<Rightarrow> (u\<lparr>up_ctx := cx, up_first := False\<rparr>, Inr ()))
      else
        (case as_entity v of
           Inl e \<Rightarrow> (u, Inl e)
         | Inr ent \<Rightarrow>
             (let u1 = u\<lparr>up_entities := up_entities u @ [ent], up_read := up_read u + 1\<rparr> in
              if up_read u1 = bsz then
                (case P (up_ctx u1) (up_entities u1) (up_producers u1) of
                   (st, Inl e) \<Rightarrow> (u1\<lparr>up_read := 0, up_producers := st\<rparr>, Inl e)
                 | (st, Inr _) \<Rightarrow> (u1\<lparr>up_read := 0, up_entities := [], up_producers := st\<rparr>, Inr ()))
              else (u1, Inr ()))))"

fun reply_of_failure :: "failure \<Rightarrow> reply" where
  "reply_of_failure (Panic p) = ReplyPanic None p"
| "reply_of_failure (Err _) = ReplyError 400 ''could not parse the json payload''"

definition produce ::
  "nat \<Rightarrow> (ctx \<Rightarrow> entity list \<Rightarrow> producers \<Rightarrow> producers \<times> unit go) \<Rightarrow> stream \<Rightarrow> producers \<Rightarrow> producers \<times> reply" where
  "produce bsz P body st =
     (case parse_stream body (on_value bsz P) (upload_start st) of
        (u, Inl e) \<Rightarrow> (up_producers u, reply_of_failure e)
      | (u, Inr _) \<Rightarrow>
          (if up_read u > 0 then
             (case P (up_ctx u) (up_entities u) (up_producers u) of
                (st', Inl e) \<Rightarrow> (st', reply_of_failure e)
              | (st', Inr _) \<Rightarrow> (st', Reply 200 []))
           else (up_producers u, Reply 200 [])))"

section \<open>Batches\<close>

text \<open>
  The specification of the handler: the entities in chunks of the batch size, each given to the
  producer in turn until one fails.
\<close>

function chunks :: "nat \<Rightarrow> 'a list \<Rightarrow> 'a list list" where
  "chunks n xs = (if xs = [] \<or> n = 0 then [] else take n xs # chunks n (drop n xs))"
  by pat_completeness auto
termination
  by (relation "measure (\<lambda>(n, xs). length xs)") auto

declare chunks.simps [simp del]

definition produce_batches ::
  "(ctx \<Rightarrow> entity list \<Rightarrow> producers \<Rightarrow> producers \<times> unit go) \<Rightarrow> ctx \<Rightarrow> entity list list \<Rightarrow> producers
     \<Rightarrow> producers \<times> unit go" where
  "produce_batches P cx bs st = st_fold (P cx) bs st"

lemma concat_chunks: "0 < n \<Longrightarrow> concat (chunks n xs) = xs"
  by (induction n xs rule: chunks.induct) (subst chunks.simps, simp)

lemma chunks_Nil [simp]: "chunks n [] = []"
  by (simp add: chunks.simps)

lemma chunks_short: "xs \<noteq> [] \<Longrightarrow> length xs \<le> n \<Longrightarrow> chunks n xs = [xs]"
  by (cases xs; subst chunks.simps) auto

lemma chunks_full: "xs = ys @ zs \<Longrightarrow> length ys = n \<Longrightarrow> 0 < n \<Longrightarrow> chunks n xs = ys # chunks n zs"
  by (subst chunks.simps) auto

lemma chunks_lengths: "0 < n \<Longrightarrow> b \<in> set (chunks n xs) \<Longrightarrow> b \<noteq> [] \<and> length b \<le> n"
proof (induction n xs rule: chunks.induct)
  case (1 n xs)
  then show ?case
    by (subst (asm) (2) chunks.simps) (auto split: if_splits)
qed

text \<open>The callback from a batch in progress on, followed by the flush after the loop.\<close>

definition flush ::
  "(ctx \<Rightarrow> entity list \<Rightarrow> producers \<Rightarrow> producers \<times> unit go) \<Rightarrow> upload \<times> unit go \<Rightarrow> producers \<times> unit go" where
  "flush P ur =
     (case ur of
        (u, Inl e) \<Rightarrow> (up_producers u, Inl e)
      | (u, Inr _) \<Rightarrow>
          (if up_read u > 0 then P (up_ctx u) (up_entities u) (up_producers u)
           else (up_producers u, Inr ())))"

lemma upload_batches:
  assumes "list_all2 (\<lambda>v e. as_entity v = Inr e) vs es" and "0 < n"
    and "\<not> up_first u" and "up_read u = length (up_entities u)" and "length (up_entities u) < n"
  shows "flush P (st_fold (on_value n P) vs u)
    = produce_batches P (up_ctx u) (chunks n (up_entities u @ es)) (up_producers u)"
  using assms
proof (induction vs es arbitrary: u rule: list_all2_induct)
  case Nil
  then show ?case
    by (cases "up_entities u = []")
      (auto simp: flush_def produce_batches_def chunks_short split: prod.split sum.split)
next
  case (Cons v vs e es)
  let ?b = "up_entities u @ [e]"
  show ?case
  proof (cases "length ?b = n")
    case True
    have ch: "chunks n (up_entities u @ e # es) = ?b # chunks n es"
      using True Cons.prems by (intro chunks_full) auto
    show ?thesis
    proof (cases "P (up_ctx u) ?b (up_producers u)")
      case (Pair st r)
      show ?thesis
      proof (cases r)
        case (Inl err)
        with Pair True Cons show ?thesis
          by (simp add: on_value_def ch produce_batches_def flush_def)
      next
        case (Inr x)
        let ?u = "u\<lparr>up_entities := [], up_read := 0, up_producers := st\<rparr>"
        have "on_value n P v u = (?u, Inr ())"
          using Inr Pair True Cons by (simp add: on_value_def)
        with Cons.IH [of ?u] Cons.prems Inr Pair ch show ?thesis
          by (simp add: produce_batches_def)
      qed
    qed
  next
    case False
    let ?u = "u\<lparr>up_entities := ?b, up_read := length ?b\<rparr>"
    have "on_value n P v u = (?u, Inr ())"
      using False Cons by (simp add: on_value_def)
    with Cons.IH [of ?u] Cons.prems False show ?thesis
      by simp
  qed
qed

definition reply_of :: "producers \<times> unit go \<Rightarrow> producers \<times> reply" where
  "reply_of sr = (fst sr, (case snd sr of Inl e \<Rightarrow> reply_of_failure e | Inr _ \<Rightarrow> Reply 200 []))"

lemma produce_flush:
  "produce n P body st = reply_of (flush P (st_fold (on_value n P) (st_values body) (upload_start st)))"
  by (auto simp: produce_def reply_of_def flush_def parse_stream_def split: prod.split sum.split)

lemma produce_spec:
  assumes "st_values body = v # vs" and "as_context v = Inr cx"
    and "list_all2 (\<lambda>v e. as_entity v = Inr e) vs es" and "0 < n"
  shows "produce n P body st = reply_of (produce_batches P cx (chunks n es) st)"
  using upload_batches [OF assms(3,4), of "(upload_start st)\<lparr>up_ctx := cx, up_first := False\<rparr>" P] assms
  by (simp add: produce_flush on_value_def upload_start_def)

section \<open>What reaches the topic\<close>

text \<open>The message that stands for an entity, under the key the configuration asks for.\<close>

definition key_for :: "(nat \<Rightarrow> string) \<Rightarrow> producer_config \<Rightarrow> entity \<Rightarrow> string option \<Rightarrow> bool" where
  "key_for U c e k \<longleftrightarrow>
     (if pc_key c = Some ''id'' then k = Some (ent_id e)
      else if pc_key c = Some ''uuid'' then k \<in> Some ` range U
      else k = None)"

definition message_for ::
  "golib \<Rightarrow> (nat \<Rightarrow> string) \<Rightarrow> producer_config \<Rightarrow> ctx \<Rightarrow> entity \<Rightarrow> kmessage \<Rightarrow> bool" where
  "message_for L U c cx e m \<longleftrightarrow>
     entity_value L c cx e = Inr (km_value m) \<and> key_for U c e (km_key m)"

lemma determine_key_for: "key_for U c e (fst (determine_key U e c n))"
  by (auto simp: determine_key_def key_for_def split: option.split)

lemma entity_messages_ok:
  "\<forall>e \<in> set es. isl (entity_value L c cx e) = False \<Longrightarrow>
     \<exists>ms n'. entity_messages L U c cx es n = (Inr ms, n') \<and> list_all2 (message_for L U c cx) es ms"
proof (induction es arbitrary: n)
  case Nil
  then show ?case by simp
next
  case (Cons e es)
  obtain v where v: "entity_value L c cx e = Inr v"
    using Cons.prems by (cases "entity_value L c cx e") auto
  obtain k n1 where k: "determine_key U e c n = (k, n1)" by fastforce
  obtain ms n' where ms: "entity_messages L U c cx es n1 = (Inr ms, n')"
      "list_all2 (message_for L U c cx) es ms"
    using Cons.IH [of n1] Cons.prems by auto
  have "message_for L U c cx e \<lparr>km_key = k, km_value = v\<rparr>"
    using v determine_key_for [of U c e n] k by (simp add: message_for_def)
  with v k ms show ?case by simp
qed

definition writer_fine :: "writer \<Rightarrow> bool" where
  "writer_fine W \<longleftrightarrow> (\<forall>t ms. W t ms = (ms, None))"

definition topic_used :: "producer_config \<Rightarrow> string \<Rightarrow> producers \<Rightarrow> string" where
  "topic_used c d st = (case gm_get (pr_writers st) d of None \<Rightarrow> pc_topic c | Some t \<Rightarrow> t)"

lemma produce_entities_ok:
  assumes "config_for_dataset ps d = Some c" and "writer_fine W"
    and "\<forall>e \<in> set es. isl (entity_value L c cx e) = False"
  shows "\<exists>st' ms. produce_entities L U W ps d cx es st = (st', Inr ())
    \<and> list_all2 (message_for L U c cx) es ms
    \<and> pr_written st' = pr_written st @ [(topic_used c d st, ms)]
    \<and> topic_used c d st' = topic_used c d st"
proof -
  obtain ms n' where "entity_messages L U c cx es (pr_uuids st) = (Inr ms, n')"
      "list_all2 (message_for L U c cx) es ms"
    using entity_messages_ok [OF assms(3)] by blast
  then show ?thesis
    using assms(1,2)
    by (auto simp: produce_entities_def topic_used_def map_rules Let_def writer_fine_def split: option.splits)
qed

lemma produce_batches_ok:
  assumes "config_for_dataset ps d = Some c" and "writer_fine W"
  shows "\<forall>b \<in> set bs. \<forall>e \<in> set b. isl (entity_value L c cx e) = False \<Longrightarrow>
    \<exists>st' ws. produce_batches (produce_entities L U W ps d) cx bs st = (st', Inr ())
      \<and> pr_written st' = pr_written st @ ws \<and> topic_used c d st' = topic_used c d st
      \<and> list_all2 (\<lambda>b w. fst w = topic_used c d st \<and> list_all2 (message_for L U c cx) b (snd w)) bs ws"
proof (induction bs arbitrary: st)
  case Nil
  then show ?case by (simp add: produce_batches_def)
next
  case (Cons b bs)
  obtain st1 ms where first: "produce_entities L U W ps d cx b st = (st1, Inr ())"
      "list_all2 (message_for L U c cx) b ms"
      "pr_written st1 = pr_written st @ [(topic_used c d st, ms)]"
      "topic_used c d st1 = topic_used c d st"
    using produce_entities_ok [OF assms, where es = b and L = L and cx = cx and U = U and st = st] Cons.prems
    by auto
  obtain st' ws where rest: "produce_batches (produce_entities L U W ps d) cx bs st1 = (st', Inr ())"
      "pr_written st' = pr_written st1 @ ws" "topic_used c d st' = topic_used c d st1"
      "list_all2 (\<lambda>b w. fst w = topic_used c d st1 \<and> list_all2 (message_for L U c cx) b (snd w)) bs ws"
    using Cons.IH [of st1] Cons.prems by auto
  have "produce_batches (produce_entities L U W ps d) cx (b # bs) st = (st', Inr ())"
    using first(1) rest(1) by (simp add: produce_batches_def)
  with first rest show ?case
    by (intro exI [of _ st'] exI [of _ "(topic_used c d st, ms) # ws"]) simp
qed

lemma concat_messages:
  "list_all2 (\<lambda>b w. P w \<and> list_all2 R b (snd w)) bs ws \<Longrightarrow> list_all2 R (concat bs) (concat (map snd ws))"
  by (induction rule: list_all2_induct) (auto intro: list_all2_appendI)

lemma produce_ok:
  assumes body: "st_values body = v # vs" "as_context v = Inr cx"
      "list_all2 (\<lambda>v e. as_entity v = Inr e) vs es"
    and conf: "config_for_dataset ps d = Some c" and W: "writer_fine W"
    and val: "\<forall>e \<in> set es. isl (entity_value L c cx e) = False" and n: "0 < n"
  shows "\<exists>st' ws. produce n (produce_entities L U W ps d) body st = (st', Reply 200 [])
    \<and> pr_written st' = pr_written st @ ws
    \<and> list_all2 (message_for L U c cx) es (concat (map snd ws))
    \<and> (\<forall>w \<in> set ws. fst w = topic_used c d st \<and> length (snd w) \<le> n)"
proof -
  have in_es: "\<forall>b \<in> set (chunks n es). \<forall>e \<in> set b. isl (entity_value L c cx e) = False"
    using val concat_chunks [OF n, of es] by (metis (no_types, lifting) UN_I set_concat)
  obtain st' ws where run: "produce_batches (produce_entities L U W ps d) cx (chunks n es) st = (st', Inr ())"
      "pr_written st' = pr_written st @ ws"
      and each: "list_all2 (\<lambda>b w. fst w = topic_used c d st \<and> list_all2 (message_for L U c cx) b (snd w))
        (chunks n es) ws"
    using produce_batches_ok [OF conf W in_es, where U = U and st = st] by blast
  have "list_all2 (message_for L U c cx) es (concat (map snd ws))"
    using concat_messages [OF each] by (simp add: concat_chunks n)
  moreover have "fst w = topic_used c d st \<and> length (snd w) \<le> n" if "w \<in> set ws" for w
  proof -
    obtain i where i: "i < length ws" "ws ! i = w"
      using \<open>w \<in> set ws\<close> by (auto simp: in_set_conv_nth)
    then have "chunks n es ! i \<in> set (chunks n es)"
      using list_all2_lengthD [OF each] by simp
    then show ?thesis
      using list_all2_nthD2 [OF each i(1)] i chunks_lengths [OF n, of "chunks n es ! i" es]
        list_all2_lengthD [of "message_for L U c cx" "chunks n es ! i" "snd w"] by auto
  qed
  ultimately show ?thesis
    using produce_spec [OF body n, of "produce_entities L U W ps d" st] run
    by (auto simp: reply_of_def)
qed

text \<open>No configuration for the dataset.\<close>

lemma produce_unknown:
  assumes "config_for_dataset ps d = None" and "st_values body = v # vs" and "as_context v = Inr cx"
    and "list_all2 (\<lambda>v e. as_entity v = Inr e) vs es" and "es \<noteq> []" and "0 < n"
  shows "produce n (produce_entities L U W ps d) body st = (st, ReplyPanic None NilDereference)"
proof -
  have "chunks n es = take n es # chunks n (drop n es)"
    using assms(5,6) by (subst chunks.simps) simp
  then show ?thesis
    using produce_spec [OF assms(2,3,4,6), of "produce_entities L U W ps d" st] assms(1)
    by (simp add: produce_batches_def produce_entities_def reply_of_def)
qed

section \<open>Writers are kept\<close>

lemma written_topic:
  assumes "produce_entities L U W ps d cx es st = (st', r)" and "gm_get (pr_writers st) d = Some t"
  shows "pr_written st' = pr_written st \<or> fst (last (pr_written st')) = t"
  using assms by (auto simp: produce_entities_def Let_def split: option.splits prod.splits sum.splits)

text \<open>A cached writer is never replaced.\<close>

lemma writer_stays:
  "gm_get (pr_writers st) d = Some t \<Longrightarrow> gm_get (pr_writers (fst (produce_entities L U W ps d' cx es st))) d = Some t"
  by (auto simp: produce_entities_def map_rules Let_def split: option.split prod.split sum.split)

lemma writer_made:
  "gm_get (pr_writers st) d = None \<Longrightarrow> config_for_dataset ps d = Some c \<Longrightarrow>
     gm_get (pr_writers (fst (produce_entities L U W ps d cx es st))) d = Some (pc_topic c)"
  by (auto simp: produce_entities_def map_rules Let_def split: prod.split sum.split)

text \<open>A sequence of uploads, each under the configuration of its time.\<close>

definition produce_all ::
  "golib \<Rightarrow> (nat \<Rightarrow> string) \<Rightarrow> writer \<Rightarrow> (producer_config list \<times> string \<times> ctx \<times> entity list) list
     \<Rightarrow> producers \<Rightarrow> producers" where
  "produce_all L U W calls st = fold (\<lambda>(ps, d, cx, es) st. fst (produce_entities L U W ps d cx es st)) calls st"

lemma writer_stays_all:
  "gm_get (pr_writers st) d = Some t \<Longrightarrow> gm_get (pr_writers (produce_all L U W calls st)) d = Some t"
  by (induction calls arbitrary: st) (auto simp: produce_all_def writer_stays)

end
