(* ===== verification/ConfigJson.thy ===== *)
theory ConfigJson
  imports Conf GoValue
begin

text \<open>
  \<^verbatim>\<open>json.Unmarshal\<close> into the structs of \<^verbatim>\<open>internal/conf/configuration.go\<close>, by their tags.  A decoder
  takes the JSON value and the value being overwritten.  A value of the wrong type leaves an error
  behind and the caller then drops what was decoded, so it is \<open>None\<close> here.
\<close>

type_synonym 'a decoder_of = "json \<Rightarrow> 'a \<Rightarrow> 'a option"

section \<open>Decoding values\<close>

text \<open>\<^verbatim>\<open>null\<close> leaves a string, a number, a bool or a struct as it is.\<close>

fun dec_string :: "string decoder_of" where
  "dec_string JNull old = Some old"
| "dec_string (JStr s) old = Some s"
| "dec_string _ old = None"

fun dec_bool :: "bool decoder_of" where
  "dec_bool JNull old = Some old"
| "dec_bool (JBool b) old = Some b"
| "dec_bool _ old = None"

fun dec_number :: "int decoder_of" where
  "dec_number JNull old = Some old"
| "dec_number (JNum l) old = (case parse_int64 l of (i, ok) \<Rightarrow> if ok then Some i else None)"
| "dec_number _ old = None"

text \<open>\<^verbatim>\<open>null\<close> makes a pointer nil; anything else goes to what it points at, made when it is nil.\<close>

definition dec_pointer :: "'a \<Rightarrow> 'a decoder_of \<Rightarrow> 'a option decoder_of" where
  "dec_pointer zero d j old =
     (case j of
        JNull \<Rightarrow> Some None
      | _ \<Rightarrow> map_option Some (d j (case old of None \<Rightarrow> zero | Some x \<Rightarrow> x)))"

text \<open>The elements of a slice that is already there are decoded into, further ones are new.\<close>

fun dec_items :: "'a \<Rightarrow> 'a decoder_of \<Rightarrow> json list \<Rightarrow> 'a list \<Rightarrow> 'a list option" where
  "dec_items zero d [] old = Some []"
| "dec_items zero d (j # js) old =
     Option.bind (d j (case old of [] \<Rightarrow> zero | x # _ \<Rightarrow> x)) (\<lambda>y.
       map_option (Cons y) (dec_items zero d js (tl old)))"

fun dec_slice :: "'a \<Rightarrow> 'a decoder_of \<Rightarrow> 'a list decoder_of" where
  "dec_slice zero d JNull old = Some []"
| "dec_slice zero d (JArr js) old = dec_items zero d js old"
| "dec_slice zero d _ old = None"

fun opt_fold :: "('a \<Rightarrow> 's \<Rightarrow> 's option) \<Rightarrow> 'a list \<Rightarrow> 's \<Rightarrow> 's option" where
  "opt_fold f [] s = Some s"
| "opt_fold f (x # xs) s = Option.bind (f x s) (opt_fold f xs)"

fun dec_string_map :: "(string, string) gomap decoder_of" where
  "dec_string_map JNull old = Some []"
| "dec_string_map (JObj kvs) old =
     opt_fold (\<lambda>(k, v) m. map_option (\<lambda>s. gm_put k s m) (dec_string v [])) kvs old"
| "dec_string_map _ old = None"

text \<open>
  A struct: a member is given to the field with its name, failing that to the first whose name
  differs only in case, and ignored when there is none.
\<close>

definition find_field :: "string \<Rightarrow> (string \<times> 'f) list \<Rightarrow> 'f option" where
  "find_field name fs =
     (case map_of fs name of
        Some f \<Rightarrow> Some f
      | None \<Rightarrow> map_option snd (find (\<lambda>f. to_lower (fst f) = to_lower name) fs))"

fun dec_struct :: "(string \<times> 'a decoder_of) list \<Rightarrow> 'a decoder_of" where
  "dec_struct fs JNull old = Some old"
| "dec_struct fs (JObj kvs) old =
     opt_fold (\<lambda>(k, v) r. case find_field k fs of None \<Rightarrow> Some r | Some d \<Rightarrow> d v r) kvs old"
| "dec_struct fs _ old = None"

definition field ::
  "string \<Rightarrow> ('r \<Rightarrow> 'a) \<Rightarrow> (('a \<Rightarrow> 'a) \<Rightarrow> 'r \<Rightarrow> 'r) \<Rightarrow> 'a decoder_of \<Rightarrow> string \<times> 'r decoder_of" where
  "field name get upd d = (name, \<lambda>j r. map_option (\<lambda>x. upd (\<lambda>_. x) r) (d j (get r)))"

section \<open>The configuration structs\<close>

definition zero_topic_settings :: topic_settings where
  "zero_topic_settings = \<lparr>ts_partitions = 0, ts_replicas = 0, ts_config = None\<rparr>"

definition dec_topic_settings :: "topic_settings decoder_of" where
  "dec_topic_settings = dec_struct
     [field ''partitions'' ts_partitions ts_partitions_update dec_number,
      field ''replicas'' ts_replicas ts_replicas_update dec_number,
      field ''config'' ts_config ts_config_update (dec_pointer [] dec_string_map)]"

definition zero_producer_config :: producer_config where
  "zero_producer_config = \<lparr>pc_dataset = [], pc_topic = [], pc_createTopic = False,
     pc_topicSettings = None, pc_stripProps = False, pc_key = None\<rparr>"

definition dec_producer_config :: "producer_config decoder_of" where
  "dec_producer_config = dec_struct
     [field ''dataset'' pc_dataset pc_dataset_update dec_string,
      field ''topic'' pc_topic pc_topic_update dec_string,
      field ''createTopic'' pc_createTopic pc_createTopic_update dec_bool,
      field ''topicSettings'' pc_topicSettings pc_topicSettings_update
        (dec_pointer zero_topic_settings dec_topic_settings),
      field ''stripProps'' pc_stripProps pc_stripProps_update dec_bool,
      field ''key'' pc_key pc_key_update (dec_pointer [] dec_string)]"

definition dec_schema_registry :: "schema_registry decoder_of" where
  "dec_schema_registry = dec_struct [field ''location'' sr_location sr_location_update dec_string]"

definition dec_protobuf_schema :: "protobuf_schema decoder_of" where
  "dec_protobuf_schema = dec_struct
     [field ''path'' ps_path ps_path_update dec_string,
      field ''fileName'' ps_fileName ps_fileName_update dec_string,
      field ''type'' ps_type ps_type_update dec_string]"

definition zero_field_mapping :: field_mapping where
  "zero_field_mapping = \<lparr>fm_path = [], fm_fieldName = [], fm_propertyName = [], fm_isIdField = False,
     fm_isDeletedField = False, fm_isReference = False, fm_referenceTemplate = [],
     fm_ignoreField = False\<rparr>"

definition dec_field_mapping :: "field_mapping decoder_of" where
  "dec_field_mapping = dec_struct
     [field ''path'' fm_path fm_path_update dec_string,
      field ''fieldName'' fm_fieldName fm_fieldName_update dec_string,
      field ''propertyName'' fm_propertyName fm_propertyName_update dec_string,
      field ''isIdField'' fm_isIdField fm_isIdField_update dec_bool,
      field ''isDeletedField'' fm_isDeletedField fm_isDeletedField_update dec_bool,
      field ''isReference'' fm_isReference fm_isReference_update dec_bool,
      field ''referenceTemplate'' fm_referenceTemplate fm_referenceTemplate_update dec_string,
      field ''ignoreField'' fm_ignoreField fm_ignoreField_update dec_bool]"

definition zero_consumer_config :: consumer_config where
  "zero_consumer_config = \<lparr>cc_dataset = [], cc_topic = [], cc_groupId = [], cc_valueDecoder = None,
     cc_position = [], cc_nameSpace = [], cc_baseNameSpace = [], cc_includeHeaders = False,
     cc_entityIdConstructor = [], cc_types = [], cc_fieldMappings = [], cc_schemaRegistry = None,
     cc_protobufSchema = None\<rparr>"

definition dec_consumer_config :: "consumer_config decoder_of" where
  "dec_consumer_config = dec_struct
     [field ''dataset'' cc_dataset cc_dataset_update dec_string,
      field ''topic'' cc_topic cc_topic_update dec_string,
      field ''groupId'' cc_groupId cc_groupId_update dec_string,
      field ''valueDecoder'' cc_valueDecoder cc_valueDecoder_update (dec_pointer [] dec_string),
      field ''position'' cc_position cc_position_update dec_string,
      field ''nameSpace'' cc_nameSpace cc_nameSpace_update dec_string,
      field ''baseNameSpace'' cc_baseNameSpace cc_baseNameSpace_update dec_string,
      field ''includeHeaders'' cc_includeHeaders cc_includeHeaders_update dec_bool,
      field ''entityIdConstructor'' cc_entityIdConstructor cc_entityIdConstructor_update dec_string,
      field ''types'' cc_types cc_types_update (dec_slice [] dec_string),
      field ''fieldMappings'' cc_fieldMappings cc_fieldMappings_update
        (dec_slice None (dec_pointer zero_field_mapping dec_field_mapping)),
      field ''schemaRegistry'' cc_schemaRegistry cc_schemaRegistry_update
        (dec_pointer \<lparr>sr_location = []\<rparr> dec_schema_registry),
      field ''protobufSchema'' cc_protobufSchema cc_protobufSchema_update
        (dec_pointer \<lparr>ps_path = [], ps_fileName = [], ps_type = []\<rparr> dec_protobuf_schema)]"

definition zero_config :: kafka_config where
  "zero_config = \<lparr>kc_id = [], kc_producers = [], kc_consumers = []\<rparr>"

definition dec_kafka_config :: "kafka_config decoder_of" where
  "dec_kafka_config = dec_struct
     [field ''id'' kc_id kc_id_update dec_string,
      field ''producers'' kc_producers kc_producers_update
        (dec_slice zero_producer_config dec_producer_config),
      field ''consumers'' kc_consumers kc_consumers_update
        (dec_slice zero_consumer_config dec_consumer_config)]"

text \<open>\<^verbatim>\<open>ConfigurationManager.parse\<close>.\<close>

definition parse_config :: "string \<Rightarrow> kafka_config option" where
  "parse_config s = Option.bind (json_parse s) (\<lambda>j. dec_kafka_config j zero_config)"

section \<open>Unpacking a configuration served by a data hub\<close>

text \<open>Numbers outside the range of \<^verbatim>\<open>float64\<close> are errors when decoded into an \<^verbatim>\<open>interface{}\<close>.\<close>

fun nums_ok :: "golib \<Rightarrow> json \<Rightarrow> bool" where
  "nums_ok L (JNum l) \<longleftrightarrow> parse_float L l \<noteq> None"
| "nums_ok L (JArr xs) \<longleftrightarrow> list_all (nums_ok L) xs"
| "nums_ok L (JObj kvs) \<longleftrightarrow> list_all (\<lambda>kv. nums_ok L (snd kv)) kvs"
| "nums_ok L _ \<longleftrightarrow> True"

record hub_content =
  hc_id :: string
  hc_data :: "(string, gval) gomap option"

definition dec_data :: "golib \<Rightarrow> (string, gval) gomap option decoder_of" where
  "dec_data L j old =
     (case j of
        JNull \<Rightarrow> Some None
      | JObj kvs \<Rightarrow>
          (if nums_ok L j
           then Some (Some (gm.put_all (map (\<lambda>kv. (fst kv, to_gval L (snd kv))) kvs)
                             (case old of None \<Rightarrow> [] | Some m \<Rightarrow> m)))
           else None)
      | _ \<Rightarrow> None)"

definition dec_hub_content :: "golib \<Rightarrow> hub_content decoder_of" where
  "dec_hub_content L = dec_struct
     [field ''id'' hc_id hc_id_update dec_string,
      field ''data'' hc_data hc_data_update (dec_data L)]"

definition unpack_content :: "golib \<Rightarrow> string \<Rightarrow> string option" where
  "unpack_content L s =
     Option.bind (json_parse s) (\<lambda>j.
       map_option (\<lambda>c. marshal L (case hc_data c of None \<Rightarrow> GNil | Some m \<Rightarrow> GMap m))
         (dec_hub_content L j \<lparr>hc_id = [], hc_data = None\<rparr>))"

section \<open>Every tag is read\<close>

text \<open>
  A configuration as one writes it, each field under its tag; decoding gives it back.  The depth
  bounds add up to what the parser accepts.
\<close>

definition json_opt :: "('a \<Rightarrow> json) \<Rightarrow> 'a option \<Rightarrow> json" where
  "json_opt e x = (case x of None \<Rightarrow> JNull | Some y \<Rightarrow> e y)"

definition json_string_map :: "(string, string) gomap \<Rightarrow> json" where
  "json_string_map m = JObj (map (\<lambda>kv. (fst kv, JStr (snd kv))) m)"

definition topic_settings_json :: "topic_settings \<Rightarrow> json" where
  "topic_settings_json t = JObj
     [(''partitions'', JNum (dec_int (ts_partitions t))),
      (''replicas'', JNum (dec_int (ts_replicas t))),
      (''config'', json_opt json_string_map (ts_config t))]"

definition producer_config_json :: "producer_config \<Rightarrow> json" where
  "producer_config_json p = JObj
     [(''dataset'', JStr (pc_dataset p)), (''topic'', JStr (pc_topic p)),
      (''createTopic'', JBool (pc_createTopic p)),
      (''topicSettings'', json_opt topic_settings_json (pc_topicSettings p)),
      (''stripProps'', JBool (pc_stripProps p)), (''key'', json_opt JStr (pc_key p))]"

definition schema_registry_json :: "schema_registry \<Rightarrow> json" where
  "schema_registry_json r = JObj [(''location'', JStr (sr_location r))]"

definition protobuf_schema_json :: "protobuf_schema \<Rightarrow> json" where
  "protobuf_schema_json p = JObj
     [(''path'', JStr (ps_path p)), (''fileName'', JStr (ps_fileName p)), (''type'', JStr (ps_type p))]"

definition field_mapping_json :: "field_mapping \<Rightarrow> json" where
  "field_mapping_json m = JObj
     [(''path'', JStr (fm_path m)), (''fieldName'', JStr (fm_fieldName m)),
      (''propertyName'', JStr (fm_propertyName m)), (''isIdField'', JBool (fm_isIdField m)),
      (''isDeletedField'', JBool (fm_isDeletedField m)), (''isReference'', JBool (fm_isReference m)),
      (''referenceTemplate'', JStr (fm_referenceTemplate m)), (''ignoreField'', JBool (fm_ignoreField m))]"

definition consumer_config_json :: "consumer_config \<Rightarrow> json" where
  "consumer_config_json c = JObj
     [(''dataset'', JStr (cc_dataset c)), (''topic'', JStr (cc_topic c)),
      (''groupId'', JStr (cc_groupId c)), (''valueDecoder'', json_opt JStr (cc_valueDecoder c)),
      (''position'', JStr (cc_position c)), (''nameSpace'', JStr (cc_nameSpace c)),
      (''baseNameSpace'', JStr (cc_baseNameSpace c)), (''includeHeaders'', JBool (cc_includeHeaders c)),
      (''entityIdConstructor'', JStr (cc_entityIdConstructor c)),
      (''types'', JArr (map JStr (cc_types c))),
      (''fieldMappings'', JArr (map (json_opt field_mapping_json) (cc_fieldMappings c))),
      (''schemaRegistry'', json_opt schema_registry_json (cc_schemaRegistry c)),
      (''protobufSchema'', json_opt protobuf_schema_json (cc_protobufSchema c))]"

definition config_json :: "kafka_config \<Rightarrow> json" where
  "config_json k = JObj
     [(''id'', JStr (kc_id k)), (''producers'', JArr (map producer_config_json (kc_producers k))),
      (''consumers'', JArr (map consumer_config_json (kc_consumers k)))]"

text \<open>The integers fit in 64 bits and no topic option is given twice.\<close>

definition int64_ok :: "int \<Rightarrow> bool" where
  "int64_ok i \<longleftrightarrow> - (2 ^ 63) \<le> i \<and> i < 2 ^ 63"

definition topic_settings_ok :: "topic_settings \<Rightarrow> bool" where
  "topic_settings_ok t \<longleftrightarrow> int64_ok (ts_partitions t) \<and> int64_ok (ts_replicas t)
     \<and> pred_option gm_ok (ts_config t)"

definition config_ok :: "kafka_config \<Rightarrow> bool" where
  "config_ok k \<longleftrightarrow> list_all (\<lambda>p. pred_option topic_settings_ok (pc_topicSettings p)) (kc_producers k)"

lemma dec_number_int [simp]: "int64_ok i \<Longrightarrow> dec_number (JNum (dec_int i)) old = Some i"
  by (simp add: int64_ok_def parse_int64_dec_int dec_number.simps)

lemma dec_pointer_opt:
  "(\<And>y. y \<in> set_option x \<Longrightarrow> e y \<noteq> JNull \<and> d (e y) zero = Some y)
     \<Longrightarrow> dec_pointer zero d (json_opt e x) None = Some x"
  by (cases x) (auto simp: dec_pointer_def json_opt_def split: json.split)

lemma dec_pointer_None [simp]: "dec_pointer zero d (json_opt e None) old = Some None"
  by (simp add: dec_pointer_def json_opt_def)

lemma dec_pointer_Some:
  "e y \<noteq> JNull \<Longrightarrow> dec_pointer zero d (json_opt e (Some y)) None = map_option Some (d (e y) zero)"
  by (auto simp: dec_pointer_def json_opt_def split: json.split)

lemma dec_slice_map:
  "(\<And>x. x \<in> set xs \<Longrightarrow> d (e x) zero = Some x) \<Longrightarrow> dec_slice zero d (JArr (map e xs)) [] = Some xs"
  by (induction xs) (auto simp: dec_slice.simps)

lemma opt_fold_put: "opt_fold (\<lambda>(k, v) m. map_option (\<lambda>s. gm_put k s m) (dec_string v []))
    (map (\<lambda>kv. (fst kv, JStr (snd kv))) kvs) m = Some (gm.put_all kvs m)"
  by (induction kvs arbitrary: m) (auto simp: gm.put_all_Nil gm.put_all_Cons)

lemma dec_string_map_json: "gm_ok m \<Longrightarrow> dec_string_map (json_string_map m) [] = Some m"
  using gm_of_list_distinct [of m]
  by (simp add: json_string_map_def opt_fold_put gm_of_list_def gm_ok_def)

lemmas struct_rules = field_def find_field_def dec_pointer_opt dec_slice_map option.pred_set

declare dec_slice.simps [simp del] dec_number.simps [simp del]

lemma structs_not_null [simp]:
  "json_string_map m \<noteq> JNull" "topic_settings_json t \<noteq> JNull" "field_mapping_json f \<noteq> JNull"
  "schema_registry_json r \<noteq> JNull" "protobuf_schema_json p \<noteq> JNull"
  by (simp_all add: json_string_map_def topic_settings_json_def field_mapping_json_def
      schema_registry_json_def protobuf_schema_json_def)

lemma dec_topic_settings_json [simp]:
  "topic_settings_ok t \<Longrightarrow> dec_topic_settings (topic_settings_json t) zero_topic_settings = Some t"
  by (cases "ts_config t") (simp_all add: dec_topic_settings_def topic_settings_json_def zero_topic_settings_def struct_rules
      topic_settings_ok_def dec_string_map_json dec_pointer_Some)

lemma dec_producer_config_json:
  "pred_option topic_settings_ok (pc_topicSettings p) \<Longrightarrow>
     dec_producer_config (producer_config_json p) zero_producer_config = Some p"
  by (cases "pc_topicSettings p") (simp_all add: dec_producer_config_def producer_config_json_def zero_producer_config_def struct_rules
      dec_pointer_Some)

lemma dec_schema_registry_json [simp]:
  "dec_schema_registry (schema_registry_json r) \<lparr>sr_location = []\<rparr> = Some r"
  by (simp add: dec_schema_registry_def schema_registry_json_def struct_rules)

lemma dec_protobuf_schema_json [simp]:
  "dec_protobuf_schema (protobuf_schema_json p) \<lparr>ps_path = [], ps_fileName = [], ps_type = []\<rparr> = Some p"
  by (simp add: dec_protobuf_schema_def protobuf_schema_json_def struct_rules)

lemma dec_field_mapping_json [simp]:
  "dec_field_mapping (field_mapping_json m) zero_field_mapping = Some m"
  by (simp add: dec_field_mapping_def field_mapping_json_def zero_field_mapping_def struct_rules)

lemma dec_consumer_config_json:
  "dec_consumer_config (consumer_config_json c) zero_consumer_config = Some c"
  by (simp add: dec_consumer_config_def consumer_config_json_def zero_consumer_config_def struct_rules)

lemma dec_config_json: "config_ok k \<Longrightarrow> dec_kafka_config (config_json k) zero_config = Some k"
  by (simp add: dec_kafka_config_def config_json_def zero_config_def struct_rules config_ok_def
      list_all_iff dec_producer_config_json dec_consumer_config_json)

text \<open>The JSON is well formed and shallow.\<close>

lemma json_ok_opt: "(\<And>y. json_ok (e y)) \<Longrightarrow> json_ok (json_opt e x)"
  by (cases x) (auto simp: json_opt_def)

lemma depth_opt: "(\<And>y. json_depth (e y) \<le> n) \<Longrightarrow> json_depth (json_opt e x) \<le> n"
  by (cases x) (auto simp: json_opt_def)

lemma depth_arr: "(\<And>x. x \<in> set xs \<Longrightarrow> json_depth (e x) \<le> n) \<Longrightarrow> json_depth (JArr (map e xs)) \<le> Suc n"
  using fold_max_le [of "map json_depth (map e xs)" n 0] by auto

lemma depth_obj: "(\<And>kv. kv \<in> set kvs \<Longrightarrow> json_depth (snd kv) \<le> n) \<Longrightarrow> json_depth (JObj kvs) \<le> Suc n"
  using fold_max_le [of "map (\<lambda>kv. json_depth (snd kv)) kvs" n 0] by auto

lemma config_json_ok: "json_ok (config_json k)"
  by (auto simp: config_json_def producer_config_json_def consumer_config_json_def
      topic_settings_json_def schema_registry_json_def protobuf_schema_json_def field_mapping_json_def
      json_string_map_def list_all_iff intro!: json_ok_opt)

lemma topic_settings_depth: "json_depth (json_opt topic_settings_json t) \<le> 2"
proof (rule depth_opt)
  fix y
  have "json_depth (json_opt json_string_map c) \<le> Suc 0" for c
    by (rule depth_opt, unfold json_string_map_def, rule depth_obj) auto
  then have "json_depth (topic_settings_json y) \<le> Suc (Suc 0)"
    unfolding topic_settings_json_def by (intro depth_obj) auto
  then show "json_depth (topic_settings_json y) \<le> 2" by simp
qed

lemma producer_config_depth: "json_depth (producer_config_json p) \<le> 3"
proof -
  have "json_depth (json_opt JStr x) \<le> 2" for x
    by (rule depth_opt) simp
  then have "json_depth (producer_config_json p) \<le> Suc 2"
    unfolding producer_config_json_def using topic_settings_depth by (intro depth_obj) auto
  then show ?thesis by simp
qed

lemma consumer_config_depth: "json_depth (consumer_config_json c) \<le> 3"
proof -
  have "json_depth (json_opt JStr x) \<le> 2" for x
    by (rule depth_opt) simp
  moreover have "json_depth (json_opt schema_registry_json x) \<le> 2"
      "json_depth (json_opt protobuf_schema_json y) \<le> 2" for x y
    by (rule depth_opt, simp add: schema_registry_json_def protobuf_schema_json_def)+
  moreover have m: "json_depth (json_opt field_mapping_json x) \<le> Suc 0" for x
    by (rule depth_opt) (simp add: field_mapping_json_def)
  have "json_depth (JArr (map (json_opt field_mapping_json) xs)) \<le> Suc (Suc 0)" for xs
    by (intro depth_arr m)
  moreover have "json_depth (JArr (map JStr xs)) \<le> Suc (Suc 0)" for xs
    by (intro depth_arr) simp
  ultimately have "json_depth (consumer_config_json c) \<le> Suc 2"
    unfolding consumer_config_json_def
    by (intro depth_obj) (auto simp del: json_depth.simps(1) simp: numeral_2_eq_2)
  then show ?thesis by simp
qed

lemma config_json_depth: "json_depth (config_json k) \<le> max_depth"
proof -
  have "json_depth (JArr (map producer_config_json xs)) \<le> Suc 3"
      "json_depth (JArr (map consumer_config_json ys)) \<le> Suc 3" for xs ys
    by (intro depth_arr producer_config_depth consumer_config_depth)+
  then have "json_depth (config_json k) \<le> Suc (Suc 3)"
    unfolding config_json_def by (intro depth_obj) (auto simp del: json_depth.simps(1))
  then show ?thesis by (simp add: max_depth_def)
qed

interpretation config_file: codec_chain config_json "\<lambda>j. dec_kafka_config j zero_config" config_ok
    json_print json_parse "\<lambda>j. json_ok j \<and> json_depth j \<le> max_depth"
  by unfold_locales (simp_all add: dec_config_json config_json_ok config_json_depth)

lemma parse_config_chain: "parse_config s = config_file.chain_dec s"
  by (simp add: parse_config_def config_file.chain_dec_def)

end
