(* ===== verification/Security.thy ===== *)
theory Security
  imports ConfigJson
begin

text \<open>
  \<^verbatim>\<open>internal/security\<close>: the client-credentials token with its cache, and the table of providers.
  Instants are nanoseconds on the monotonic clock as unbounded integers; a duration is the 64-bit
  count of \<^verbatim>\<open>time.Duration\<close>, whose product with a second wraps.
\<close>

record auth0 =
  au_ClientId :: string
  au_ClientSecret :: string
  au_Audience :: string
  au_GrantType :: string
  au_endpoint :: string
  au_cache :: "(int \<times> string) option"

record auth0_response =
  ar_AccessToken :: string
  ar_Scope :: string
  ar_ExpiresIn :: int
  ar_TokenType :: string

section \<open>Configuration\<close>

text \<open>\<open>V\<close> is \<^verbatim>\<open>viper.GetString\<close>.\<close>

definition new_auth0_config :: "(string \<Rightarrow> string) \<Rightarrow> auth0 option" where
  "new_auth0_config V =
     (if V ''AUTH0_CLIENT_ID'' = [] then None
      else Some \<lparr>au_ClientId = V ''AUTH0_CLIENT_ID'', au_ClientSecret = V ''AUTH0_CLIENT_SECRET'',
                 au_Audience = V ''AUTH0_AUDIENCE'', au_GrantType = V ''AUTH0_GRANT_TYPE'',
                 au_endpoint = V ''AUTH0_ENDPOINT'', au_cache = None\<rparr>)"

definition new_token_providers :: "(string \<Rightarrow> string) \<Rightarrow> (string, auth0) gomap" where
  "new_token_providers V =
     (case new_auth0_config V of
        None \<Rightarrow> []
      | Some a \<Rightarrow> gm_put ''auth0tokenprovider'' a [])"

definition no_op_token_providers :: "(string, auth0) gomap" where
  "no_op_token_providers = []"

section \<open>The remote call\<close>

text \<open>
  \<open>R\<close> posts a body to an endpoint: an error, or a status and the JSON value the body starts with
  (an error of its own when there is none).
\<close>

type_synonym auth0_remote = "string \<Rightarrow> string \<Rightarrow> string + (nat \<times> (string + json))"

definition request_body :: "auth0 \<Rightarrow> json" where
  "request_body a = JObj (sort_key fst
     [(''client_id'', JStr (au_ClientId a)), (''client_secret'', JStr (au_ClientSecret a)),
      (''audience'', JStr (au_Audience a)), (''grant_type'', JStr (au_GrantType a))])"

definition dec_auth0_response :: "auth0_response decoder_of" where
  "dec_auth0_response = dec_struct
     [field ''access_token'' ar_AccessToken ar_AccessToken_update dec_string,
      field ''scope'' ar_Scope ar_Scope_update dec_string,
      field ''expires_in'' ar_ExpiresIn ar_ExpiresIn_update dec_number,
      field ''token_type'' ar_TokenType ar_TokenType_update dec_string]"

definition zero_response :: auth0_response where
  "zero_response = \<lparr>ar_AccessToken = [], ar_Scope = [], ar_ExpiresIn = 0, ar_TokenType = []\<rparr>"

definition call_remote :: "auth0_remote \<Rightarrow> auth0 \<Rightarrow> auth0_response go" where
  "call_remote R a =
     (case R (au_endpoint a) (json_print (request_body a)) of
        Inl e \<Rightarrow> Inl (Err e)
      | Inr (status, body) \<Rightarrow>
          (if status \<noteq> 200 then Inl (Err ''not authorized, missing secret perhaps'')
           else case body of
             Inl e \<Rightarrow> Inl (Err e)
           | Inr j \<Rightarrow>
               (case dec_auth0_response j zero_response of
                  None \<Rightarrow> Inl (Err ''json: cannot unmarshal'')
                | Some r \<Rightarrow> Inr r)))"

section \<open>The cache\<close>

text \<open>\<^verbatim>\<open>time.Duration(res.ExpiresIn) * time.Second\<close>.\<close>

definition lifetime :: "int \<Rightarrow> int" where
  "lifetime secs = sint (word_of_int secs * 1000000000 :: 64 word)"

text \<open>The clock is read twice, \<open>now\<close> before the call and \<open>later\<close> after it.\<close>

definition generate_or_get_token :: "auth0_remote \<Rightarrow> int \<Rightarrow> int \<Rightarrow> auth0 \<Rightarrow> auth0 \<times> string go" where
  "generate_or_get_token R now later a =
     (let stale = (case au_cache a of None \<Rightarrow> True | Some (until, _) \<Rightarrow> now > until) in
      if stale then
        (case call_remote R a of
           Inl e \<Rightarrow> (a, Inl e)
         | Inr res \<Rightarrow>
             (a\<lparr>au_cache := Some (later + lifetime (ar_ExpiresIn res), ar_AccessToken res)\<rparr>,
              Inr (ar_AccessToken res)))
      else (a, (case au_cache a of None \<Rightarrow> Inl (Panic NilDereference) | Some (_, t) \<Rightarrow> Inr t)))"

definition token :: "auth0_remote \<Rightarrow> int \<Rightarrow> int \<Rightarrow> auth0 \<Rightarrow> auth0 \<times> string go" where
  "token R now later a =
     (case generate_or_get_token R now later a of
        (a', Inl e) \<Rightarrow> (a', Inl e)
      | (a', Inr t) \<Rightarrow> (a', Inr (''Bearer '' @ t)))"

section \<open>The interface\<close>

text \<open>
  \<^verbatim>\<open>TokenProvider\<close> as its one client relies on it: asking never panics, and a token is a bearer
  token; a failed attempt leaves the provider as it was.  The client sends what it got, or nothing
  after \<^verbatim>\<open>Authorization:\<close> when there was an error.
\<close>

locale token_provider =
  fixes get_token :: "'s \<Rightarrow> 's \<times> string go"
  assumes no_panic: "\<not> is_panic (snd (get_token s))"
    and bearer: "snd (get_token s) = Inr t \<Longrightarrow> has_prefix t ''Bearer ''"
    and failed: "snd (get_token s) = Inl e \<Longrightarrow> fst (get_token s) = s"
begin

definition authorization :: "'s \<Rightarrow> 's \<times> string" where
  "authorization s = (case get_token s of (s', Inr t) \<Rightarrow> (s', t) | (s', Inl _) \<Rightarrow> (s', []))"

lemma authorization_bearer: "snd (authorization s) = [] \<or> has_prefix (snd (authorization s)) ''Bearer ''"
  using bearer [of s] by (cases "get_token s") (auto simp: authorization_def split: sum.split)

lemma authorization_failed: "snd (authorization s) = [] \<Longrightarrow> fst (authorization s) = s"
proof -
  assume no: "snd (authorization s) = []"
  obtain s' r where g: "get_token s = (s', r)" by fastforce
  show ?thesis
  proof (cases r)
    case (Inl e)
    with g failed [of s e] show ?thesis by (simp add: authorization_def)
  next
    case (Inr t)
    with g no bearer [of s t] show ?thesis by (simp add: authorization_def has_prefix_def)
  qed
qed

end

lemma call_remote_no_panic: "\<not> is_panic (call_remote R a)"
  by (auto simp: call_remote_def split: sum.split prod.split option.split)

lemma generate_cases:
  "generate_or_get_token R now later a = (a', r) \<Longrightarrow>
     (\<exists>until t. au_cache a = Some (until, t) \<and> now \<le> until \<and> a' = a \<and> r = Inr t)
     \<or> (\<exists>e. call_remote R a = Inl e \<and> a' = a \<and> r = Inl e)
     \<or> (\<exists>res. call_remote R a = Inr res
          \<and> a' = a\<lparr>au_cache := Some (later + lifetime (ar_ExpiresIn res), ar_AccessToken res)\<rparr>
          \<and> r = Inr (ar_AccessToken res))"
  by (auto simp: generate_or_get_token_def Let_def split: option.splits sum.splits prod.splits if_splits)

interpretation auth0_tokens: token_provider "token R now later" for R now later
proof
  fix a t e
  obtain a' r where g: "generate_or_get_token R now later a = (a', r)" by fastforce
  note cs = generate_cases [OF g]
  show "\<not> is_panic (snd (token R now later a))"
    using cs call_remote_no_panic [of R a] g by (auto simp: token_def is_panic_Inl_iff)
  show "snd (token R now later a) = Inr t \<Longrightarrow> has_prefix t ''Bearer ''"
    using g by (cases r) (auto simp: token_def has_prefix_iff)
  show "snd (token R now later a) = Inl e \<Longrightarrow> fst (token R now later a) = a"
    using cs g by (cases r) (auto simp: token_def)
qed

section \<open>Facts about the cache\<close>

lemma token_cached:
  "au_cache a = Some (until, t) \<Longrightarrow> now \<le> until \<Longrightarrow> token R now later a = (a, Inr (''Bearer '' @ t))"
  by (simp add: token_def generate_or_get_token_def)

lemma token_stale:
  "(case au_cache a of None \<Rightarrow> True | Some (until, _) \<Rightarrow> now > until) \<Longrightarrow> call_remote R a = Inr res \<Longrightarrow>
     token R now later a =
       (a\<lparr>au_cache := Some (later + lifetime (ar_ExpiresIn res), ar_AccessToken res)\<rparr>,
        Inr (''Bearer '' @ ar_AccessToken res))"
  by (simp add: token_def generate_or_get_token_def)

text \<open>Below about 292 years nothing wraps.\<close>

lemma lifetime_exact: "0 \<le> secs \<Longrightarrow> secs \<le> 9223372036 \<Longrightarrow> lifetime secs = secs * 1000000000"
proof -
  assume b: "0 \<le> secs" "secs \<le> 9223372036"
  have "word_of_int secs * 1000000000 = (word_of_int (secs * 1000000000) :: 64 word)"
    by simp
  then have "lifetime secs = sint (word_of_int (secs * 1000000000) :: 64 word)"
    by (simp add: lifetime_def)
  also have "\<dots> = secs * 1000000000"
    unfolding sint_sbintrunc' using b by (intro signed_take_bit_int_eq_self) auto
  finally show ?thesis .
qed

end
