(* ===== verification/ConfManager.thy ===== *)
theory ConfManager
  imports ConfigJson Security
begin

text \<open>
  \<^verbatim>\<open>internal/conf/manager.go\<close>: loading the configuration, at the start and on every tick of the
  refresh job.  A file read gives its content, if it could be opened, and an error, if any; the
  HTTP client is a function of the URL and the \<^verbatim>\<open>Authorization\<close> header, \<^verbatim>\<open>md5.Sum\<close> a function on
  texts.
\<close>

record state =
  st_timestamp :: int
  st_digest :: string

record manager =
  mg_location :: string
  mg_datalayer :: "kafka_config option"
  mg_state :: state
  mg_providers :: "(string, auth0) gomap"
  mg_listeners :: "nat list"

record world =
  wd_file :: "string \<Rightarrow> string option \<times> string option"
  wd_new_request :: "string \<Rightarrow> string option"
  wd_get :: "string \<Rightarrow> string option \<Rightarrow> string + (nat \<times> string option \<times> string option)"
  wd_auth0 :: auth0_remote
  wd_now :: int
  wd_later :: int
  wd_unix :: int

declare auth0_tokens.authorization_def [code_unfold]

definition load_file :: "world \<Rightarrow> string \<Rightarrow> string option \<times> string option" where
  "load_file w location = wd_file w (replace_all location ''file://'' [])"

text \<open>A status other than 200 gives no content and no error.\<close>

definition load_url :: "world \<Rightarrow> string \<Rightarrow> (string, auth0) gomap
    \<Rightarrow> (string, auth0) gomap \<times> string option \<times> string option" where
  "load_url w url ps =
     (case wd_new_request w url of
        Some e \<Rightarrow> (ps, None, Some e)
      | None \<Rightarrow>
          (let (ps', header) =
             (case gm_get ps ''auth0tokenprovider'' of
                None \<Rightarrow> (ps, None)
              | Some a \<Rightarrow>
                  (case auth0_tokens.authorization (wd_auth0 w) (wd_now w) (wd_later w) a of
                     (a', bearer) \<Rightarrow> (gm_put ''auth0tokenprovider'' a' ps, Some bearer))) in
           case wd_get w url header of
             Inl e \<Rightarrow> (ps', None, Some e)
           | Inr (status, body, err) \<Rightarrow>
               (if status = 200 then (ps', body, err) else (ps', None, None))))"

text \<open>
  What a load has read: \<open>None\<close> when it gives up at once, and otherwise the bytes to parse, no
  content being the empty text.  The error \<^verbatim>\<open>unpackContent\<close> returns is assigned to a variable of the
  inner block and so lost.
\<close>

definition fetch :: "golib \<Rightarrow> world \<Rightarrow> manager \<Rightarrow> (string, auth0) gomap \<times> string option" where
  "fetch L w m =
     (let loc = mg_location m; bytes = (\<lambda>c. case c of None \<Rightarrow> [] | Some s \<Rightarrow> s) in
      if str_index loc ''file://'' = 0 then (mg_providers m, Some (bytes (fst (load_file w loc))))
      else if str_index loc ''http'' = 0 then
        (case load_url w loc (mg_providers m) of
           (ps, c, Some e) \<Rightarrow> (ps, None)
         | (ps, c, None) \<Rightarrow> (ps, Some (bytes (unpack_content L (bytes c)))))
      else (mg_providers m, Some (bytes (fst (load_file w ''file://resources/default-config.json'')))))"

text \<open>The new manager, the pointer returned, and the listeners started with their argument.\<close>

definition load ::
  "golib \<Rightarrow> (string \<Rightarrow> string) \<Rightarrow> world \<Rightarrow> manager \<Rightarrow> manager \<times> kafka_config option \<times> (nat \<times> string) list" where
  "load L md5 w m =
     (case fetch L w m of
        (ps, None) \<Rightarrow> (m\<lparr>mg_providers := ps\<rparr>, None, [])
      | (ps, Some content) \<Rightarrow>
          (let m1 = m\<lparr>mg_providers := ps\<rparr>; digest = md5 content in
           if digest \<noteq> st_digest (mg_state m) then
             (case parse_config content of
                None \<Rightarrow> (m1, None, [])
              | Some cfg \<Rightarrow>
                  (m1\<lparr>mg_datalayer := Some cfg,
                      mg_state := \<lparr>st_timestamp = wd_unix w, st_digest = digest\<rparr>\<rparr>,
                   Some cfg, map (\<lambda>f. (f, digest)) (mg_listeners m)))
           else (m1, mg_datalayer m, [])))"

definition run :: "golib \<Rightarrow> (string \<Rightarrow> string) \<Rightarrow> world \<Rightarrow> manager \<Rightarrow> manager \<times> (nat \<times> string) list" where
  "run L md5 w m = (case load L md5 w m of (m', _, fired) \<Rightarrow> (m', fired))"

definition add_listener :: "nat \<Rightarrow> manager \<Rightarrow> manager" where
  "add_listener f m = m\<lparr>mg_listeners := mg_listeners m @ [f]\<rparr>"

text \<open>
  \<^verbatim>\<open>NewConfigurationManager\<close>: the first load's result becomes the configuration, also when it is
  nil.  The digest starts as sixteen zero bytes.
\<close>

definition new_manager ::
  "golib \<Rightarrow> (string \<Rightarrow> string) \<Rightarrow> world \<Rightarrow> string \<Rightarrow> (string, auth0) gomap \<Rightarrow> manager" where
  "new_manager L md5 w location ps =
     (case load L md5 w \<lparr>mg_location = location, mg_datalayer = Some zero_config,
          mg_state = \<lparr>st_timestamp = wd_unix w, st_digest = replicate 16 (CHR 0x00)\<rparr>,
          mg_providers = ps, mg_listeners = []\<rparr> of
        (m, cfg, _) \<Rightarrow> m\<lparr>mg_datalayer := cfg\<rparr>)"

text \<open>
  \<open>SC\<close> is the error of \<^verbatim>\<open>jobrunner.Schedule\<close> for an interval; \<^verbatim>\<open>Init\<close> only warns about it, and then there
  are no refreshes.
\<close>

definition scheduled :: "(string \<Rightarrow> string option) \<Rightarrow> string \<Rightarrow> bool" where
  "scheduled SC interval \<longleftrightarrow> SC interval = None"

text \<open>The manager after a sequence of refreshes.\<close>

definition refreshed :: "golib \<Rightarrow> (string \<Rightarrow> string) \<Rightarrow> world list \<Rightarrow> manager \<Rightarrow> manager" where
  "refreshed L md5 ws m = fold (\<lambda>w m. fst (run L md5 w m)) ws m"

section \<open>Facts\<close>

lemma load_no_content:
  "snd (fetch L w m) = None \<or> (\<exists>c. snd (fetch L w m) = Some c \<and> parse_config c = None
      \<and> md5 c \<noteq> st_digest (mg_state m)) \<Longrightarrow>
     load L md5 w m = (m\<lparr>mg_providers := fst (fetch L w m)\<rparr>, None, [])"
  by (cases "fetch L w m") (auto simp: load_def split: option.splits)

lemma load_same_digest:
  "snd (fetch L w m) = Some c \<Longrightarrow> md5 c = st_digest (mg_state m) \<Longrightarrow>
     load L md5 w m = (m\<lparr>mg_providers := fst (fetch L w m)\<rparr>, mg_datalayer m, [])"
  by (cases "fetch L w m") (auto simp: load_def)

lemma load_new:
  "snd (fetch L w m) = Some c \<Longrightarrow> md5 c \<noteq> st_digest (mg_state m) \<Longrightarrow> parse_config c = Some cfg \<Longrightarrow>
     load L md5 w m =
       (m\<lparr>mg_providers := fst (fetch L w m), mg_datalayer := Some cfg,
          mg_state := \<lparr>st_timestamp = wd_unix w, st_digest = md5 c\<rparr>\<rparr>,
        Some cfg, map (\<lambda>f. (f, md5 c)) (mg_listeners m))"
  by (cases "fetch L w m") (auto simp: load_def Let_def)

text \<open>A load leaves the listeners as they are.\<close>

lemma load_listeners: "load L md5 w m = (m', cfg, fired) \<Longrightarrow> mg_listeners m' = mg_listeners m"
  by (auto simp: load_def Let_def split: prod.splits option.splits if_splits)

lemma new_manager_listeners: "mg_listeners (new_manager L md5 w location ps) = []"
  by (auto simp: new_manager_def dest!: load_listeners split: prod.split)

text \<open>The contents that a sequence of refreshes reads.\<close>

fun contents_read :: "golib \<Rightarrow> (string \<Rightarrow> string) \<Rightarrow> world list \<Rightarrow> manager \<Rightarrow> string list" where
  "contents_read L md5 [] m = []"
| "contents_read L md5 (w # ws) m =
     (case snd (fetch L w m) of None \<Rightarrow> [] | Some c \<Rightarrow> [c]) @ contents_read L md5 ws (fst (run L md5 w m))"

text \<open>The manager the first load starts from.\<close>

definition fresh_manager :: "world \<Rightarrow> string \<Rightarrow> (string, auth0) gomap \<Rightarrow> manager" where
  "fresh_manager w location ps = \<lparr>mg_location = location, mg_datalayer = Some zero_config,
     mg_state = \<lparr>st_timestamp = wd_unix w, st_digest = replicate 16 (CHR 0x00)\<rparr>,
     mg_providers = ps, mg_listeners = []\<rparr>"

text \<open>
  The configuration in use and the digest belong to one of the contents read, which parsed.  Before the
  first success there is no configuration and the digest is the initial one; a content with that very
  digest would leave the empty configuration in use.
\<close>

definition manager_ok :: "(string \<Rightarrow> string) \<Rightarrow> string set \<Rightarrow> manager \<Rightarrow> bool" where
  "manager_ok md5 C m \<longleftrightarrow>
     (\<exists>c \<in> C. md5 c = st_digest (mg_state m) \<and> parse_config c = mg_datalayer m \<and> mg_datalayer m \<noteq> None)
     \<or> st_digest (mg_state m) = replicate 16 (CHR 0x00)
       \<and> (mg_datalayer m = None
          \<or> mg_datalayer m = Some zero_config \<and> (\<exists>c \<in> C. md5 c = replicate 16 (CHR 0x00)))"

lemma manager_ok_mono: "manager_ok md5 C m \<Longrightarrow> C \<subseteq> D \<Longrightarrow> manager_ok md5 D m"
  by (auto simp: manager_ok_def)

lemma manager_ok_providers [simp]: "manager_ok md5 C (m\<lparr>mg_providers := ps\<rparr>) = manager_ok md5 C m"
  by (simp add: manager_ok_def)

lemma run_ok:
  assumes "manager_ok md5 C m"
  shows "manager_ok md5 (C \<union> set_option (snd (fetch L w m))) (fst (run L md5 w m))"
proof (cases "snd (fetch L w m)")
  case None
  with assms show ?thesis by (simp add: run_def load_no_content)
next
  case (Some c)
  have keep: "manager_ok md5 (insert c C) m"
    using assms by (rule manager_ok_mono) blast
  show ?thesis
  proof (cases "md5 c = st_digest (mg_state m)")
    case True
    with keep Some show ?thesis by (simp add: run_def load_same_digest)
  next
    case changed: False
    show ?thesis
    proof (cases "parse_config c")
      case None
      with keep Some changed show ?thesis by (simp add: run_def load_no_content)
    next
      case (Some cfg)
      with changed \<open>snd (fetch L w m) = Some c\<close> show ?thesis
        by (auto simp: run_def load_new manager_ok_def)
    qed
  qed
qed

lemma refreshed_ok:
  "manager_ok md5 C m \<Longrightarrow> manager_ok md5 (C \<union> set (contents_read L md5 ws m)) (refreshed L md5 ws m)"
proof (induction ws arbitrary: C m)
  case Nil
  then show ?case by (simp add: refreshed_def)
next
  case (Cons w ws)
  have "C \<union> set_option (snd (fetch L w m)) \<union> set (contents_read L md5 ws (fst (run L md5 w m)))
      = C \<union> set (contents_read L md5 (w # ws) m)"
    by (cases "snd (fetch L w m)") auto
  with Cons.IH [OF run_ok [OF Cons.prems, of L w]] show ?case by (simp add: refreshed_def)
qed

lemma new_manager_ok:
  "manager_ok md5 (set_option (snd (fetch L w (fresh_manager w location ps)))) (new_manager L md5 w location ps)"
proof -
  let ?m = "fresh_manager w location ps"
  have new: "new_manager L md5 w location ps = (case load L md5 w ?m of (m', cfg, _) \<Rightarrow> m'\<lparr>mg_datalayer := cfg\<rparr>)"
    by (simp add: new_manager_def fresh_manager_def)
  have digest: "st_digest (mg_state ?m) = replicate 16 (CHR 0x00)" "mg_datalayer ?m = Some zero_config"
    by (simp_all add: fresh_manager_def)
  show ?thesis
  proof (cases "snd (fetch L w ?m)")
    case None
    with new digest show ?thesis by (simp add: load_no_content manager_ok_def)
  next
    case (Some c)
    with new digest show ?thesis
      by (cases "md5 c = st_digest (mg_state ?m)"; cases "parse_config c")
        (auto simp: load_no_content load_same_digest load_new manager_ok_def)
  qed
qed

text \<open>A data hub that answers with a configuration under \<^verbatim>\<open>data\<close>.\<close>

lemma load_url_header:
  assumes "wd_new_request w url = None" and "gm_get ps ''auth0tokenprovider'' = Some a"
  shows "\<exists>header. (header = [] \<or> has_prefix header ''Bearer '')
    \<and> snd (load_url w url ps) =
        (case wd_get w url (Some header) of
           Inl e \<Rightarrow> (None, Some e)
         | Inr (status, body, err) \<Rightarrow> if status = 200 then (body, err) else (None, None))"
proof -
  let ?r = "auth0_tokens.authorization (wd_auth0 w) (wd_now w) (wd_later w) a"
  have "snd (load_url w url ps) = (case wd_get w url (Some (snd ?r)) of
           Inl e \<Rightarrow> (None, Some e)
         | Inr (status, body, err) \<Rightarrow> if status = 200 then (body, err) else (None, None))"
    using assms by (auto simp: load_url_def split: sum.split prod.split)
  then show ?thesis using auth0_tokens.authorization_bearer by blast
qed

end
