(* ===== verification/Env.thy ===== *)
theory Env
  imports Prelude
begin

text \<open>
  \<^verbatim>\<open>internal/conf/config.go\<close>, \<^verbatim>\<open>logger.go\<close> and \<^verbatim>\<open>statsd.go\<close>: the environment the program starts in.
  \<open>given\<close> is what viper finds for a key in the process environment or in the two \<^verbatim>\<open>.env\<close> files,
  in its own order of precedence; the defaults are the program's.
\<close>

section \<open>Settings\<close>

definition default_settings :: "(string \<times> string) list" where
  "default_settings =
     [(''SERVER_PORT'', ''8080''), (''LOG_LEVEL'', ''INFO''),
      (''CONFIG_REFRESH_INTERVAL'', ''@every 60s''), (''SERVICE_NAME'', ''kafka-datalayer''),
      (''CONFIG_LOCATION'', ''file://'' @ ''.config.json'')]"

definition get_string :: "(string \<Rightarrow> string option) \<Rightarrow> string \<Rightarrow> string" where
  "get_string given key =
     (case given key of
        Some v \<Rightarrow> v
      | None \<Rightarrow> (case map_of default_settings key of Some v \<Rightarrow> v | None \<Rightarrow> []))"

record auth_config =
  ac_WellKnown :: string
  ac_Audience :: string
  ac_AudienceAuth0 :: string
  ac_Issuer :: string
  ac_IssuerAuth0 :: string
  ac_Middleware :: string

record env =
  en_Env :: string
  en_Port :: string
  en_ConfigLocation :: string
  en_RefreshInterval :: string
  en_ServiceName :: string
  en_KafkaBrokers :: "string list"
  en_Auth :: auth_config

text \<open>\<open>servers\<close> is \<^verbatim>\<open>GetStringSlice\<close> of \<^verbatim>\<open>BOOTSTRAP_SERVERS\<close>, split at white space only.\<close>

definition brokers_of :: "string list \<Rightarrow> string list" where
  "brokers_of servers =
     (case servers of
        [s] \<Rightarrow> (if str_contains s '','' then split_on (CHR '','') s else [s])
      | _ \<Rightarrow> servers)"

definition new_env :: "string option \<Rightarrow> (string \<Rightarrow> string option) \<Rightarrow> string list \<Rightarrow> env" where
  "new_env profile given servers =
     \<lparr>en_Env = (case profile of None \<Rightarrow> ''local'' | Some p \<Rightarrow> p),
      en_Port = get_string given ''SERVER_PORT'',
      en_ConfigLocation = get_string given ''CONFIG_LOCATION'',
      en_RefreshInterval = get_string given ''CONFIG_REFRESH_INTERVAL'',
      en_ServiceName = get_string given ''SERVICE_NAME'',
      en_KafkaBrokers = brokers_of servers,
      en_Auth =
        \<lparr>ac_WellKnown = get_string given ''TOKEN_WELL_KNOWN'',
         ac_Audience = get_string given ''TOKEN_AUDIENCE'',
         ac_AudienceAuth0 = get_string given ''TOKEN_AUDIENCE_AUTH0'',
         ac_Issuer = get_string given ''TOKEN_ISSUER'',
         ac_IssuerAuth0 = get_string given ''TOKEN_ISSUER_AUTH0'',
         ac_Middleware = get_string given ''AUTHORIZATION_MIDDLEWARE''\<rparr>\<rparr>"

text \<open>What \<^verbatim>\<open>NewConsumers\<close> and \<^verbatim>\<open>NewProducers\<close> give the Kafka clients.\<close>

definition bootstrap_servers :: "env \<Rightarrow> string" where
  "bootstrap_servers e = str_join '','' (en_KafkaBrokers e)"

section \<open>Logging\<close>

datatype level = DebugLevel | InfoLevel | WarnLevel | ErrorLevel

text \<open>zap's numbering, and the order it gives.\<close>

fun severity :: "level \<Rightarrow> int" where
  "severity DebugLevel = -1"
| "severity InfoLevel = 0"
| "severity WarnLevel = 1"
| "severity ErrorLevel = 2"

lemma severity_inject: "severity a = severity b \<longleftrightarrow> a = b"
  by (cases a; cases b) auto

instantiation level :: linorder
begin

definition less_eq_level :: "level \<Rightarrow> level \<Rightarrow> bool" where
  "less_eq_level a b \<longleftrightarrow> severity a \<le> severity b"

definition less_level :: "level \<Rightarrow> level \<Rightarrow> bool" where
  "less_level a b \<longleftrightarrow> severity a < severity b"

instance
  by standard (auto simp: less_eq_level_def less_level_def severity_inject)

end

definition get_log_level :: "string \<Rightarrow> level" where
  "get_log_level l =
     (let u = to_upper l in
      if u = ''DEBUG'' then DebugLevel
      else if u = ''INFO'' then InfoLevel
      else if u = ''WARN'' then WarnLevel
      else if u = ''ERROR'' then ErrorLevel
      else InfoLevel)"

text \<open>
  The three loggers: none at all, readable text, or sampled JSON that carries the service name.
\<close>

datatype logger = NopLogger | ConsoleLogger level | JsonLogger level string

definition get_logger :: "string \<Rightarrow> level \<Rightarrow> string \<Rightarrow> logger" where
  "get_logger profile lv service =
     (if profile = ''test'' then NopLogger
      else if profile = ''local'' then ConsoleLogger lv
      else JsonLogger lv service)"

fun logs :: "logger \<Rightarrow> level \<Rightarrow> bool" where
  "logs NopLogger l = False"
| "logs (ConsoleLogger lv) l \<longleftrightarrow> lv \<le> l"
| "logs (JsonLogger lv s) l \<longleftrightarrow> lv \<le> l"

text \<open>\<^verbatim>\<open>NewLogger\<close>, the logger that replaces the first one.\<close>

definition new_logger :: "env \<Rightarrow> (string \<Rightarrow> string option) \<Rightarrow> logger" where
  "new_logger e given =
     get_logger (en_Env e) (get_log_level (get_string given ''LOG_LEVEL''))
       (get_string given ''SERVICE_NAME'')"

section \<open>Statsd\<close>

text \<open>\<open>S\<close> is the constructor of the client: host, namespace and tags.\<close>

datatype 'c statsd_client = NoOpClient | Client 'c

definition new_statsd ::
  "(string \<Rightarrow> string \<Rightarrow> string list \<Rightarrow> string + 'c) \<Rightarrow> (string \<Rightarrow> string option) \<Rightarrow> env
     \<Rightarrow> string + 'c statsd_client" where
  "new_statsd S given e =
     (let host = get_string given ''DD_AGENT_HOST'' in
      if host \<noteq> [] then
        (case S host (get_string given ''SERVICE_NAME'') [''service:'' @ en_ServiceName e] of
           Inl err \<Rightarrow> Inl err
         | Inr c \<Rightarrow> Inr (Client c))
      else Inr NoOpClient)"

section \<open>Facts\<close>

lemma brokers_join: "servers = [s] \<Longrightarrow> str_join '','' (brokers_of servers) = s"
  by (simp add: brokers_of_def str_join_split_on)

lemma to_upper_lower: "to_upper (to_lower s) = to_upper s"
  by (auto simp: to_upper_def to_lower_def)

lemma get_log_level_case: "to_upper a = to_upper b \<Longrightarrow> get_log_level a = get_log_level b"
  by (simp add: get_log_level_def)

lemma get_log_level_words:
  "get_log_level ''DEBUG'' = DebugLevel" "get_log_level ''INFO'' = InfoLevel"
  "get_log_level ''WARN'' = WarnLevel" "get_log_level ''ERROR'' = ErrorLevel"
  by code_simp+

end
