(* ===== verification/Startup.thy ===== *)
theory Startup
  imports Producer Consumer ConfManager Env
begin

text \<open>
  What \<^verbatim>\<open>NewProducers\<close> and \<^verbatim>\<open>NewConsumers\<close> do with the loaded configuration when the program starts,
  and the listener that creates topics when the configuration changes.  The pointer to the
  configuration is nil after a failed first load, and it is dereferenced all the same.
\<close>

type_synonym admin = "topic_spec list \<Rightarrow> string option"

definition producers_on_start :: "admin \<Rightarrow> kafka_config option \<Rightarrow> topic_spec list option \<times> unit go" where
  "producers_on_start A cfg =
     (case cfg of
        None \<Rightarrow> (None, Inl (Panic NilDereference))
      | Some k \<Rightarrow> (if kc_producers k \<noteq> [] then init_topics A (kc_producers k) else (None, Inr ())))"

text \<open>The listener logs an error and carries on; a panic it does not stop.\<close>

definition producers_on_update :: "admin \<Rightarrow> kafka_config option \<Rightarrow> topic_spec list option \<times> unit go" where
  "producers_on_update A cfg =
     (case cfg of
        None \<Rightarrow> (None, Inl (Panic NilDereference))
      | Some k \<Rightarrow>
          (case init_topics A (kc_producers k) of
             (specs, Inl (Err e)) \<Rightarrow> (specs, Inr ())
           | r \<Rightarrow> r))"

text \<open>The start hook of the consumers logs the topics.\<close>

definition consumers_on_start :: "kafka_config option \<Rightarrow> string list go" where
  "consumers_on_start cfg =
     (case cfg of
        None \<Rightarrow> Inl (Panic NilDereference)
      | Some k \<Rightarrow> Inr (map cc_topic (kc_consumers k)))"

text \<open>The datasets the handlers look up, in the configuration of the moment.\<close>

definition current_consumers :: "manager \<Rightarrow> consumer_config list go" where
  "current_consumers m =
     (case mg_datalayer m of None \<Rightarrow> Inl (Panic NilDereference) | Some k \<Rightarrow> Inr (kc_consumers k))"

definition current_producers :: "manager \<Rightarrow> producer_config list go" where
  "current_producers m =
     (case mg_datalayer m of None \<Rightarrow> Inl (Panic NilDereference) | Some k \<Rightarrow> Inr (kc_producers k))"

section \<open>Topics\<close>

lemma topic_spec_for_Inr_iff:
  "(\<exists>s. topic_spec_for c = Inr s) \<longleftrightarrow> pc_topicSettings c \<noteq> None"
  by (auto simp: topic_spec_for_def Let_def split: option.split)

lemma topic_spec_for_retention:
  "topic_spec_for c = Inr s \<Longrightarrow> pc_topicSettings c = Some ts \<Longrightarrow> pred_option gm_ok (ts_config ts) \<Longrightarrow>
     tp_topic s = pc_topic c \<and> tp_partitions s = ts_partitions ts \<and> tp_replicas s = ts_replicas ts
     \<and> gm_get (tp_config s) k =
         (case Option.bind (ts_config ts) (\<lambda>m. gm_get m k) of
            Some v \<Rightarrow> Some v
          | None \<Rightarrow> if k = ''retention.ms'' then Some ''-1'' else None)"
  by (cases "ts_config ts")
    (auto simp: topic_spec_for_def map_rules gm_of_list_def [symmetric] Let_def
      gm_of_list_distinct [folded gm_ok_def] split: option.split)

lemma init_topics_specs:
  "init_topics A ps = (Some specs, r) \<Longrightarrow>
     list_all2 (\<lambda>c s. topic_spec_for c = Inr s) (filter pc_createTopic ps) specs"
  by (auto simp: init_topics_def go_map_Inr_iff split: sum.splits if_splits)

lemma go_map_first_error:
  "\<forall>x \<in> set xs. f x \<noteq> Inl e \<longrightarrow> (\<exists>y. f x = Inr y) \<Longrightarrow> x \<in> set xs \<Longrightarrow> f x = Inl e \<Longrightarrow> go_map f xs = Inl e"
proof (induction xs)
  case (Cons a xs)
  then show ?case by (cases "f a") (auto simp: go_bind_eq_Inl)
qed simp

text \<open>A topic to be created without settings.\<close>

lemma init_topics_panics:
  "c \<in> set ps \<Longrightarrow> pc_createTopic c \<Longrightarrow> pc_topicSettings c = None
     \<Longrightarrow> init_topics A ps = (None, Inl (Panic NilDereference))"
proof -
  assume c: "c \<in> set ps" "pc_createTopic c" "pc_topicSettings c = None"
  have "go_map topic_spec_for (filter pc_createTopic ps) = Inl (Panic NilDereference)"
    by (rule go_map_first_error [where x = c])
      (use c in \<open>auto simp: topic_spec_for_def Let_def split: option.split\<close>)
  then show ?thesis by (simp add: init_topics_def)
qed

end
