(* ===== verification/Leaves.thy ===== *)
theory Leaves
  imports Encoder
begin

text \<open>
  What \<^verbatim>\<open>flatten\<close> should do, said without recursion over the document: a leaf is a place a path leads to,
  and encoding a message visits each such place once.  The order is that of the runtime's maps.
\<close>

section \<open>Places in a document\<close>

datatype step = Member string | Index nat

text \<open>An array is entered at its objects only.\<close>

fun follow :: "gval \<Rightarrow> step list \<Rightarrow> gval option" where
  "follow v [] = Some v"
| "follow (GMap kvs) (Member k # p) = Option.bind (gm_get kvs k) (\<lambda>v. follow v p)"
| "follow (GArr xs) (Index i # p) = (if i < length xs \<and> is_object (xs ! i) then follow (xs ! i) p else None)"
| "follow _ _ = None"

fun step_name :: "step \<Rightarrow> string" where
  "step_name (Member k) = k"
| "step_name (Index i) = dec_nat i"

definition path_text :: "step list \<Rightarrow> string" where
  "path_text p = concat (map (\<lambda>s. step_name s @ ''.'') p)"

text \<open>What is written for a value itself: nothing for an object, a typed copy for an array of scalars.\<close>

fun own_leaf :: "gval \<Rightarrow> gval option" where
  "own_leaf (GMap _) = None"
| "own_leaf (GArr xs) = array_leaf xs"
| "own_leaf v = Some v"

text \<open>The leaf at a path: the text of the way to it, its own name, its value.\<close>

definition leaf_at :: "gval \<Rightarrow> step list \<Rightarrow> (string \<times> string \<times> gval) option" where
  "leaf_at doc p = map_option (\<lambda>a. (path_text (butlast p), step_name (last p), a)) (Option.bind (follow doc p) own_leaf)"

section \<open>The places, enumerated\<close>

fun paths :: "gval \<Rightarrow> step list list"
  and object_paths :: "(string \<times> gval) list \<Rightarrow> step list list"
  and item_paths :: "nat \<Rightarrow> gval list \<Rightarrow> step list list" where
  "paths (GMap kvs) = object_paths kvs"
| "paths (GArr xs) = item_paths 0 xs @ (if array_leaf xs = None then [] else [[]])"
| "paths v = [[]]"
| "object_paths [] = []"
| "object_paths ((k, v) # kvs) = map ((#) (Member k)) (paths v) @ object_paths kvs"
| "item_paths i [] = []"
| "item_paths i (GMap kvs # xs) = map ((#) (Index i)) (object_paths kvs) @ item_paths (Suc i) xs"
| "item_paths i (x # xs) = item_paths (Suc i) xs"

fun distinct_keys :: "gval \<Rightarrow> bool" where
  "distinct_keys (GMap kvs) \<longleftrightarrow> gm_ok kvs \<and> list_all (\<lambda>kv. distinct_keys (snd kv)) kvs"
| "distinct_keys (GArr xs) \<longleftrightarrow> list_all distinct_keys xs"
| "distinct_keys _ \<longleftrightarrow> True"

definition leafy :: "gval \<Rightarrow> step list \<Rightarrow> bool" where
  "leafy v p \<longleftrightarrow> Option.bind (follow v p) own_leaf \<noteq> None"

lemma leaf_at_Some: "leaf_at doc p \<noteq> None \<longleftrightarrow> leafy doc p"
  by (simp add: leaf_at_def leafy_def)

lemma object_paths_iff:
  "p \<in> set (object_paths kvs) \<longleftrightarrow> (\<exists>kv \<in> set kvs. \<exists>q \<in> set (paths (snd kv)). p = Member (fst kv) # q)"
  by (induction kvs) auto

lemma item_paths_iff:
  "p \<in> set (item_paths i xs) \<longleftrightarrow>
     (\<exists>j < length xs. is_object (xs ! j) \<and> (\<exists>q \<in> set (paths (xs ! j)). p = Index (i + j) # q))"
proof (induction xs arbitrary: i)
  case (Cons x xs)
  then show ?case by (cases x) (auto simp: is_object_def less_Suc_eq_0_disj)
qed simp

lemma follow_Member:
  "follow v (Member k # p) = (case v of GMap kvs \<Rightarrow> Option.bind (gm_get kvs k) (\<lambda>v. follow v p) | _ \<Rightarrow> None)"
  by (cases v) auto

lemma follow_Index:
  "follow v (Index i # p) = (case v of
     GArr xs \<Rightarrow> if i < length xs \<and> is_object (xs ! i) then follow (xs ! i) p else None | _ \<Rightarrow> None)"
  by (cases v) auto

lemma gm_get_iff: "gm_ok m \<Longrightarrow> gm_get m k = Some v \<longleftrightarrow> (k, v) \<in> set m"
  using gm_get_mem by (fastforce simp: gm_get_def dest: map_of_SomeD)

text \<open>The enumeration has the places, each once.\<close>

lemma paths_leafy: "distinct_keys v \<Longrightarrow> p \<in> set (paths v) \<longleftrightarrow> leafy v p"
proof (induction p arbitrary: v)
  case Nil
  have "[] \<notin> set (object_paths kvs)" "[] \<notin> set (item_paths 0 xs)" for kvs xs
    by (auto simp: object_paths_iff item_paths_iff)
  then show ?case by (cases v) (auto simp: leafy_def)
next
  case (Cons s p)
  show ?case
  proof (cases v)
    case (GMap kvs)
    with Cons.prems have "gm_ok kvs" "\<forall>kv \<in> set kvs. distinct_keys (snd kv)"
      by (auto simp: list_all_iff)
    then show ?thesis
      using Cons.IH GMap
      by (cases s) (force simp: object_paths_iff leafy_def follow_Member follow_Index gm_get_iff
          bind_eq_Some_conv not_None_eq)+
  next
    case (GArr xs)
    with Cons.prems have "\<forall>x \<in> set xs. distinct_keys x" by (auto simp: list_all_iff)
    with Cons.IH GArr show ?thesis
      by (cases s) (auto simp: item_paths_iff leafy_def follow_Member follow_Index)
  qed (cases s; auto simp: leafy_def)+
qed

lemma paths_distinct:
  "distinct_keys v \<Longrightarrow> distinct (paths v)"
  "gm_ok kvs \<Longrightarrow> list_all (\<lambda>kv. distinct_keys (snd kv)) kvs \<Longrightarrow> distinct (object_paths kvs)"
  "list_all distinct_keys xs \<Longrightarrow> distinct (item_paths i xs)"
proof (induction v and kvs and i xs rule: paths_object_paths_item_paths.induct)
  case (2 xs)
  then show ?case by (auto simp: item_paths_iff)
next
  case (5 k v kvs)
  then show ?case
    by (force simp: distinct_map gm_ok_def object_paths_iff)
qed (auto simp: distinct_map item_paths_iff gm_ok_def)

section \<open>The leaves are what is found at the places\<close>

text \<open>Below the name \<open>k\<close> with prefix \<open>pre\<close>.\<close>

definition leaf_under :: "string \<Rightarrow> string \<Rightarrow> gval \<Rightarrow> step list \<Rightarrow> string \<times> string \<times> gval" where
  "leaf_under pre k v p =
     (let a = the (Option.bind (follow v p) own_leaf) in
      if p = [] then (pre, k, a) else (pre @ k @ ''.'' @ path_text (butlast p), step_name (last p), a))"

definition leaf_in :: "string \<Rightarrow> gval \<Rightarrow> step list \<Rightarrow> string \<times> string \<times> gval" where
  "leaf_in pre doc p =
     (pre @ path_text (butlast p), step_name (last p), the (Option.bind (follow doc p) own_leaf))"

lemma leaf_in_Cons:
  "follow doc (s # p) = follow v p \<Longrightarrow> leaf_in pre doc (s # p) = leaf_under pre (step_name s) v p"
  by (simp add: leaf_in_def leaf_under_def path_text_def)

lemma leaf_under_ne: "p \<noteq> [] \<Longrightarrow> leaf_under pre k v p = leaf_in (pre @ k @ ''.'') v p"
  by (simp add: leaf_under_def leaf_in_def)

lemma object_paths_ne: "p \<in> set (object_paths kvs) \<Longrightarrow> p \<noteq> []"
  by (auto simp: object_paths_iff)

lemma item_paths_ne: "p \<in> set (item_paths i xs) \<Longrightarrow> p \<noteq> []"
  by (auto simp: item_paths_iff)

lemma drop_eq_Cons: "drop i l = x # xs \<longleftrightarrow> i < length l \<and> l ! i = x \<and> drop (Suc i) l = xs"
  by (cases "i < length l") (auto simp: Cons_nth_drop_Suc [symmetric])

lemma leaves_paths:
  "distinct_keys v \<Longrightarrow> leaves pre k v = map (leaf_under pre k v) (paths v)"
  "gm_ok all \<Longrightarrow> set kvs \<subseteq> set all \<Longrightarrow> list_all (\<lambda>kv. distinct_keys (snd kv)) kvs \<Longrightarrow>
     object_leaves pre kvs = map (leaf_in pre (GMap all)) (object_paths kvs)"
  "drop i everything = xs \<Longrightarrow> list_all distinct_keys xs \<Longrightarrow>
     item_leaves pre i xs = map (leaf_in pre (GArr everything)) (item_paths i xs)"
proof (induction pre k v and pre kvs and pre i xs arbitrary: and all and everything
    rule: leaves_object_leaves_item_leaves.induct)
  case (1 pre k kvs)
  then have "object_leaves (pre @ k @ ''.'') kvs = map (leaf_in (pre @ k @ ''.'') (GMap kvs)) (object_paths kvs)"
    by (intro "1.IH") auto
  also have "\<dots> = map (leaf_under pre k (GMap kvs)) (object_paths kvs)"
    by (rule map_cong [OF refl]) (simp add: leaf_under_ne object_paths_ne)
  finally show ?case by simp
next
  case (2 pre k xs)
  then have "item_leaves (pre @ k @ ''.'') 0 xs = map (leaf_in (pre @ k @ ''.'') (GArr xs)) (item_paths 0 xs)"
    by (intro "2.IH") auto
  also have "\<dots> = map (leaf_under pre k (GArr xs)) (item_paths 0 xs)"
    by (rule map_cong [OF refl]) (simp add: leaf_under_ne item_paths_ne)
  finally show ?case by (auto simp: leaf_under_def split: option.split)
next
  case (5 pre k v kvs)
  have "follow (GMap all) (Member k # p) = follow v p" for p
    using "5.prems" gm_get_iff [of all k v] by simp
  then have "map (leaf_under pre k v) (paths v) = map (leaf_in pre (GMap all)) (map ((#) (Member k)) (paths v))"
    by (simp add: leaf_in_Cons)
  with "5.IH" "5.prems" show ?case by simp
next
  case (7 pre i kvs xs)
  have at: "i < length everything" "everything ! i = GMap kvs" "drop (Suc i) everything = xs"
    using "7.prems"(1) by (simp_all add: drop_eq_Cons)
  have "follow (GArr everything) (Index i # p) = follow (GMap kvs) p" for p
    using at by (simp add: is_object_def)
  then have "map (leaf_in (pre @ dec_nat i @ ''.'') (GMap kvs)) (object_paths kvs)
      = map (leaf_in pre (GArr everything)) (map ((#) (Index i)) (object_paths kvs))"
    by (auto simp: leaf_in_Cons leaf_under_ne object_paths_ne)
  moreover have "object_leaves (pre @ dec_nat i @ ''.'') kvs
      = map (leaf_in (pre @ dec_nat i @ ''.'') (GMap kvs)) (object_paths kvs)"
    using "7.prems"(2) by (intro "7.IH"(1)) auto
  moreover have "item_leaves pre (Suc i) xs = map (leaf_in pre (GArr everything)) (item_paths (Suc i) xs)"
    using "7.prems"(2) at(3) by (intro "7.IH"(2)) auto
  ultimately show ?case by simp
qed (auto simp: leaf_under_def drop_eq_Cons)

section \<open>Where a type assertion fails\<close>

definition all_uniform :: "gval \<Rightarrow> bool" where
  "all_uniform v \<longleftrightarrow> (\<forall>p xs. follow v p = Some (GArr xs) \<longrightarrow> uniform xs)"

lemma all_uniform_GMap: "gm_ok kvs \<Longrightarrow> all_uniform (GMap kvs) \<longleftrightarrow> (\<forall>kv \<in> set kvs. all_uniform (snd kv))"
proof
  assume ok: "gm_ok kvs" and uni: "all_uniform (GMap kvs)"
  show "\<forall>kv \<in> set kvs. all_uniform (snd kv)"
    unfolding all_uniform_def
  proof (intro ballI allI impI)
    fix kv p xs
    assume "kv \<in> set kvs" "follow (snd kv) p = Some (GArr xs)"
    then have "follow (GMap kvs) (Member (fst kv) # p) = Some (GArr xs)"
      using gm_get_mem [OF ok] by simp
    with uni show "uniform xs" unfolding all_uniform_def by blast
  qed
next
  assume ok: "gm_ok kvs" and uni: "\<forall>kv \<in> set kvs. all_uniform (snd kv)"
  show "all_uniform (GMap kvs)"
    unfolding all_uniform_def
  proof (intro allI impI)
    fix p xs
    assume "follow (GMap kvs) p = Some (GArr xs)"
    then obtain k q v where "p = Member k # q" "(k, v) \<in> set kvs" "follow v q = Some (GArr xs)"
      by (cases "(GMap kvs, p)" rule: follow.cases) (auto simp: bind_eq_Some_conv gm_get_iff [OF ok])
    with uni show "uniform xs" by (auto simp: all_uniform_def)
  qed
qed

lemma all_uniform_GArr:
  "all_uniform (GArr xs) \<longleftrightarrow> uniform xs \<and> (\<forall>x \<in> set xs. is_object x \<longrightarrow> all_uniform x)"
proof
  assume uni: "all_uniform (GArr xs)"
  have "uniform xs"
    using uni unfolding all_uniform_def by (metis follow.simps(1))
  moreover have "all_uniform x" if "x \<in> set xs" "is_object x" for x
    unfolding all_uniform_def
  proof (intro allI impI)
    fix p ys
    assume "follow x p = Some (GArr ys)"
    moreover from that obtain i where "i < length xs" "xs ! i = x" by (auto simp: in_set_conv_nth)
    ultimately have "follow (GArr xs) (Index i # p) = Some (GArr ys)" using that(2) by simp
    with uni show "uniform ys" unfolding all_uniform_def by blast
  qed
  ultimately show "uniform xs \<and> (\<forall>x \<in> set xs. is_object x \<longrightarrow> all_uniform x)" by blast
next
  assume uni: "uniform xs \<and> (\<forall>x \<in> set xs. is_object x \<longrightarrow> all_uniform x)"
  show "all_uniform (GArr xs)"
    unfolding all_uniform_def
  proof (intro allI impI)
    fix p ys
    assume follow: "follow (GArr xs) p = Some (GArr ys)"
    show "uniform ys"
    proof (cases "(GArr xs, p)" rule: follow.cases)
      case (1 v)
      with follow uni show ?thesis by simp
    next
      case (3 zs i q)
      with follow uni show ?thesis by (auto simp: all_uniform_def split: if_splits)
    qed (use follow in auto)
  qed
qed

lemma regular_items_iff: "regular_items xs \<longleftrightarrow> (\<forall>x \<in> set xs. is_object x \<longrightarrow> regular x)"
proof (induction xs)
  case (Cons x xs)
  then show ?case by (cases x) (auto simp: is_object_def)
qed simp

lemma regular_iff: "distinct_keys v \<Longrightarrow> regular v \<longleftrightarrow> all_uniform v"
proof (induction v rule: distinct_keys.induct)
  case (1 kvs)
  then show ?case by (auto simp: regular_object_iff all_uniform_GMap list_all_iff)
next
  case (2 xs)
  then show ?case by (auto simp: regular_items_iff all_uniform_GArr list_all_iff)
qed (auto simp: all_uniform_def elim: follow.elims)

section \<open>Decoded documents\<close>

lemma gm_of_list_mem: "kv \<in> set (gm_of_list kvs) \<Longrightarrow> kv \<in> set kvs"
proof -
  assume "kv \<in> set (gm_of_list kvs)"
  then have "gm_get (gm_of_list kvs) (fst kv) = Some (snd kv)" by (rule gm_get_mem [OF gm_of_list_ok])
  then show ?thesis by (auto simp: gm_of_list_get dest!: map_of_SomeD)
qed

lemma distinct_keys_members:
  "(\<And>kv. kv \<in> set kvs \<Longrightarrow> distinct_keys (f (snd kv))) \<Longrightarrow>
     distinct_keys (GMap (range_order L (gm_of_list (map (\<lambda>kv. (fst kv, f (snd kv))) kvs))))"
  by (auto simp: list_all_iff gm_of_list_ok dest!: gm_of_list_mem)

lemma distinct_keys_decoded: "distinct_keys (to_gval L j)"
proof (induction L j rule: to_gval.induct)
  case (6 L kvs)
  then show ?case using distinct_keys_members [of kvs "to_gval L" L] by simp
qed (auto simp: list_all_iff split: option.split)

lemma distinct_keys_document: "distinct_keys (GMap (unmarshal_map L s))"
  using distinct_keys_members [of _ "to_gval L" L, OF distinct_keys_decoded]
  by (auto simp: unmarshal_map_def simp del: distinct_keys.simps(1) split: option.split json.split) simp_all

text \<open>Encoding a message, in terms of its document's places.\<close>

definition document :: "golib \<Rightarrow> string \<Rightarrow> gval" where
  "document L data = GMap (unmarshal_map L data)"

lemma document_leaves:
  "object_leaves [] (unmarshal_map L data) = map (the \<circ> leaf_at (document L data)) (paths (document L data))"
proof -
  have wf: "gm_ok (unmarshal_map L data)" "list_all (\<lambda>kv. distinct_keys (snd kv)) (unmarshal_map L data)"
    using distinct_keys_document [of L data] by simp_all
  have "leaf_in [] (document L data) p = the (leaf_at (document L data) p)" if "p \<in> set (paths (document L data))" for p
    using that paths_leafy [OF distinct_keys_document [of L data]]
    by (auto simp: document_def leaf_in_def leaf_at_def leafy_def)
  with leaves_paths(2) [OF wf(1) subset_refl wf(2), of "[]"] show ?thesis
    by (simp add: document_def)
qed

lemma document_places:
  "distinct (paths (document L data))" "p \<in> set (paths (document L data)) \<longleftrightarrow> leaf_at (document L data) p \<noteq> None"
  unfolding document_def leaf_at_Some
  by (rule paths_distinct(1) [OF distinct_keys_document], rule paths_leafy [OF distinct_keys_document])

lemma document_regular:
  "regular_object (unmarshal_map L data) \<longleftrightarrow>
     \<not> (\<exists>p xs. follow (document L data) p = Some (GArr xs) \<and> \<not> uniform xs)"
  using regular_iff [OF distinct_keys_document [of L data]] by (auto simp: document_def all_uniform_def)

end
