(* ===== verification/CoderProperties.thy ===== *)
theory CoderProperties
  imports Samples Startup Leaves
begin

text \<open>
  The properties of entities, their encoding from messages, and of the producer side.
\<close>

section \<open>From a message to an entity\<close>

text \<open>
  C10.  Encoding a message visits the leaves of its JSON document, each place that a path of names and indices
  leads to exactly once, in an order that the runtime's maps decide, and applies the field mapping of
  each to the entity.  It panics exactly when some path leads to an array that starts with a string, a
  number or a boolean and holds an element of another kind.  In the name of a leaf an index stands
  between dots, as in \<^verbatim>\<open>phones.0.type\<close>.
\<close>

theorem encode_visits_leaves:
  "if \<exists>p xs. follow (document L data) p = Some (GArr xs) \<and> \<not> uniform xs
   then encode L G enc key data = Inl (Panic TypeAssertion)
   else \<exists>ps. distinct ps \<and> set ps = {p. leaf_at (document L data) p \<noteq> None}
     \<and> encode L G enc key data
       = Inr (fold (flatten_leaf L G enc data key) (map (the \<circ> leaf_at (document L data)) ps) new_entity)"
proof -
  have "set (paths (document L data)) = {p. leaf_at (document L data) p \<noteq> None}"
    using document_places(2) [of _ L data] by blast
  then show ?thesis
    using document_places(1) [of L data] document_regular [of L data]
    by (auto simp: encode_spec document_leaves)
qed

text \<open>
  C28.  Without field mappings the entity has no identifier and no references, and its properties are the
  leaves of the document under their full names: a name is set if a leaf has it, and then to the value of
  one of the leaves with that name.  When a dotted name and a nested one coincide, which of the two it is
  depends on the order in which the runtime visits the maps.
\<close>

theorem encode_unmapped:
  assumes "new_entity_encoder config = Inr enc" and "cc_fieldMappings config = []"
    and "encode L G enc key data = Inr e"
  shows "ent_id e = [] \<and> \<not> ent_deleted e \<and> ent_refs e = []
    \<and> (gm_get (ent_props e) n = None
         \<longleftrightarrow> (\<nexists>p v. map_option leaf_prop (leaf_at (document L data) p) = Some (n, v)))
    \<and> (case gm_get (ent_props e) n of
         None \<Rightarrow> True | Some v \<Rightarrow> \<exists>p. map_option leaf_prop (leaf_at (document L data) p) = Some (n, v))"
proof -
  have cols: "enc_columns enc = []"
    using assms(1,2) by (simp add: new_entity_encoder_ok gm_of_list_def gm.put_all_Nil)
  let ?lfs = "map leaf_prop (object_leaves [] (unmarshal_map L data))"
  have e: "e = new_entity\<lparr>ent_props := gm_of_list ?lfs\<rparr>"
    using assms(3) by (auto simp: encode_spec fold_unmapped [OF cols] new_entity_def gm_of_list_def
        split: if_splits)
  have leaf: "(n, v) \<in> set ?lfs \<longleftrightarrow> (\<exists>p. map_option leaf_prop (leaf_at (document L data) p) = Some (n, v))" for v
    using document_places(2) [of _ L data] by (force simp: document_leaves)
  have "gm_get (ent_props e) n = map_of (rev ?lfs) n"
    using e by (simp add: new_entity_def gm_of_list_get)
  moreover have "map_of (rev lfs) n = None \<longleftrightarrow> (\<nexists>v. (n, v) \<in> set lfs)" for lfs :: "(string \<times> gval) list"
    by (force simp: map_of_eq_None_iff)
  moreover have "(n, v) \<in> set ?lfs" if "map_of (rev ?lfs) n = Some v" for v
    using map_of_SomeD [OF that] by (simp only: set_rev)
  ultimately show ?thesis
    using e leaf by (auto simp: new_entity_def split: option.split)
qed

theorem encode_unmapped_witness:
  "\<exists>e. encode sample_lib sample_gjson \<lparr>enc_config = sample_consumer, enc_columns = []\<rparr> ''k''
       ''{\"a\":{\"b\":[\"x\"]}}'' = Inr e
     \<and> gm_get (ent_props e) ''ns0:a.b'' \<noteq> None"
proof -
  let ?data = "''{\"a\":{\"b\":[\"x\"]}}''"
  let ?enc = "\<lparr>enc_config = sample_consumer, enc_columns = []\<rparr>"
  have "isl (encode sample_lib sample_gjson ?enc ''k'' ?data) = False" by code_simp
  then obtain e where e: "encode sample_lib sample_gjson ?enc ''k'' ?data = Inr e"
    by (cases "encode sample_lib sample_gjson ?enc ''k'' ?data") auto
  have enc: "new_entity_encoder sample_consumer = Inr ?enc" "cc_fieldMappings sample_consumer = []"
    by code_simp+
  have "map_option leaf_prop (leaf_at (document sample_lib ?data) [Member ''a'', Member ''b'']) = Some (''ns0:a.b'', GStrs [''x''])"
    by code_simp
  with encode_unmapped [OF enc e, of "''ns0:a.b''"] e show ?thesis by blast
qed

text \<open>
  C27.  With one identifier mapping, for the field \<open>k\<close>, an encoded message has the identifier the
  mapping builds, from the value at its path or from the message key, if a leaf of that name occurs
  anywhere in the document, and the empty identifier otherwise.
\<close>

theorem encode_identifier:
  assumes "only_id enc k m" and "encode L G enc key data = Inr e"
  shows "ent_id e =
    (if k \<in> (\<lambda>lf. fst (snd lf)) ` set (object_leaves [] (unmarshal_map L data))
     then id_text L G enc data key m else [])"
proof -
  have "e = fold (flatten_leaf L G enc data key) (object_leaves [] (unmarshal_map L data)) new_entity"
    using assms(2) by (auto simp: encode_spec split: if_splits)
  moreover have "(\<exists>pre v. (pre, k, v) \<in> set lfs) \<longleftrightarrow> k \<in> (\<lambda>lf. fst (snd lf)) ` set lfs" for lfs :: "(string \<times> string \<times> gval) list"
    by force
  ultimately show ?thesis by (simp add: fold_id [OF assms(1)] new_entity_def)
qed

definition sample_id_mapping :: field_mapping where
  "sample_id_mapping = zero_field_mapping\<lparr>fm_path := ''kafkaKey'', fm_fieldName := ''a'', fm_isIdField := True\<rparr>"

definition sample_id_encoder :: encoder where
  "sample_id_encoder = \<lparr>enc_config = sample_consumer, enc_columns = [(''a'', sample_id_mapping)]\<rparr>"

lemma sample_only_id: "only_id sample_id_encoder ''a'' sample_id_mapping"
  by (auto simp: only_id_def sample_id_encoder_def sample_id_mapping_def zero_field_mapping_def
      gm_get_def split: if_splits)

theorem encode_identifier_witness:
  "\<exists>e. encode sample_lib sample_gjson sample_id_encoder ''k1'' ''{\"o\":{\"a\":\"b\"}}'' = Inr e
     \<and> ent_id e = ''http://x/p/k1''"
proof -
  let ?data = "''{\"o\":{\"a\":\"b\"}}''"
  have "isl (encode sample_lib sample_gjson sample_id_encoder ''k1'' ?data) = False" by code_simp
  then obtain e where e: "encode sample_lib sample_gjson sample_id_encoder ''k1'' ?data = Inr e"
    by (cases "encode sample_lib sample_gjson sample_id_encoder ''k1'' ?data") auto
  have "id_text sample_lib sample_gjson sample_id_encoder ?data ''k1'' sample_id_mapping = ''http://x/p/k1''"
      "''a'' \<in> (\<lambda>lf. fst (snd lf)) ` set (object_leaves [] (unmarshal_map sample_lib ?data))"
    by code_simp+
  with encode_identifier [OF sample_only_id e] e show ?thesis by auto
qed

text \<open>
  An ignored field leaves no trace: the entity is the one the document's other leaves give,
  at whatever depth the field occurs.
\<close>

lemma encode_ignores:
  assumes "gm_get (enc_columns enc) k = Some m" and "fm_ignoreField m"
    and "encode L G enc key data = Inr e"
  shows "e = fold (flatten_leaf L G enc data key)
    (filter (\<lambda>lf. fst (snd lf) \<noteq> k) (object_leaves [] (unmarshal_map L data))) new_entity"
  using assms(3) fold_ignored [OF assms(1,2)] by (auto simp: encode_spec split: if_splits)

lemma encode_ignores_witness:
  "\<exists>e. encode sample_lib sample_gjson
       \<lparr>enc_config = sample_consumer, enc_columns = [(''a'', sample_id_mapping\<lparr>fm_ignoreField := True\<rparr>)]\<rparr>
       ''k1'' ''{\"a\":\"b\"}'' = Inr e \<and> ent_id e = []"
proof -
  let ?enc = "\<lparr>enc_config = sample_consumer, enc_columns = [(''a'', sample_id_mapping\<lparr>fm_ignoreField := True\<rparr>)]\<rparr>"
  let ?run = "encode sample_lib sample_gjson ?enc ''k1'' ''{\"a\":\"b\"}''"
  have "isl ?run = False" by code_simp
  then obtain e where e: "?run = Inr e" by (cases ?run) auto
  have "e = fold (flatten_leaf sample_lib sample_gjson ?enc ''{\"a\":\"b\"}'' ''k1'')
    (filter (\<lambda>lf. fst (snd lf) \<noteq> ''a'') (object_leaves [] (unmarshal_map sample_lib ''{\"a\":\"b\"}''))) new_entity"
    by (rule encode_ignores [OF _ _ e, where m = "sample_id_mapping\<lparr>fm_ignoreField := True\<rparr>"])
      (simp_all add: gm_get_def sample_id_mapping_def zero_field_mapping_def)
  moreover have "filter (\<lambda>lf. fst (snd lf) \<noteq> ''a'') (object_leaves [] (unmarshal_map sample_lib ''{\"a\":\"b\"}'')) = []"
    by code_simp
  ultimately show ?thesis using e by (simp add: new_entity_def)
qed

text \<open>
  C29.  Whatever the configuration, an encoded entity has its properties and references in the
  namespace \<^verbatim>\<open>ns0\<close>, each name once, and neither a context nor a token.
\<close>

theorem encode_in_namespace:
  assumes "encode_with_headers L G enc key data hs = Inr e"
  shows "in_ns0 e \<and> ent_token e = None \<and> ent_context e = []"
proof -
  obtain js1 js2 lfs1 lfs2 where
    "e = fold (flatten_leaf L G enc js2 key) lfs2 (fold (flatten_leaf L G enc js1 key) lfs1 new_entity)"
    using assms by (auto simp: encode_with_headers_def encode_spec flatten_spec split: if_splits)
  then show ?thesis
    using in_ns0_new by (auto simp: fold_frame intro!: in_ns0_fold) (simp_all add: new_entity_def)
qed

definition sample_headers :: "header list" where
  "sample_headers = [\<lparr>hd_key = ''Trace'', hd_value = ''1''\<rparr>]"

theorem encode_in_namespace_witness:
  "\<exists>e. encode_with_headers sample_lib sample_gjson sample_id_encoder ''k1'' ''{\"o\":1}'' sample_headers = Inr e
     \<and> in_ns0 e"
proof -
  let ?run = "encode_with_headers sample_lib sample_gjson sample_id_encoder ''k1'' ''{\"o\":1}'' sample_headers"
  have "isl ?run = False" by code_simp
  then obtain e where e: "?run = Inr e" by (cases ?run) auto
  with encode_in_namespace [OF e] show ?thesis by blast
qed

text \<open>
  Headers cannot make a message fail: with headers a message is encoded if and only if it is
  without.
\<close>

lemma headers_never_fail:
  "(\<exists>e. encode_with_headers L G enc key data hs = Inr e) \<longleftrightarrow> (\<exists>e. encode L G enc key data = Inr e)"
  using encode_with_headers_panics_iff [of L G enc key data hs]
  by (cases "encode L G enc key data"; cases "encode_with_headers L G enc key data hs") auto

section \<open>From an entity to a message\<close>

text \<open>
  C31.  When the identifier and the property names each have one colon and the local names
  differ, \<^verbatim>\<open>StripProps\<close> writes the identifier, the deleted flag and every property value under its
  local name.
\<close>

theorem strip_props_locals:
  assumes "prefixed i (ent_id e)"
    and "list_all2 (\<lambda>l kv. prefixed l (fst kv)) ls (ent_props e)" and "distinct ls"
  shows "strip_props L e = Inr (marshal L (GMap [(''id'', GStr i), (''deleted'', GBool (ent_deleted e)),
    (''props'', GMap (zip ls (map snd (ent_props e))))]))"
  using after_colon_of_prefixed [OF assms(1)] stripped_props_locals [OF assms(2,3)]
  by (simp add: strip_props_def)

definition sample_entity :: entity where
  "sample_entity = new_entity\<lparr>ent_id := ''ns0:1'', ent_props := [(''ns0:a'', GStr ''x''), (''ns1:b'', GBool True)]\<rparr>"

lemma sample_prefixed: "prefixed ''1'' ''ns0:1''" "prefixed ''a'' ''ns0:a''" "prefixed ''b'' ''ns1:b''"
  by (auto simp: prefixed_def intro: exI [of _ "''ns0''"] exI [of _ "''ns1''"])

theorem strip_props_locals_witness:
  "strip_props sample_lib sample_entity = Inr ''{\"deleted\":false,\"id\":\"1\",\"props\":{\"a\":\"x\",\"b\":true}}''"
proof -
  have "strip_props sample_lib sample_entity = Inr (marshal sample_lib
      (GMap [(''id'', GStr ''1''), (''deleted'', GBool (ent_deleted sample_entity)),
        (''props'', GMap (zip [''a'', ''b''] (map snd (ent_props sample_entity))))]))"
    by (rule strip_props_locals)
      (simp_all add: sample_entity_def sample_prefixed)
  also have "\<dots> = Inr ''{\"deleted\":false,\"id\":\"1\",\"props\":{\"a\":\"x\",\"b\":true}}''"
    by code_simp
  finally show ?thesis .
qed

text \<open>
  C32.  \<^verbatim>\<open>StripProps\<close> returns if and only if the identifier and every property name have a colon;
  otherwise it panics.
\<close>

theorem strip_props_returns:
  "(\<exists>s. strip_props L e = Inr s) \<longleftrightarrow>
     CHR '':'' \<in> set (ent_id e) \<and> (\<forall>k \<in> fst ` set (ent_props e). CHR '':'' \<in> set k)"
  using after_colon_Inr_iff [of "ent_id e"] stripped_props_Inr_iff [of "ent_props e"]
  by (auto simp: strip_props_def go_bind_eq_Inr)

theorem strip_props_returns_witness:
  "\<nexists>s. strip_props sample_lib (sample_entity\<lparr>ent_id := ''1''\<rparr>) = Inr s"
  using strip_props_returns [of sample_lib "sample_entity\<lparr>ent_id := ''1''\<rparr>"] by simp

text \<open>
  An identifier with a second colon is cut there: what follows it is lost, so different
  entities can be written with one identifier.
\<close>

lemma strip_props_truncates:
  assumes "CHR '':'' \<notin> set p" and "CHR '':'' \<notin> set l" and "ent_props e = []"
  shows "strip_props L (e\<lparr>ent_id := p @ CHR '':'' # l @ CHR '':'' # r\<rparr>)
    = strip_props L (e\<lparr>ent_id := p @ CHR '':'' # l @ CHR '':'' # r'\<rparr>)
    \<and> strip_props L (e\<lparr>ent_id := p @ CHR '':'' # l @ CHR '':'' # r\<rparr>)
      = Inr (marshal L (GMap [(''id'', GStr (l @ '':'')), (''deleted'', GBool (ent_deleted e)), (''props'', GMap [])]))"
  using assms by (simp add: strip_props_def after_colon_two stripped_props_def)

lemma strip_props_truncates_witness:
  "strip_props sample_lib (new_entity\<lparr>ent_id := ''ns0:a:1''\<rparr>) = strip_props sample_lib (new_entity\<lparr>ent_id := ''ns0:a:2''\<rparr>)"
  using strip_props_truncates [of "''ns0''" "''a''" new_entity sample_lib "''1''" "''2''"]
  by (simp add: new_entity_def)

section \<open>Uploads\<close>

text \<open>
  C5.  An accepted upload is complete: when the body is a context and entities, the dataset is
  configured, each entity has a text and the topic takes every batch, the reply is 200 and the topic of
  the dataset got one message for each entity, in order, with its text and the configured key,
  in batches of at most 10000.
\<close>

theorem upload_writes_all:
  assumes "st_values body = v # vs" and "as_context v = Inr cx"
    and "list_all2 (\<lambda>v e. as_entity v = Inr e) vs es"
    and "config_for_dataset ps d = Some c" and "writer_fine W"
    and "\<forall>e \<in> set es. isl (entity_value L c cx e) = False"
  shows "\<exists>st' ws. produce batch_size (produce_entities L U W ps d) body st = (st', Reply 200 [])
    \<and> pr_written st' = pr_written st @ ws
    \<and> list_all2 (message_for L U c cx) es (concat (map snd ws))
    \<and> (\<forall>w \<in> set ws. fst w = topic_used c d st \<and> length (snd w) \<le> 10000)"
  using produce_ok [OF assms, of batch_size U st] by (simp add: batch_size_def)

definition sample_producer :: producer_config where
  "sample_producer = zero_producer_config\<lparr>pc_dataset := ''ds'', pc_topic := ''t'', pc_key := Some ''id''\<rparr>"

definition sample_body :: stream where
  "sample_body = \<lparr>st_values = [GMap [(''id'', GStr ''@context'')], GMap [(''id'', GStr ''ns0:1'')]], st_error = None\<rparr>"

definition no_writers :: producers where
  "no_writers = \<lparr>pr_writers = [], pr_written = [], pr_uuids = 0\<rparr>"

lemma sample_upload:
  "as_context (GMap [(''id'', GStr ''@context'')]) = Inr (empty_ctx\<lparr>ctx_id := ''@context''\<rparr>)"
  "as_entity (GMap [(''id'', GStr ''ns0:1'')]) = Inr (new_entity\<lparr>ent_id := ''ns0:1''\<rparr>)"
  "config_for_dataset [sample_producer] ''ds'' = Some sample_producer"
  by code_simp+

lemma sample_writer: "writer_fine (\<lambda>_ ms. (ms, None))"
  by (simp add: writer_fine_def)

theorem upload_writes_all_witness:
  "\<exists>st' ws. produce batch_size (produce_entities sample_lib (\<lambda>_. []) (\<lambda>_ ms. (ms, None)) [sample_producer] ''ds'')
       sample_body no_writers = (st', Reply 200 [])
     \<and> pr_written st' = pr_written no_writers @ ws
     \<and> list_all2 (message_for sample_lib (\<lambda>_. []) sample_producer (empty_ctx\<lparr>ctx_id := ''@context''\<rparr>))
         [new_entity\<lparr>ent_id := ''ns0:1''\<rparr>] (concat (map snd ws))"
proof -
  have "st_values sample_body = GMap [(''id'', GStr ''@context'')] # [GMap [(''id'', GStr ''ns0:1'')]]"
    by (simp add: sample_body_def)
  moreover have "list_all2 (\<lambda>v e. as_entity v = Inr e) [GMap [(''id'', GStr ''ns0:1'')]] [new_entity\<lparr>ent_id := ''ns0:1''\<rparr>]"
    by (simp add: sample_upload)
  moreover have "\<forall>e \<in> set [new_entity\<lparr>ent_id := ''ns0:1''\<rparr>].
      isl (entity_value sample_lib sample_producer (empty_ctx\<lparr>ctx_id := ''@context''\<rparr>) e) = False"
    by (simp add: entity_value_def sample_producer_def zero_producer_config_def)
  ultimately show ?thesis
    using upload_writes_all [OF _ sample_upload(1) _ sample_upload(3) sample_writer, of sample_body
        "[GMap [(''id'', GStr ''ns0:1'')]]" "[new_entity\<lparr>ent_id := ''ns0:1''\<rparr>]" sample_lib "\<lambda>_. []" no_writers]
    by blast
qed

text \<open>
  C19.  The handler works in batches: it gives the entities to the producer in chunks of the batch
  size, in order, and stops at the first chunk that fails; the reply tells whether one did.
\<close>

theorem upload_in_batches:
  assumes "st_values body = v # vs" and "as_context v = Inr cx"
    and "list_all2 (\<lambda>v e. as_entity v = Inr e) vs es" and "0 < n"
  shows "produce n P body st = reply_of (produce_batches P cx (chunks n es) st)"
  using assms by (rule produce_spec)

theorem upload_in_batches_witness:
  "produce 1 (\<lambda>_ es st. (st, Inl (Err ''down''))) sample_body no_writers
     = (no_writers, ReplyError 400 ''could not parse the json payload'')"
proof -
  have "produce 1 (\<lambda>_ es st. (st, Inl (Err ''down''))) sample_body no_writers
      = reply_of (produce_batches (\<lambda>_ es st. (st, Inl (Err ''down''))) (empty_ctx\<lparr>ctx_id := ''@context''\<rparr>)
          (chunks 1 [new_entity\<lparr>ent_id := ''ns0:1''\<rparr>]) no_writers)"
    by (rule upload_in_batches [OF _ sample_upload(1), where vs = "[GMap [(''id'', GStr ''ns0:1'')]]"])
      (simp_all add: sample_body_def sample_upload)
  then show ?thesis by (simp add: chunks.simps produce_batches_def reply_of_def)
qed

text \<open>
  References are not read from an upload: of two bodies that differ only in the \<^verbatim>\<open>refs\<close> of an
  entity the same entity is made, and it has none.
\<close>

lemma upload_drops_refs:
  "as_entity (GMap (gm_put ''refs'' r m)) = as_entity (GMap m)
    \<and> (as_entity (GMap m) = Inr e \<longrightarrow> ent_refs e = [])"
proof
  show "as_entity (GMap (gm_put ''refs'' r m)) = as_entity (GMap m)"
    by (simp add: as_entity_def gm_index_def map_rules cong: if_cong)
qed (use as_entity_eq in blast)

lemma upload_drops_refs_witness:
  "\<exists>e. as_entity (GMap [(''id'', GStr ''ns0:1''), (''refs'', GMap [(''ns0:r'', GStr ''ns0:2'')])]) = Inr e
     \<and> ent_refs e = []"
proof -
  let ?m = "[(''id'', GStr ''ns0:1''), (''refs'', GMap [(''ns0:r'', GStr ''ns0:2'')])]"
  have "isl (as_entity (GMap ?m)) = False" by code_simp
  then obtain e where e: "as_entity (GMap ?m) = Inr e" by (cases "as_entity (GMap ?m)") auto
  with upload_drops_refs [of GNil ?m e] show ?thesis by blast
qed

section \<open>Topics\<close>

text \<open>
  A topic is created as configured, and with unlimited retention unless a retention is given.
\<close>

lemma topic_spec_retention:
  assumes "topic_spec_for c = Inr s" and "pc_topicSettings c = Some ts" and "pred_option gm_ok (ts_config ts)"
  shows "tp_topic s = pc_topic c \<and> tp_partitions s = ts_partitions ts \<and> tp_replicas s = ts_replicas ts
    \<and> gm_get (tp_config s) k =
        (case Option.bind (ts_config ts) (\<lambda>m. gm_get m k) of
           Some v \<Rightarrow> Some v
         | None \<Rightarrow> if k = ''retention.ms'' then Some ''-1'' else None)"
  using assms by (rule topic_spec_for_retention)

lemma topic_spec_retention_witness:
  "\<exists>s. topic_spec_for (sample_producer\<lparr>pc_topicSettings := Some zero_topic_settings\<rparr>) = Inr s
     \<and> gm_get (tp_config s) ''retention.ms'' = Some ''-1''"
proof -
  let ?c = "sample_producer\<lparr>pc_topicSettings := Some zero_topic_settings\<rparr>"
  obtain s where s: "topic_spec_for ?c = Inr s" using topic_spec_for_Inr_iff [of ?c] by auto
  with topic_spec_retention [OF s, of zero_topic_settings "''retention.ms''"] show ?thesis
    by (simp add: zero_topic_settings_def)
qed

text \<open>
  One topic to be created without settings stops the creation of all: the program panics
  before the admin client is asked for any.
\<close>

lemma topic_without_settings_panics:
  assumes "c \<in> set ps" and "pc_createTopic c" and "pc_topicSettings c = None"
  shows "init_topics A ps = (None, Inl (Panic NilDereference))"
  using assms by (rule init_topics_panics)

lemma topic_without_settings_panics_witness:
  "init_topics (\<lambda>_. None) [sample_producer, sample_producer\<lparr>pc_createTopic := True\<rparr>]
     = (None, Inl (Panic NilDereference))"
  by (rule topic_without_settings_panics [of "sample_producer\<lparr>pc_createTopic := True\<rparr>"])
    (simp_all add: sample_producer_def zero_producer_config_def)

section \<open>Uploads after a change of configuration\<close>

text \<open>
  C36.  The topic a dataset is first uploaded to is the one it is uploaded to from then on: whatever is
  uploaded in between and however the configuration changes, a later upload of the dataset writes to the
  topic of the first, not to the configured one.
\<close>

theorem upload_keeps_first_topic:
  assumes "gm_get (pr_writers st) d = None" and "config_for_dataset ps d = Some c"
    and "produce_entities L U W ps' d cx' es' (produce_all L U W calls (fst (produce_entities L U W ps d cx es st)))
      = (st', r)"
  shows "pr_written st' = pr_written (produce_all L U W calls (fst (produce_entities L U W ps d cx es st)))
    \<or> fst (last (pr_written st')) = pc_topic c"
  by (rule written_topic [OF assms(3) writer_stays_all [OF writer_made [OF assms(1,2)]]])

theorem upload_keeps_first_topic_witness:
  "fst (last (pr_written (fst (produce_entities sample_lib (\<lambda>_. []) (\<lambda>_ ms. (ms, None))
     [sample_producer\<lparr>pc_topic := ''other''\<rparr>] ''ds'' empty_ctx [new_entity\<lparr>ent_id := ''ns0:1''\<rparr>]
     (produce_all sample_lib (\<lambda>_. []) (\<lambda>_ ms. (ms, None)) []
       (fst (produce_entities sample_lib (\<lambda>_. []) (\<lambda>_ ms. (ms, None)) [sample_producer] ''ds'' empty_ctx
         [new_entity\<lparr>ent_id := ''ns0:1''\<rparr>] no_writers)))))))
   = ''t''"
proof -
  let ?e = "[new_entity\<lparr>ent_id := ''ns0:1''\<rparr>]" and ?W = "\<lambda>_ ms. (ms, None)"
  let ?st1 = "produce_all sample_lib (\<lambda>_. []) ?W []
    (fst (produce_entities sample_lib (\<lambda>_. []) ?W [sample_producer] ''ds'' empty_ctx ?e no_writers))"
  let ?r = "produce_entities sample_lib (\<lambda>_. []) ?W [sample_producer\<lparr>pc_topic := ''other''\<rparr>] ''ds'' empty_ctx ?e ?st1"
  have "gm_get (pr_writers no_writers) ''ds'' = None" by code_simp
  moreover have "length (pr_written (fst ?r)) \<noteq> length (pr_written ?st1)" by code_simp
  ultimately show ?thesis
    using upload_keeps_first_topic [OF _ sample_upload(3), of no_writers sample_lib "\<lambda>_. []" ?W
        "[sample_producer\<lparr>pc_topic := ''other''\<rparr>]" empty_ctx ?e "[]" empty_ctx ?e "fst ?r" "snd ?r"]
    by (auto simp: sample_producer_def)
qed

end
