(* ===== verification/Auth.thy ===== *)
theory Auth
  imports Http ConfigJson Env
begin

text \<open>
  \<^verbatim>\<open>internal/web/middlewares\<close>: the JWT check (\<^verbatim>\<open>auth0.go\<close>), the authorizer (\<^verbatim>\<open>authorization.go\<close>)
  and the recovery of panics (\<^verbatim>\<open>recover.go\<close>).  The JWT package is a record of functions:
  \<open>jw_parse\<close> is \<^verbatim>\<open>ParseWithClaims\<close>, given the text and the function that supplies the key,
  \<open>jw_rsa_key\<close> reads a certificate (nil when it cannot), \<open>jw_modulus\<close> is the decimal text of a key's
  modulus, the other two are the claim checks.
  \<open>intersect\<close> is the function of that name of the set package.
\<close>

type_synonym rsa_key = nat

record jwtlib =
  jw_parse :: "string \<Rightarrow> (token \<Rightarrow> rsa_key option go) \<Rightarrow> token go"
  jw_rsa_key :: "string \<Rightarrow> rsa_key option"
  jw_modulus :: "rsa_key \<Rightarrow> string"
  jw_verify_audience :: "claims \<Rightarrow> string \<Rightarrow> bool \<Rightarrow> bool"
  jw_verify_issuer :: "claims \<Rightarrow> string \<Rightarrow> bool \<Rightarrow> bool"

record auth0_config =
  ac_audience :: string
  ac_issuer :: string
  ac_audienceAuth0 :: string
  ac_issuerAuth0 :: string

record jwk =
  jk_kty :: string
  jk_kid :: string
  jk_use :: string
  jk_n :: string
  jk_e :: string
  jk_x5c :: "string list"

text \<open>What \<^verbatim>\<open>setupJWT\<close> takes from the environment.\<close>

definition setup_jwt :: "auth_config \<Rightarrow> auth0_config" where
  "setup_jwt a = \<lparr>ac_audience = ac_Audience a, ac_issuer = ac_Issuer a,
     ac_audienceAuth0 = ac_AudienceAuth0 a, ac_issuerAuth0 = ac_IssuerAuth0 a\<rparr>"

section \<open>The key set\<close>

definition zero_jwk :: jwk where
  "zero_jwk = \<lparr>jk_kty = [], jk_kid = [], jk_use = [], jk_n = [], jk_e = [], jk_x5c = []\<rparr>"

definition dec_jwk :: "jwk decoder_of" where
  "dec_jwk = dec_struct
     [field ''kty'' jk_kty jk_kty_update dec_string, field ''kid'' jk_kid jk_kid_update dec_string,
      field ''use'' jk_use jk_use_update dec_string, field ''n'' jk_n jk_n_update dec_string,
      field ''e'' jk_e jk_e_update dec_string,
      field ''x5c'' jk_x5c jk_x5c_update (dec_slice [] dec_string)]"

text \<open>\<^verbatim>\<open>Jwks\<close> has one field.\<close>

definition dec_jwks :: "jwk list decoder_of" where
  "dec_jwks = dec_struct [(''keys'', dec_slice zero_jwk dec_jwk)]"

text \<open>
  The loader of the cache: \<open>H\<close> gets the well-known URL, an error or the JSON value its body starts
  with (an error of its own when there is none).  A document without keys is a key set all the
  same.
\<close>

definition load_jwks :: "(string \<Rightarrow> string + (string + json)) \<Rightarrow> string \<Rightarrow> string + jwk list option" where
  "load_jwks H wellknown =
     (case H wellknown of
        Inl e \<Rightarrow> Inl e
      | Inr (Inl e) \<Rightarrow> Inl e
      | Inr (Inr j) \<Rightarrow>
          (case dec_jwks j [] of
             None \<Rightarrow> Inl ''json: cannot unmarshal''
           | Some keys \<Rightarrow> Inr (Some keys)))"

section \<open>Tokens and keys\<close>

text \<open>The header is \<^verbatim>\<open>Bearer\<close>, one character that is not looked at, and the token.\<close>

definition extract_token :: "string \<Rightarrow> string go" where
  "extract_token auth =
     (if length auth > 7 \<and> take 6 auth = ''Bearer'' then Inr (drop 7 auth)
      else Inl (Err ''code=400, message=missing or malformed jwt''))"

definition pem_of :: "string \<Rightarrow> string" where
  "pem_of x = ''-----BEGIN CERTIFICATE-----'' @ [CHR 10] @ x @ [CHR 10] @ ''-----END CERTIFICATE-----''"

text \<open>
  The key set comes from a loading cache: an error, a value of another type (\<open>None\<close>), or the
  keys.  Each matching key replaces the certificate found before.
\<close>

fun find_cert :: "string option \<Rightarrow> jwk list \<Rightarrow> string \<Rightarrow> string go" where
  "find_cert kid [] cert = Inr cert"
| "find_cert kid (k # ks) cert =
     (if kid = Some (jk_kid k) then
        (case jk_x5c k of
           [] \<Rightarrow> Inl (Panic IndexOutOfRange)
         | x # _ \<Rightarrow> find_cert kid ks (pem_of x))
      else find_cert kid ks cert)"

definition get_pem_cert :: "token \<Rightarrow> string + jwk list option \<Rightarrow> string go" where
  "get_pem_cert tok result =
     (case result of
        Inl err \<Rightarrow> Inl (Err err)
      | Inr None \<Rightarrow> Inl (Err ''No Jwks returned'')
      | Inr (Some keys) \<Rightarrow>
          go_bind (find_cert (tk_kid tok) keys []) (\<lambda>cert.
            if cert = [] then Inl (Err ''Unable to find appropriate key.'') else Inr cert))"

definition key_func :: "jwtlib \<Rightarrow> string + jwk list option \<Rightarrow> token \<Rightarrow> rsa_key option go" where
  "key_func J jwks tok =
     (case get_pem_cert tok jwks of
        Inl (Panic p) \<Rightarrow> Inl (Panic p)
      | Inl (Err err) \<Rightarrow> Inl (Err (''code=401, message='' @ err))
      | Inr cert \<Rightarrow> Inr (jw_rsa_key J cert))"

text \<open>\<^verbatim>\<open>SigningKey\<close>: the parse error is dropped and the nil key dereferenced.\<close>

definition signing_key :: "jwtlib \<Rightarrow> string + jwk list option \<Rightarrow> token \<Rightarrow> string go" where
  "signing_key J jwks tok =
     (case get_pem_cert tok jwks of
        Inl (Panic p) \<Rightarrow> Inl (Panic p)
      | Inl (Err _) \<Rightarrow> Inr []
      | Inr cert \<Rightarrow>
          (case jw_rsa_key J cert of
             None \<Rightarrow> Inl (Panic NilDereference)
           | Some k \<Rightarrow> Inr (jw_modulus J k)))"

section \<open>The JWT middleware\<close>

definition skipper :: "request \<Rightarrow> bool" where
  "skipper c \<longleftrightarrow> has_prefix (rq_path c) ''/health''"

definition expected :: "auth0_config \<Rightarrow> claims \<Rightarrow> string \<times> string" where
  "expected cfg cl =
     (if str_index (cl_issuer cl) ''auth0.com'' \<noteq> -1 then (ac_audienceAuth0 cfg, ac_issuerAuth0 cfg)
      else (ac_audience cfg, ac_issuer cfg))"

text \<open>Each failed check overwrites the error of the one before.\<close>

definition claim_error :: "jwtlib \<Rightarrow> auth0_config \<Rightarrow> token \<Rightarrow> string option" where
  "claim_error J cfg tok =
     (let cl = tk_claims tok;
          (audience, issuer) = expected cfg cl;
          e1 = (if jw_verify_audience J cl audience False then None else Some ''invalid audience'');
          e2 = (if jw_verify_issuer J cl issuer False then e1 else Some ''invalid issuer'');
          e3 = (if tk_alg tok = ''RS256'' then e2 else Some ''non matching signing method'')
      in e3)"

definition jwt_handler :: "jwtlib \<Rightarrow> auth0_config \<Rightarrow> string + jwk list option \<Rightarrow> middleware" where
  "jwt_handler J cfg jwks next_handler c =
     (if skipper c then next_handler c
      else case extract_token (rq_authorization c) of
        Inl (Panic p) \<Rightarrow> ReplyPanic None p
      | Inl (Err err) \<Rightarrow> ReplyError 401 err
      | Inr auth \<Rightarrow>
          (case jw_parse J auth (key_func J jwks) of
             Inl (Panic p) \<Rightarrow> ReplyPanic None p
           | Inl (Err err) \<Rightarrow> ReplyError 401 err
           | Inr tok \<Rightarrow>
               (case claim_error J cfg tok of
                  None \<Rightarrow> next_handler (c\<lparr>rq_user := Some tok\<rparr>)
                | Some err \<Rightarrow> ReplyError 401 err)))"

text \<open>The token a request proves to hold.\<close>

definition accepted :: "jwtlib \<Rightarrow> auth0_config \<Rightarrow> string + jwk list option \<Rightarrow> request \<Rightarrow> token option" where
  "accepted J cfg jwks c =
     (case extract_token (rq_authorization c) of
        Inl _ \<Rightarrow> None
      | Inr auth \<Rightarrow>
          (case jw_parse J auth (key_func J jwks) of
             Inl _ \<Rightarrow> None
           | Inr tok \<Rightarrow> (if claim_error J cfg tok = None then Some tok else None)))"

definition jwt_allow :: "jwtlib \<Rightarrow> auth0_config \<Rightarrow> string + jwk list option \<Rightarrow> request \<Rightarrow> bool" where
  "jwt_allow J cfg jwks c \<longleftrightarrow> skipper c \<or> accepted J cfg jwks c \<noteq> None"

definition jwt_pass :: "jwtlib \<Rightarrow> auth0_config \<Rightarrow> string + jwk list option \<Rightarrow> request \<Rightarrow> request" where
  "jwt_pass J cfg jwks c = (if skipper c then c else c\<lparr>rq_user := accepted J cfg jwks c\<rparr>)"

section \<open>The authorizer\<close>

definition scopes :: "claims \<Rightarrow> string list" where
  "scopes cl = split_on (CHR '','') (cl_scope cl)"

definition claim_scopes :: "claims \<Rightarrow> string list" where
  "claim_scopes cl = (case scopes cl of [] \<Rightarrow> [] | s # _ \<Rightarrow> split_on (CHR '' '') s)"

definition authorize ::
  "(string list \<Rightarrow> string list \<Rightarrow> string list) \<Rightarrow> string list \<Rightarrow> middleware" where
  "authorize intersect wanted next_handler c =
     (case rq_user c of
        None \<Rightarrow> ReplyError 403 ''user not set''
      | Some tok \<Rightarrow>
          (if cl_gty (tk_claims tok) = ''client-credentials'' then
             (if intersect (claim_scopes (tk_claims tok)) wanted = []
              then ReplyError 403 ''user attempted login with missing or wrong scope''
              else next_handler c)
           else if \<not> cl_adm (tk_claims tok) then
             (if str_index (rq_uri c) (cl_subject (tk_claims tok)) = -1
              then ReplyError 403 ''user has no access to path''
              else next_handler c)
           else next_handler c))"

definition no_op_authorizer :: "string list \<Rightarrow> middleware" where
  "no_op_authorizer wanted next_handler c = next_handler c"

text \<open>The authorizer's policy as a predicate of the token and the request.\<close>

definition permits :: "string list \<Rightarrow> token \<Rightarrow> string \<Rightarrow> bool" where
  "permits wanted tok uri \<longleftrightarrow>
     (if cl_gty (tk_claims tok) = ''client-credentials''
      then set (claim_scopes (tk_claims tok)) \<inter> set wanted \<noteq> {}
      else cl_adm (tk_claims tok) \<or> str_contains uri (cl_subject (tk_claims tok)))"

definition auth_allow ::
  "(string list \<Rightarrow> string list \<Rightarrow> string list) \<Rightarrow> string list \<Rightarrow> request \<Rightarrow> bool" where
  "auth_allow intersect wanted c \<longleftrightarrow>
     (case rq_user c of
        None \<Rightarrow> False
      | Some tok \<Rightarrow>
          (if cl_gty (tk_claims tok) = ''client-credentials''
           then intersect (claim_scopes (tk_claims tok)) wanted \<noteq> []
           else cl_adm (tk_claims tok) \<or> str_contains (rq_uri c) (cl_subject (tk_claims tok))))"

section \<open>Both are guards\<close>

interpretation jwt: guard "jwt_handler J cfg jwks" "jwt_allow J cfg jwks" "jwt_pass J cfg jwks"
    "jwt_handler J cfg jwks (\<lambda>_. Reply 0 [])" for J cfg jwks
  by unfold_locales
    (auto simp: jwt_handler_def jwt_allow_def jwt_pass_def accepted_def
      split: sum.split failure.split option.split)

interpretation auth: guard "authorize intersect wanted" "auth_allow intersect wanted" id
    "authorize intersect wanted (\<lambda>_. Reply 0 [])" for intersect wanted
  by unfold_locales
    (auto simp: authorize_def auth_allow_def str_index_neg_iff split: option.split)

interpretation secured: guard_pair
    "jwt_handler J cfg jwks" "jwt_allow J cfg jwks" "jwt_pass J cfg jwks"
    "jwt_handler J cfg jwks (\<lambda>_. Reply 0 [])"
    "authorize intersect wanted" "auth_allow intersect wanted" id
    "authorize intersect wanted (\<lambda>_. Reply 0 [])" for J cfg jwks intersect wanted
  by unfold_locales

lemma auth_allow_permits:
  "(\<And>a b. set (intersect a b) = set a \<inter> set b) \<Longrightarrow> rq_user c = Some tok \<Longrightarrow>
     auth_allow intersect wanted c \<longleftrightarrow> permits wanted tok (rq_uri c)"
  by (simp add: auth_allow_def permits_def flip: set_empty)

lemma accepted_claims:
  "accepted J cfg jwks c = Some tok \<Longrightarrow>
     jw_verify_audience J (tk_claims tok) (fst (expected cfg (tk_claims tok))) False
     \<and> jw_verify_issuer J (tk_claims tok) (snd (expected cfg (tk_claims tok))) False
     \<and> tk_alg tok = ''RS256''
     \<and> (\<exists>auth. extract_token (rq_authorization c) = Inr auth
          \<and> jw_parse J auth (key_func J jwks) = Inr tok)"
  by (auto simp: accepted_def claim_error_def Let_def split: sum.splits if_splits prod.splits)

text \<open>Passing both guards without a user in the request takes an accepted and permitted token.\<close>

lemma token_needed:
  assumes "jwt_allow J cfg jwks c" and "auth_allow intersect wanted (jwt_pass J cfg jwks c)"
    and "rq_user c = None" and "\<And>a b. set (intersect a b) = set a \<inter> set b"
  shows "\<exists>tok. accepted J cfg jwks c = Some tok \<and> permits wanted tok (rq_uri c)
    \<and> jwt_pass J cfg jwks c = c\<lparr>rq_user := Some tok\<rparr>"
proof -
  have "rq_user (jwt_pass J cfg jwks c) \<noteq> None"
    using assms(2) by (auto simp: auth_allow_def split: option.splits)
  then have skip: "\<not> skipper c" and "accepted J cfg jwks c \<noteq> None"
    using assms(3) by (auto simp: jwt_pass_def split: if_splits)
  then obtain tok where tok: "accepted J cfg jwks c = Some tok"
      and user: "rq_user (jwt_pass J cfg jwks c) = Some tok"
      and uri: "rq_uri (jwt_pass J cfg jwks c) = rq_uri c"
    by (auto simp: jwt_pass_def)
  have "permits wanted tok (rq_uri c)"
    using auth_allow_permits [of intersect "jwt_pass J cfg jwks c" tok wanted] assms(2,4) user uri by simp
  moreover have "jwt_pass J cfg jwks c = c\<lparr>rq_user := Some tok\<rparr>"
    using skip tok by (simp add: jwt_pass_def)
  ultimately show ?thesis using tok by blast
qed

section \<open>Keys\<close>

lemma find_cert_ok:
  "(\<forall>k \<in> set ks. kid = Some (jk_kid k) \<longrightarrow> jk_x5c k \<noteq> []) \<Longrightarrow>
     find_cert kid ks cert =
       Inr (case filter (\<lambda>k. kid = Some (jk_kid k)) ks of
              [] \<Rightarrow> cert | ms \<Rightarrow> pem_of (hd (jk_x5c (last ms))))"
  by (induction ks arbitrary: cert) (auto split: list.split)

section \<open>Recovery\<close>

text \<open>
  \<open>render\<close> is the body echo's error handler writes.  A panic after the response has begun leaves
  what was sent.
\<close>

definition recover_mw :: "(nat \<Rightarrow> string \<Rightarrow> string) \<Rightarrow> middleware" where
  "recover_mw render next_handler c =
     (case next_handler c of
        ReplyPanic None p \<Rightarrow> Reply 500 (render 500 ''Internal Server Error'')
      | ReplyPanic (Some sent) p \<Rightarrow> Reply 200 sent
      | r \<Rightarrow> r)"

text \<open>The logging middleware reports an error to echo at once and returns none.\<close>

definition logger_filter :: "(nat \<Rightarrow> string \<Rightarrow> string) \<Rightarrow> middleware" where
  "logger_filter render next_handler c =
     (if skipper c then next_handler c
      else case next_handler c of
        ReplyError code msg \<Rightarrow> Reply code (render code msg)
      | r \<Rightarrow> r)"

end
