(* ===== verification/Web.thy ===== *)
theory Web
  imports Auth Producer Consumer
begin

text \<open>
  \<^verbatim>\<open>internal/web\<close>: the dataset listing, the streaming handler, the health check, and the chain of
  middleware in front of them.  Routing is echo's; a handler is given the path parameter and the
  query parameters it asks for.
\<close>

section \<open>Listing the datasets\<close>

type_synonym dataset_types = "(string, string list) gomap"

definition add_producer :: "producer_config \<Rightarrow> dataset_types \<Rightarrow> dataset_types" where
  "add_producer p m = (if gm_get m (pc_dataset p) = None then gm_put (pc_dataset p) [''POST''] m else m)"

definition add_consumer :: "consumer_config \<Rightarrow> dataset_types \<Rightarrow> dataset_types" where
  "add_consumer c m =
     (case gm_get m (cc_dataset c) of
        Some _ \<Rightarrow> gm_put (cc_dataset c) [''GET'', ''POST''] m
      | None \<Rightarrow> gm_put (cc_dataset c) [''GET''] m)"

definition dataset_map :: "kafka_config \<Rightarrow> dataset_types" where
  "dataset_map kc = fold add_consumer (kc_consumers kc) (fold add_producer (kc_producers kc) [])"

definition dataset_json :: "string \<times> string list \<Rightarrow> json" where
  "dataset_json nt = JObj [(''name'', JStr (fst nt)), (''type'', JArr (map JStr (snd nt)))]"

text \<open>The map is ranged over to make the array: \<open>rank\<close> is the order of this visit.\<close>

definition list_datasets :: "(string \<Rightarrow> nat) \<Rightarrow> kafka_config \<Rightarrow> reply" where
  "list_datasets rank kc = Reply 200 (json_print (JArr (map dataset_json (gm_visit rank (dataset_map kc)))) @ [CHR 10])"

lemma add_producer_get:
  "gm_get (add_producer p m) d
     = (if d = pc_dataset p \<and> gm_get m d = None then Some [''POST''] else gm_get m d)"
  by (auto simp: add_producer_def map_rules)

lemma producers_get:
  "gm_get (fold add_producer ps m) d
     = (case gm_get m d of
          Some t \<Rightarrow> Some t
        | None \<Rightarrow> if d \<in> pc_dataset ` set ps then Some [''POST''] else None)"
  by (induction ps arbitrary: m) (auto simp: add_producer_get split: option.split)

lemma add_consumer_get:
  "gm_get (add_consumer c m) d
     = (if d = cc_dataset c
        then Some (if gm_get m d = None then [''GET''] else [''GET'', ''POST'']) else gm_get m d)"
  by (auto simp: add_consumer_def map_rules split: option.split)

text \<open>
  The types a dataset is listed with.  A second consumer of a dataset finds the entry of the first, as it
  would that of a producer.
\<close>

definition listed_types :: "kafka_config \<Rightarrow> string \<Rightarrow> string list option" where
  "listed_types kc d =
     (let readers = length (filter (\<lambda>c. cc_dataset c = d) (kc_consumers kc));
          writers = length (filter (\<lambda>p. pc_dataset p = d) (kc_producers kc)) in
      if readers = 0 \<and> writers = 0 then None
      else if readers = 0 then Some [''POST'']
      else if readers = 1 \<and> writers = 0 then Some [''GET'']
      else Some [''GET'', ''POST''])"

lemma consumers_get_all:
  "gm_get (fold add_consumer cs m) d
     = (let n = length (filter (\<lambda>c. cc_dataset c = d) cs) in
        if n = 0 then gm_get m d
        else if n = 1 \<and> gm_get m d = None then Some [''GET''] else Some [''GET'', ''POST''])"
  by (induction cs arbitrary: m) (auto simp: add_consumer_get Let_def)

lemma dataset_map_types: "gm_get (dataset_map kc) d = listed_types kc d"
proof -
  have "filter (\<lambda>p. pc_dataset p = d) ps = [] \<longleftrightarrow> d \<notin> pc_dataset ` set ps" for ps
    by (auto simp: filter_empty_conv)
  then show ?thesis
    by (auto simp: dataset_map_def listed_types_def consumers_get_all producers_get Let_def)
qed

lemma dataset_map_ok: "gm_ok (dataset_map kc)"
proof -
  have "gm_ok (fold add_producer ps m)" if "gm_ok m" for ps m
    using that by (induction ps arbitrary: m) (auto simp: add_producer_def map_rules)
  moreover have "gm_ok (fold add_consumer cs m)" if "gm_ok m" for cs m
    using that
    by (induction cs arbitrary: m) (auto simp: add_consumer_def map_rules split: option.split)
  ultimately show ?thesis by (simp add: dataset_map_def)
qed

section \<open>Streaming a dataset\<close>

text \<open>\<^verbatim>\<open>url.QueryUnescape\<close>; \<open>None\<close> is its error, on which it returns the empty string.\<close>

fun query_unescape :: "string \<Rightarrow> string option" where
  "query_unescape [] = Some []"
| "query_unescape (c # s) =
     (if c = CHR ''%'' then
        (case s of
           a # b # r \<Rightarrow>
             (case (hex_val a, hex_val b) of
                (Some x, Some y) \<Rightarrow> map_option (\<lambda>t. char_of (x * 16 + y) # t) (query_unescape r)
              | _ \<Rightarrow> None)
         | _ \<Rightarrow> None)
      else map_option (\<lambda>t. (if c = CHR ''+'' then CHR '' '' else c) # t) (query_unescape s))"

definition param_name :: "string \<Rightarrow> string" where
  "param_name p = (case query_unescape p of None \<Rightarrow> [] | Some d \<Rightarrow> d)"

definition limit_of :: "string \<Rightarrow> int" where
  "limit_of q = (if q = [] then -1 else fst (parse_int64 q))"

text \<open>What the callback writes for an entity: a comma and its JSON, the token in its own form.\<close>

definition emit_json :: "golib \<Rightarrow> entity \<Rightarrow> json" where
  "emit_json L e =
     (if ent_id e = ''@continuation''
      then of_gval L (GMap [(''id'', GStr ''@continuation''), (''token'', gm_index (ent_props e) ''token'')])
      else entity_json L e)"

definition line :: "json \<Rightarrow> string" where
  "line j = json_print j @ [CHR 10]"

definition body_so_far :: "golib \<Rightarrow> gval \<Rightarrow> entity list \<Rightarrow> string" where
  "body_so_far L cx es =
     CHR ''['' # line (of_gval L cx) @ concat (map (\<lambda>e. CHR '','' # line (emit_json L e)) es)"

text \<open>
  The configuration is read when the dataset is looked up (\<open>cs1\<close>) and again for the context
  (\<open>cs2\<close>): a reload may come between.  \<open>CS\<close> is \<^verbatim>\<open>ChangeSet\<close>.
\<close>

definition consume ::
  "golib \<Rightarrow> consumer_config list \<Rightarrow> consumer_config list
     \<Rightarrow> (dataset_request \<Rightarrow> (effect list \<times> unit go) option)
     \<Rightarrow> string \<Rightarrow> string \<Rightarrow> string \<Rightarrow> reply option" where
  "consume L cs1 cs2 CS param limit since =
     (let d = param_name param in
      if \<not> does_dataset_exist cs1 d then Some (Reply 404 [])
      else case get_context cs2 d of
        Inl (Panic p) \<Rightarrow> Some (ReplyPanic (Some ''['') p)
      | Inl (Err e) \<Rightarrow> Some (ReplyError 500 e)
      | Inr cx \<Rightarrow>
          map_option (\<lambda>(eff, r).
              case r of
                Inl (Panic p) \<Rightarrow> ReplyPanic (Some (body_so_far L cx (emitted eff))) p
              | _ \<Rightarrow> Reply 200 (body_so_far L cx (emitted eff) @ '']''))
            (CS \<lparr>rq_dataset = d, rq_since = since, rq_limit = limit_of limit\<rparr>))"

subsection \<open>The body is one JSON array\<close>

lemma skip_newline [simp]: "skip_ws (CHR 10 # s) = skip_ws s"
  by (simp add: skip_ws_def is_ws_def)

lemma p_elems_lines:
  "\<forall>x \<in> set (j # js). json_ok x \<Longrightarrow>
     2 * length (line j @ concat (map (\<lambda>x. CHR '','' # line x) js)) + 1 \<le> n \<Longrightarrow>
     p_elems n (line j @ concat (map (\<lambda>x. CHR '','' # line x) js) @ CHR '']'' # r) = Some (j # js, r)"
proof (induction js arbitrary: j n)
  case Nil
  then obtain m where "n = Suc m" by (cases n) (auto simp: line_def)
  with Nil show ?case
    by (simp add: line_def reads_backD reads_back_json)
next
  case (Cons k js)
  then obtain m where n: "n = Suc m" by (cases n) (auto simp: line_def)
  have "p_elems m (line k @ concat (map (\<lambda>x. CHR '','' # line x) js) @ CHR '']'' # r) = Some (k # js, r)"
    using Cons.prems n by (intro Cons.IH) (auto simp: line_def)
  with Cons.prems n show ?case
    by (simp add: line_def reads_backD reads_back_json)
qed

lemma parse_lines:
  assumes ok: "\<forall>x \<in> set (j # js). json_ok x \<and> json_depth x < max_depth"
  shows "json_parse (CHR ''['' # line j @ concat (map (\<lambda>x. CHR '','' # line x) js) @ '']'')
    = Some (JArr (j # js))"
proof -
  let ?t = "line j @ concat (map (\<lambda>x. CHR '','' # line x) js)"
  obtain c u where c: "json_print j = c # u" "\<not> is_ws c" "c \<noteq> CHR '']''"
    using ok json_print_head [of j] by auto
  have "p_elems (2 * length (CHR ''['' # ?t @ '']'') + 1) (?t @ '']'') = Some (j # js, [])"
    using p_elems_lines [of j js "2 * length (CHR ''['' # ?t @ '']'') + 1" "[]"] ok by simp
  then have "p_value (2 * length (CHR ''['' # ?t @ '']'') + 2) (CHR ''['' # ?t @ '']'') = Some (JArr (j # js), [])"
    using c by (simp add: line_def)
  moreover have "json_depth (JArr (j # js)) \<le> max_depth"
    using ok fold_max_le [of "map json_depth (j # js)" "max_depth - 1" 0]
    by (fastforce simp: max_depth_def)
  ultimately show ?thesis by (simp add: json_parse_def)
qed

lemma entity_json_ok: "lib_ok L \<Longrightarrow> json_ok (entity_json L e)"
  by (auto simp: entity_json_def json_ok_of_gval simp del: of_gval.simps split: option.split)

lemma emit_json_ok: "lib_ok L \<Longrightarrow> json_ok (emit_json L e)"
  by (simp add: emit_json_def entity_json_ok json_ok_of_gval del: of_gval.simps)

lemma get_context_depth: "get_context cs d = Inr cx \<Longrightarrow> json_depth (of_gval L cx) = 2"
  by (auto simp: get_context_def split: option.splits)

lemma body_parses:
  assumes "lib_ok L" and "get_context cs d = Inr cx"
    and "\<forall>e \<in> set es. json_depth (emit_json L e) < max_depth"
  shows "json_parse (body_so_far L cx es @ '']'') = Some (JArr (of_gval L cx # map (emit_json L) es))"
proof -
  have "\<forall>x \<in> set (of_gval L cx # map (emit_json L) es). json_ok x \<and> json_depth x < max_depth"
    using assms get_context_depth [OF assms(2), of L]
    by (auto simp: emit_json_ok json_ok_of_gval max_depth_def)
  from parse_lines [OF this] show ?thesis
    by (simp add: body_so_far_def comp_def)
qed

lemma consume_ok:
  assumes "does_dataset_exist cs1 (param_name param)" and "get_context cs2 (param_name param) = Inr cx"
    and "CS \<lparr>rq_dataset = param_name param, rq_since = since, rq_limit = limit_of limit\<rparr> = Some (eff, r)"
    and "\<not> is_panic r"
  shows "consume L cs1 cs2 CS param limit since = Some (Reply 200 (body_so_far L cx (emitted eff) @ '']''))"
  using assms by (cases r rule: is_panic.cases) (auto simp: consume_def Let_def)

section \<open>Routes and the chain in front of them\<close>

definition health :: reply where
  "health = Reply 200 ''UP''"

datatype endpoint = Health | ListDatasets | ReadDataset | WriteDataset

text \<open>Method, pattern, handler, and the scopes its authorizer asks for (none is installed for \<open>Health\<close>).\<close>

definition routes :: "(string \<times> string \<times> endpoint \<times> string list option) list" where
  "routes =
     [(''GET'', ''/health'', Health, None),
      (''GET'', ''/datasets'', ListDatasets, Some [''datahub:r'']),
      (''POST'', ''/datasets/:dataset/entities'', WriteDataset, Some [''datahub:w'']),
      (''GET'', ''/datasets/:dataset/entities'', ReadDataset, Some [''datahub:r'']),
      (''GET'', ''/datasets/:dataset/changes'', ReadDataset, Some [''datahub:r''])]"

text \<open>
  \<open>mode\<close> is \<^verbatim>\<open>AUTHORIZATION_MIDDLEWARE\<close>: with \<^verbatim>\<open>noop\<close> the token check is not installed and the
  authorizer of every route is the empty one.  \<open>cors\<close> is echo's.
\<close>

definition chosen_authorizer ::
  "string \<Rightarrow> (string list \<Rightarrow> string list \<Rightarrow> string list) \<Rightarrow> string list \<Rightarrow> middleware" where
  "chosen_authorizer mode intersect = (if mode = ''noop'' then no_op_authorizer else authorize intersect)"

definition configure ::
  "string \<Rightarrow> (nat \<Rightarrow> string \<Rightarrow> string) \<Rightarrow> middleware \<Rightarrow> middleware \<Rightarrow> middleware" where
  "configure mode render cors jwt_mw h =
     logger_filter render
       (if mode = ''noop'' then recover_mw render h else cors (jwt_mw (recover_mw render h)))"

definition guarded :: "(string list \<Rightarrow> middleware) \<Rightarrow> string list option \<Rightarrow> middleware" where
  "guarded authorizer wanted h = (case wanted of None \<Rightarrow> h | Some ws \<Rightarrow> authorizer ws h)"

text \<open>A request for a route whose handler is \<open>h\<close>, through every layer.\<close>

definition serve ::
  "string \<Rightarrow> (nat \<Rightarrow> string \<Rightarrow> string) \<Rightarrow> middleware \<Rightarrow> jwtlib \<Rightarrow> auth0_config \<Rightarrow> string + jwk list option
     \<Rightarrow> (string list \<Rightarrow> string list \<Rightarrow> string list) \<Rightarrow> string list option \<Rightarrow> middleware" where
  "serve mode render cors J cfg jwks intersect wanted h =
     configure mode render cors (jwt_handler J cfg jwks)
       (guarded (chosen_authorizer mode intersect) wanted h)"

text \<open>The chain as the environment sets it up.\<close>

definition serve_env ::
  "env \<Rightarrow> (nat \<Rightarrow> string \<Rightarrow> string) \<Rightarrow> middleware \<Rightarrow> jwtlib \<Rightarrow> string + jwk list option
     \<Rightarrow> (string list \<Rightarrow> string list \<Rightarrow> string list) \<Rightarrow> string list option \<Rightarrow> middleware" where
  "serve_env e render cors J jwks intersect wanted h =
     serve (ac_Middleware (en_Auth e)) render cors J (setup_jwt (en_Auth e)) jwks intersect wanted h"

lemma logger_congr: "next1 c = next2 c \<Longrightarrow> logger_filter render next1 c = logger_filter render next2 c"
  by (simp add: logger_filter_def)

lemma recover_congr: "next1 c = next2 c \<Longrightarrow> recover_mw render next1 c = recover_mw render next2 c"
  by (simp add: recover_mw_def)

text \<open>Layers in front of a guard keep what it promises: no passage, no influence of the handler.\<close>

lemma configure_reached:
  assumes "configure mode render cors (jwt_handler J cfg jwks) h1 c \<noteq> configure mode render cors (jwt_handler J cfg jwks) h2 c"
    and "mode \<noteq> ''noop''"
    and "\<And>n1 n2. n1 c = n2 c \<Longrightarrow> cors n1 c = cors n2 c"
  shows "jwt_allow J cfg jwks c \<and> h1 (jwt_pass J cfg jwks c) \<noteq> h2 (jwt_pass J cfg jwks c)"
proof (rule ccontr)
  assume no: "\<not> ?thesis"
  have "jwt_handler J cfg jwks (recover_mw render h1) c = jwt_handler J cfg jwks (recover_mw render h2) c"
  proof (cases "jwt_allow J cfg jwks c")
    case True
    with no have "h1 (jwt_pass J cfg jwks c) = h2 (jwt_pass J cfg jwks c)" by simp
    then have "recover_mw render h1 (jwt_pass J cfg jwks c) = recover_mw render h2 (jwt_pass J cfg jwks c)"
      by (rule recover_congr)
    with True show ?thesis by (simp only: jwt.passes)
  qed (rule jwt.blocks)
  then have "cors (jwt_handler J cfg jwks (recover_mw render h1)) c
      = cors (jwt_handler J cfg jwks (recover_mw render h2)) c"
    by (rule assms(3))
  then have "configure mode render cors (jwt_handler J cfg jwks) h1 c
      = configure mode render cors (jwt_handler J cfg jwks) h2 c"
    using assms(2) by (auto simp: configure_def intro: logger_congr)
  with assms(1) show False by simp
qed

lemma serve_reached:
  assumes "serve mode render cors J cfg jwks I (Some ws) h1 c \<noteq> serve mode render cors J cfg jwks I (Some ws) h2 c"
    and "mode \<noteq> ''noop''"
    and "\<And>n1 n2. n1 c = n2 c \<Longrightarrow> cors n1 c = cors n2 c"
  shows "jwt_allow J cfg jwks c \<and> auth_allow I ws (jwt_pass J cfg jwks c)"
  using configure_reached [OF assms(1) [unfolded serve_def] assms(2,3)] auth.reached assms(2)
  by (auto simp: guarded_def chosen_authorizer_def)

section \<open>The listing as JSON\<close>

lemma dataset_json_ok: "json_ok (dataset_json nt)"
  by (simp add: dataset_json_def list_all_iff)

lemma dataset_json_depth: "json_depth (dataset_json nt) \<le> 2"
  using fold_max_le [of "map (json_depth \<circ> JStr) (snd nt)" 0 0]
  by (auto simp: dataset_json_def)

lemma json_parse_line:
  assumes "json_ok j" and "json_depth j \<le> max_depth"
  shows "json_parse (line j) = Some j"
proof -
  have "p_value (2 * length (line j) + 2) (json_print j @ [CHR 10]) = Some (j, [CHR 10])"
    using reads_back_json [OF assms(1)] by (intro reads_backD) (simp_all add: line_def)
  with assms(2) show ?thesis by (simp add: json_parse_def line_def)
qed

lemma list_datasets_parses:
  "\<exists>body. list_datasets rank kc = Reply 200 body
     \<and> json_parse body = Some (JArr (map dataset_json (gm_visit rank (dataset_map kc))))"
proof -
  let ?ds = "gm_visit rank (dataset_map kc)"
  have "json_depth (JArr (map dataset_json ?ds)) \<le> max_depth"
    using fold_max_le [of "map (json_depth \<circ> dataset_json) ?ds" 2 0] dataset_json_depth
    by (fastforce simp: max_depth_def)
  then have "json_parse (line (JArr (map dataset_json ?ds))) = Some (JArr (map dataset_json ?ds))"
    by (intro json_parse_line) (simp_all add: list_all_iff dataset_json_ok)
  then show ?thesis by (simp add: list_datasets_def line_def)
qed

end
