(* ===== verification/RequestLog.thy ===== *)
theory RequestLog
  imports Auth
begin

text \<open>
  \<^verbatim>\<open>internal/web/middlewares/loggerfilter.go\<close>: the middleware that counts and logs each request.  Its
  effect on the reply alone is \<open>logger_filter\<close> of \<^verbatim>\<open>Auth\<close>; here it is with what it sends to the statsd
  client and to the logger.  The client's answer to a call is its error.  The function also collects
  structured fields and a request id, which it never passes on.
\<close>

section \<open>The text of a duration\<close>

text \<open>\<^verbatim>\<open>time.Duration.String\<close>, of nanoseconds: fractions without trailing zeros.\<close>

definition pad_digits :: "nat \<Rightarrow> nat \<Rightarrow> string" where
  "pad_digits p n = (let ds = dec_nat n in replicate (p - length ds) (CHR ''0'') @ ds)"

definition fraction :: "nat \<Rightarrow> nat \<Rightarrow> string" where
  "fraction p u =
     (let ds = rev (dropWhile (\<lambda>c. c = CHR ''0'') (rev (pad_digits p (u mod 10 ^ p)))) in
      if ds = [] then [] else CHR ''.'' # ds)"

definition clock_text :: "nat \<Rightarrow> string" where
  "clock_text u =
     (let s = u div 10 ^ 9; m = s div 60; h = m div 60 in
      (if h > 0 then dec_nat h @ ''h'' else []) @ (if m > 0 then dec_nat (m mod 60) @ ''m'' else [])
        @ dec_nat (s mod 60) @ fraction 9 u @ ''s'')"

definition duration_text :: "int \<Rightarrow> string" where
  "duration_text d =
     (let u = nat \<bar>d\<bar>;
          t = (if u = 0 then ''0s''
               else if u < 10 ^ 3 then dec_nat u @ ''ns''
               else if u < 10 ^ 6 then dec_nat (u div 10 ^ 3) @ fraction 3 u @ [CHR 0xC2, CHR 0xB5, CHR ''s'']
               else if u < 10 ^ 9 then dec_nat (u div 10 ^ 6) @ fraction 6 u @ ''ms''
               else clock_text u) in
      if d < 0 then CHR ''-'' # t else t)"

section \<open>What is sent\<close>

datatype metric =
    Incr string "string list"
  | Timing string int "string list"
  | Gauge string int "string list"

datatype log_line = WarnLine string string | InfoLine string

text \<open>\<open>lg_before\<close> is nil in the program's own set-up.\<close>

record logger_config =
  lg_skipper :: "request \<Rightarrow> bool"
  lg_before :: "(request \<Rightarrow> request) option"
  lg_statsd :: "metric \<Rightarrow> string option"

definition setup_logger :: "(metric \<Rightarrow> string option) \<Rightarrow> logger_config" where
  "setup_logger S = \<lparr>lg_skipper = skipper, lg_before = None, lg_statsd = S\<rparr>"

text \<open>Status and size of the response, once the handler's error has been turned into one.\<close>

definition reported :: "(nat \<Rightarrow> string \<Rightarrow> string) \<Rightarrow> reply \<Rightarrow> reply" where
  "reported render r = (case r of ReplyError code msg \<Rightarrow> Reply code (render code msg) | _ \<Rightarrow> r)"

text \<open>
  The tags are made before the handler runs, when the response still has the status it starts with,
  200.
\<close>

definition metric_tags :: "string \<Rightarrow> nat \<Rightarrow> request \<Rightarrow> string list" where
  "metric_tags service status c =
     [''application:'' @ service, ''method:'' @ to_lower (rq_method c), ''url:'' @ to_lower (rq_uri c),
      ''status:'' @ dec_nat status]"

definition log_message :: "nat \<Rightarrow> nat \<Rightarrow> string \<Rightarrow> request \<Rightarrow> string" where
  "log_message status size_sent timed c =
     dec_nat status @ '' - '' @ rq_method c @ '' '' @ rq_uri c @ '' (time: '' @ timed @ '', size: ''
       @ dec_nat size_sent @ '', user_agent: '' @ rq_user_agent c @ '')''"

text \<open>
  The error of the third call only is looked at: each call's result is assigned to the same variable.
  A panic of the handler passes through before anything is sent.
\<close>

definition log_request ::
  "logger_config \<Rightarrow> string \<Rightarrow> (nat \<Rightarrow> string \<Rightarrow> string) \<Rightarrow> int \<Rightarrow> handler \<Rightarrow> request
     \<Rightarrow> reply \<times> metric list \<times> log_line list" where
  "log_request cfg service render elapsed next_handler c0 =
     (if lg_skipper cfg c0 then (next_handler c0, [], [])
      else
        (let c = (case lg_before cfg of None \<Rightarrow> c0 | Some f \<Rightarrow> f c0);
             tags = metric_tags service 200 c in
         case reported render (next_handler c) of
           Reply status body \<Rightarrow>
             (let size_sent = length body;
                  calls = [Incr ''http.count'' tags, Timing ''http.time'' elapsed tags,
                           Gauge ''http.size'' (int size_sent) tags];
                  warning = (case lg_statsd cfg (last calls) of
                               None \<Rightarrow> []
                             | Some e \<Rightarrow> [WarnLine ''Error with statsd'' e]) in
              (Reply status body, calls,
               warning @ [InfoLine (log_message status size_sent (duration_text elapsed) c)]))
         | r \<Rightarrow> (r, [], [])))"

section \<open>Facts\<close>

text \<open>With the program's set-up the reply is what \<open>logger_filter\<close> says, whatever statsd does.\<close>

lemma log_request_reply:
  "fst (log_request (setup_logger S) service render elapsed h c) = logger_filter render h c"
  by (auto simp: log_request_def setup_logger_def logger_filter_def reported_def Let_def split: reply.split)

lemma reported_not_error: "reported render r \<noteq> ReplyError code msg"
  by (cases r) (auto simp: reported_def)

lemma fraction_zero: "fraction p 0 = []"
proof -
  have "dec_nat 0 = ''0''" by code_simp
  then have "set (pad_digits p 0) \<subseteq> {CHR ''0''}" by (auto simp: pad_digits_def Let_def)
  then show ?thesis by (auto simp: fraction_def Let_def)
qed

end
