(* ===== verification/Wiring.thy ===== *)
theory Wiring
  imports Web Startup RequestLog
begin

text \<open>
  \<^verbatim>\<open>internal/app/app.go\<close>, \<^verbatim>\<open>internal/web/web.go\<close> and the constructors it wires: what each one needs, the
  hooks they append, and the HTTP server the hooks put together.  The container builds what the
  invoked functions ask for, each constructor once and after what it needs, and then runs the start
  hooks in the order in which they were appended; when one returns an error it runs the stop hooks of
  those that had started, the last one first.
\<close>

section \<open>The constructors\<close>

datatype part =
    NewEnv | NewLogger | NewStatsd | NewTokenProviders | NewConfigurationManager | NewWebServer
  | NewMiddleware | NewProducers | NewConsumers
  | WebRegister | NewDatasetHandler | NewProducerHandler | NewConsumerHandler

text \<open>The parameters of each that another one provides.\<close>

fun needs :: "part \<Rightarrow> part list" where
  "needs NewEnv = []"
| "needs NewLogger = [NewEnv]"
| "needs NewStatsd = [NewEnv]"
| "needs NewTokenProviders = [NewLogger]"
| "needs NewConfigurationManager = [NewEnv, NewTokenProviders]"
| "needs NewWebServer = [NewEnv, NewLogger, NewStatsd]"
| "needs NewMiddleware = [NewWebServer, NewEnv]"
| "needs NewProducers = [NewEnv, NewConfigurationManager, NewStatsd]"
| "needs NewConsumers = [NewEnv, NewConfigurationManager, NewStatsd]"
| "needs WebRegister = [NewWebServer, NewEnv]"
| "needs NewDatasetHandler = [NewWebServer, NewLogger, NewMiddleware, NewConfigurationManager]"
| "needs NewProducerHandler = [NewWebServer, NewLogger, NewMiddleware, NewProducers]"
| "needs NewConsumerHandler = [NewWebServer, NewLogger, NewMiddleware, NewConsumers]"

definition provided :: "part list" where
  "provided = [NewEnv, NewLogger, NewStatsd, NewTokenProviders, NewConfigurationManager, NewWebServer,
     NewMiddleware, NewProducers, NewConsumers]"

definition invoked :: "part list" where
  "invoked = [WebRegister, NewDatasetHandler, NewProducerHandler, NewConsumerHandler]"

text \<open>
  An order in which a container may call them.  The theorems hold for every such order; \<open>wire\<close> is
  the one of a depth-first container that takes parameters from the left.
\<close>

fun ordered_after :: "part list \<Rightarrow> part list \<Rightarrow> bool" where
  "ordered_after called [] \<longleftrightarrow> True"
| "ordered_after called (c # cs) \<longleftrightarrow>
     \<not> List.member called c \<and> list_all (List.member called) (needs c) \<and> ordered_after (c # called) cs"

definition wiring_order :: "part list \<Rightarrow> bool" where
  "wiring_order cs \<longleftrightarrow> ordered_after [] cs \<and> list_all (List.member cs) invoked"

fun construct :: "nat \<Rightarrow> part \<Rightarrow> part list \<Rightarrow> part list" where
  "construct 0 c called = called"
| "construct (Suc n) c called =
     (if List.member called c then called else fold (construct n) (needs c) called @ [c])"

text \<open>No chain of needs is longer than the number of constructors.\<close>

definition wire :: "part list" where
  "wire = fold (construct (length provided + 1)) invoked []"

section \<open>The HTTP server\<close>

datatype layer = LoggerLayer | CorsLayer | JwtLayer | RecoverLayer

type_synonym route = "string \<times> string \<times> endpoint \<times> string list option"

record http_server =
  hs_listening :: bool
  hs_layers :: "layer list"
  hs_routes :: "route list"

definition use_layer :: "layer \<Rightarrow> http_server \<Rightarrow> http_server" where
  "use_layer l s = s\<lparr>hs_layers := hs_layers s @ [l]\<rparr>"

definition add_route :: "route \<Rightarrow> http_server \<Rightarrow> http_server" where
  "add_route r s = s\<lparr>hs_routes := hs_routes s @ [r]\<rparr>"

definition new_web_server :: http_server where
  "new_web_server = \<lparr>hs_listening = False, hs_layers = [], hs_routes = []\<rparr>"

definition listen :: "http_server \<Rightarrow> http_server" where
  "listen s = s\<lparr>hs_listening := True\<rparr>"

definition shut_down :: "http_server \<Rightarrow> http_server" where
  "shut_down s = s\<lparr>hs_listening := False\<rparr>"

definition register :: "http_server \<Rightarrow> http_server" where
  "register = add_route (''GET'', ''/health'', Health, None)"

definition configure_server :: "string \<Rightarrow> http_server \<Rightarrow> http_server" where
  "configure_server mode s =
     (let s1 = use_layer LoggerLayer s;
          s2 = (if mode = ''noop'' then s1 else use_layer JwtLayer (use_layer CorsLayer s1)) in
      use_layer RecoverLayer s2)"

definition dataset_route :: "http_server \<Rightarrow> http_server" where
  "dataset_route = add_route (''GET'', ''/datasets'', ListDatasets, Some [''datahub:r''])"

definition producer_route :: "http_server \<Rightarrow> http_server" where
  "producer_route = add_route (''POST'', ''/datasets/:dataset/entities'', WriteDataset, Some [''datahub:w''])"

definition consumer_routes :: "http_server \<Rightarrow> http_server" where
  "consumer_routes s =
     add_route (''GET'', ''/datasets/:dataset/changes'', ReadDataset, Some [''datahub:r''])
       (add_route (''GET'', ''/datasets/:dataset/entities'', ReadDataset, Some [''datahub:r'']) s)"

text \<open>
  A request meets the layers installed at that moment, the first one outermost.  \<open>R\<close> is echo's
  router; a request that no route matches gets echo's 404.
\<close>

record cors_config =
  co_allowOrigins :: "string list"
  co_allowHeaders :: "string list"

definition setup_cors :: cors_config where
  "setup_cors = \<lparr>co_allowOrigins = [''https://api.mimiro.io'', ''https://platform.mimiro.io''],
     co_allowHeaders = [''Origin'', ''Content-Type'', ''Accept'']\<rparr>"

record chain =
  ch_render :: "nat \<Rightarrow> string \<Rightarrow> string"
  ch_cors :: "cors_config \<Rightarrow> middleware"
  ch_jwt :: jwtlib
  ch_keys :: "string + jwk list option"
  ch_intersect :: "string list \<Rightarrow> string list \<Rightarrow> string list"
  ch_router :: "route list \<Rightarrow> request \<Rightarrow> route option"

fun layer_mw :: "chain \<Rightarrow> auth0_config \<Rightarrow> layer \<Rightarrow> middleware" where
  "layer_mw Ch cfg LoggerLayer h = logger_filter (ch_render Ch) h"
| "layer_mw Ch cfg CorsLayer h = ch_cors Ch setup_cors h"
| "layer_mw Ch cfg JwtLayer h = jwt_handler (ch_jwt Ch) cfg (ch_keys Ch) h"
| "layer_mw Ch cfg RecoverLayer h = recover_mw (ch_render Ch) h"

definition dispatch :: "chain \<Rightarrow> string \<Rightarrow> route list \<Rightarrow> (endpoint \<Rightarrow> handler) \<Rightarrow> handler" where
  "dispatch Ch mode rs H c =
     (case ch_router Ch rs c of
        None \<Rightarrow> ReplyError 404 ''Not Found''
      | Some (m, p, e, wanted) \<Rightarrow> guarded (chosen_authorizer mode (ch_intersect Ch)) wanted (H e) c)"

definition answer :: "chain \<Rightarrow> env \<Rightarrow> http_server \<Rightarrow> (endpoint \<Rightarrow> handler) \<Rightarrow> request \<Rightarrow> reply option" where
  "answer Ch e s H c =
     (if hs_listening s
      then Some (foldr (layer_mw Ch (setup_jwt (en_Auth e))) (hs_layers s)
                   (dispatch Ch (ac_Middleware (en_Auth e)) (hs_routes s) H) c)
      else None)"

end
