(* ===== verification/App.thy ===== *)
theory App
  imports Wiring
begin

text \<open>
  The program from its environment to a running service: construction of the parts, their start and
  stop hooks, and the service a started program gives.
\<close>

section \<open>Construction\<close>

text \<open>
  \<open>NA\<close> is the error of \<^verbatim>\<open>kafka.NewAdminClient\<close> for a list of servers.  \<^verbatim>\<open>NewProducers\<close> and
  \<^verbatim>\<open>NewConsumers\<close> start with empty maps.
\<close>

definition new_producers :: "(string \<Rightarrow> string option) \<Rightarrow> env \<Rightarrow> string + producers" where
  "new_producers NA e =
     (case NA (bootstrap_servers e) of
        Some err \<Rightarrow> Inl err
      | None \<Rightarrow> Inr \<lparr>pr_writers = [], pr_written = [], pr_uuids = 0\<rparr>)"

definition new_consumers :: "(string \<Rightarrow> string option) \<Rightarrow> env \<Rightarrow> string + (string, bool) gomap" where
  "new_consumers NA e = (case NA (bootstrap_servers e) of Some err \<Rightarrow> Inl err | None \<Rightarrow> Inr [])"

text \<open>
  \<open>ap_topics\<close> lists what the admin client was asked to create; \<open>ap_admin\<close> is false once it is
  closed; \<open>ap_job\<close> is whether the refresh job could be scheduled.
\<close>

record app =
  ap_server :: http_server
  ap_manager :: manager
  ap_producers :: producers
  ap_running :: "(string, bool) gomap"
  ap_topics :: "topic_spec list list"
  ap_admin :: bool
  ap_job :: bool

text \<open>
  The first load happens here, before any hook runs.  \<open>S\<close> is the statsd constructor, \<open>SC\<close> the
  scheduler of the refresh job.
\<close>

definition new_app ::
  "golib \<Rightarrow> (string \<Rightarrow> string) \<Rightarrow> (string \<Rightarrow> string \<Rightarrow> string list \<Rightarrow> string + 'c) \<Rightarrow> (string \<Rightarrow> string option)
     \<Rightarrow> (string \<Rightarrow> string option) \<Rightarrow> env \<Rightarrow> (string \<Rightarrow> string option) \<Rightarrow> world \<Rightarrow> string + app" where
  "new_app L md5 S NA SC e given w =
     (case new_statsd S given e of
        Inl err \<Rightarrow> Inl err
      | Inr _ \<Rightarrow>
          (case new_producers NA e of
             Inl err \<Rightarrow> Inl err
           | Inr ps \<Rightarrow>
               (case new_consumers NA e of
                  Inl err \<Rightarrow> Inl err
                | Inr cs \<Rightarrow>
                    Inr \<lparr>ap_server = register new_web_server,
                         ap_manager = new_manager L md5 w (en_ConfigLocation e)
                           (new_token_providers (get_string given)),
                         ap_producers = ps, ap_running = cs, ap_topics = [], ap_admin = True,
                         ap_job = scheduled SC (en_RefreshInterval e)\<rparr>)))"

section \<open>Hooks\<close>

text \<open>The identifier under which the manager knows the listener of the producers.\<close>

definition topics_listener :: nat where
  "topics_listener = 0"

definition on_server :: "(http_server \<Rightarrow> http_server) \<Rightarrow> app \<Rightarrow> app" where
  "on_server f a = a\<lparr>ap_server := f (ap_server a)\<rparr>"

definition request_topics :: "topic_spec list option \<times> unit go \<Rightarrow> app \<Rightarrow> app \<times> unit go" where
  "request_topics tr a =
     (case tr of
        (None, r) \<Rightarrow> (a, r)
      | (Some specs, r) \<Rightarrow> (a\<lparr>ap_topics := ap_topics a @ [specs]\<rparr>, r))"

definition producers_hook :: "admin \<Rightarrow> app \<Rightarrow> app \<times> unit go" where
  "producers_hook A a =
     (let a1 = a\<lparr>ap_manager := add_listener topics_listener (ap_manager a)\<rparr> in
      request_topics (producers_on_start A (mg_datalayer (ap_manager a1))) a1)"

definition producers_stop :: "app \<Rightarrow> app" where
  "producers_stop a = a\<lparr>ap_admin := False\<rparr>"

definition consumers_hook :: "app \<Rightarrow> app \<times> unit go" where
  "consumers_hook a =
     (a, (case consumers_on_start (mg_datalayer (ap_manager a)) of Inl err \<Rightarrow> Inl err | Inr _ \<Rightarrow> Inr ()))"

text \<open>
  The server is started in a goroutine of its own, and its error is dropped: the hook succeeds even
  when the port is in use.
\<close>

fun start_hook :: "admin \<Rightarrow> env \<Rightarrow> part \<Rightarrow> app \<Rightarrow> app \<times> unit go" where
  "start_hook A e NewWebServer a = (on_server listen a, Inr ())"
| "start_hook A e NewMiddleware a = (on_server (configure_server (ac_Middleware (en_Auth e))) a, Inr ())"
| "start_hook A e NewDatasetHandler a = (on_server dataset_route a, Inr ())"
| "start_hook A e NewProducers a = producers_hook A a"
| "start_hook A e NewProducerHandler a = (on_server producer_route a, Inr ())"
| "start_hook A e NewConsumers a = consumers_hook a"
| "start_hook A e NewConsumerHandler a = (on_server consumer_routes a, Inr ())"
| "start_hook A e _ a = (a, Inr ())"

fun stop_hook :: "part \<Rightarrow> app \<Rightarrow> app" where
  "stop_hook NewWebServer a = on_server shut_down a"
| "stop_hook NewProducers a = producers_stop a"
| "stop_hook _ a = a"

text \<open>\<open>started\<close> has the parts whose hooks have run, the last one first.  A panic ends the process.\<close>

fun start_hooks :: "admin \<Rightarrow> env \<Rightarrow> part list \<Rightarrow> part list \<Rightarrow> app \<Rightarrow> app \<times> unit go" where
  "start_hooks A e started [] a = (a, Inr ())"
| "start_hooks A e started (c # cs) a =
     (case start_hook A e c a of
        (a', Inr _) \<Rightarrow> start_hooks A e (c # started) cs a'
      | (a', Inl (Err err)) \<Rightarrow> (fold stop_hook started a', Inl (Err err))
      | (a', Inl (Panic p)) \<Rightarrow> (a', Inl (Panic p)))"

definition start_app :: "admin \<Rightarrow> env \<Rightarrow> app \<Rightarrow> app \<times> unit go" where
  "start_app A e a = start_hooks A e [] wire a"

definition stop_app :: "app \<Rightarrow> app" where
  "stop_app a = fold stop_hook (rev wire) a"

text \<open>The time for a refresh: a tick of the job, if it is scheduled, and the listeners it starts.\<close>

definition refresh_app ::
  "golib \<Rightarrow> (string \<Rightarrow> string) \<Rightarrow> admin \<Rightarrow> world \<Rightarrow> app \<Rightarrow> app \<times> unit go" where
  "refresh_app L md5 A w a =
     (if \<not> ap_job a then (a, Inr ())
      else case run L md5 w (ap_manager a) of
        (m, fired) \<Rightarrow>
          (let a1 = a\<lparr>ap_manager := m\<rparr> in
           if List.member (map fst fired) topics_listener
           then request_topics (producers_on_update A (mg_datalayer m)) a1
           else (a1, Inr ())))"

section \<open>The handlers on the current configuration\<close>

text \<open>Each dereferences the manager's pointer.\<close>

definition list_datasets_handler :: "(string \<Rightarrow> nat) \<Rightarrow> manager \<Rightarrow> handler" where
  "list_datasets_handler rank m c =
     (case mg_datalayer m of
        None \<Rightarrow> ReplyPanic None NilDereference
      | Some k \<Rightarrow> list_datasets rank k)"

text \<open>
  Reading a dataset: \<open>param\<close> is the path parameter, \<open>limit\<close> and \<open>since\<close> are the query parameters.  The
  configuration is the same throughout; \<open>consume\<close> has the case of a refresh in between.
\<close>

definition read_handler ::
  "golib \<Rightarrow> gjson \<Rightarrow> formats \<Rightarrow> broker \<Rightarrow> (string, bool) gomap \<Rightarrow> tick list \<Rightarrow> manager
     \<Rightarrow> string \<Rightarrow> string \<Rightarrow> string \<Rightarrow> reply option" where
  "read_handler L G F B running ticks m param limit since =
     (case mg_datalayer m of
        None \<Rightarrow> Some (ReplyPanic None NilDereference)
      | Some k \<Rightarrow>
          consume L (kc_consumers k) (kc_consumers k)
            (\<lambda>rq. change_set L G F B (kc_consumers k) running rq ticks) param limit since)"

text \<open>Without a configuration an upload panics when the first batch is produced, not before.\<close>

definition write_handler ::
  "golib \<Rightarrow> (nat \<Rightarrow> string) \<Rightarrow> writer \<Rightarrow> manager \<Rightarrow> string \<Rightarrow> stream \<Rightarrow> producers \<Rightarrow> producers \<times> reply" where
  "write_handler L U W m param body st =
     produce batch_size
       (case mg_datalayer m of
          None \<Rightarrow> (\<lambda>cx es st. (st, Inl (Panic NilDereference)))
        | Some k \<Rightarrow> produce_entities L U W (kc_producers k) (param_name param)) body st"

end
