(* ===== verification/ServiceProperties.thy ===== *)
theory ServiceProperties
  imports App Samples
begin

text \<open>
  The properties of the web layer, of the token client and of the configuration manager.
\<close>

section \<open>Security\<close>

text \<open>
  C3.  Unless \<^verbatim>\<open>AUTHORIZATION_MIDDLEWARE\<close> is \<^verbatim>\<open>noop\<close>, and for every profile, \<^verbatim>\<open>local\<close> included although the README
  says that it disables security: no handler behind an authorizer has any influence on the
  reply to a request that does not carry a bearer token which parses against the key set, has the
  audience and issuer configured for its kind and the signing method RS256, and is permitted by the
  authorizer: a machine token through one of the route's scopes, a user token by being an
  administrator's or by its subject occurring in the URI.  Echo's CORS layer may answer itself, but
  has no other way to the handler.
\<close>

theorem handler_needs_token:
  assumes "serve_env e render cors J jwks I (Some ws) h1 c \<noteq> serve_env e render cors J jwks I (Some ws) h2 c"
    and "ac_Middleware (en_Auth e) \<noteq> ''noop''" and "rq_user c = None"
    and "\<And>n1 n2. n1 c = n2 c \<Longrightarrow> cors n1 c = cors n2 c"
    and "\<And>a b. set (I a b) = set a \<inter> set b"
  shows "\<exists>tok. accepted J (setup_jwt (en_Auth e)) jwks c = Some tok
    \<and> jw_verify_audience J (tk_claims tok)
        (if str_contains (cl_issuer (tk_claims tok)) ''auth0.com'' then ac_AudienceAuth0 (en_Auth e)
         else ac_Audience (en_Auth e)) False
    \<and> jw_verify_issuer J (tk_claims tok)
        (if str_contains (cl_issuer (tk_claims tok)) ''auth0.com'' then ac_IssuerAuth0 (en_Auth e)
         else ac_Issuer (en_Auth e)) False
    \<and> tk_alg tok = ''RS256'' \<and> permits ws tok (rq_uri c)"
proof -
  let ?cfg = "setup_jwt (en_Auth e)"
  have pass: "jwt_allow J ?cfg jwks c \<and> auth_allow I ws (jwt_pass J ?cfg jwks c)"
    by (rule serve_reached [OF assms(1,2) [unfolded serve_env_def]]) (rule assms(4))
  then obtain tok where tok: "accepted J ?cfg jwks c = Some tok" "permits ws tok (rq_uri c)"
    using token_needed assms(3,5) by blast
  with accepted_claims [OF tok(1)] show ?thesis
    by (auto simp: expected_def setup_jwt_def str_index_neg_iff split: if_splits)
qed

definition sample_claims :: claims where
  "sample_claims = \<lparr>cl_scope = ''datahub:r other'', cl_gty = ''client-credentials'', cl_adm = False,
     cl_issuer = ''https://mimiro'', cl_subject = ''app'', cl_audience = ''https://api''\<rparr>"

definition sample_token :: token where
  "sample_token = \<lparr>tk_claims = sample_claims, tk_alg = ''RS256'', tk_kid = Some ''key1''\<rparr>"

definition sample_keys :: "jwk list" where
  "sample_keys = [zero_jwk\<lparr>jk_kid := ''key1'', jk_x5c := [''old'']\<rparr>, zero_jwk\<lparr>jk_kid := ''key2''\<rparr>,
     zero_jwk\<lparr>jk_kid := ''key1'', jk_x5c := [''new'']\<rparr>]"

definition sample_jwt :: jwtlib where
  "sample_jwt = \<lparr>jw_parse = (\<lambda>_ key. go_bind (key sample_token) (\<lambda>_. Inr sample_token)),
     jw_rsa_key = (\<lambda>_. Some 1), jw_modulus = (\<lambda>_. ''7''), jw_verify_audience = (\<lambda>cl a _. cl_audience cl = a),
     jw_verify_issuer = (\<lambda>cl i _. cl_issuer cl = i)\<rparr>"

definition sample_env :: env where
  "sample_env = new_env None (map_of [(''TOKEN_AUDIENCE'', ''https://api''), (''TOKEN_ISSUER'', ''https://mimiro'')]) []"

definition sample_auth0 :: auth0_config where
  "sample_auth0 = setup_jwt (en_Auth sample_env)"

definition sample_request :: request where
  "sample_request = \<lparr>rq_method = ''GET'', rq_path = ''/datasets'', rq_uri = ''/datasets'',
     rq_authorization = ''Bearer abc'', rq_user_agent = ''curl'', rq_user = None\<rparr>"

definition sample_intersect :: "string list \<Rightarrow> string list \<Rightarrow> string list" where
  "sample_intersect a b = filter (\<lambda>x. List.member b x) a"

theorem handler_needs_token_witness:
  "\<exists>tok. accepted sample_jwt (setup_jwt (en_Auth sample_env)) (Inr (Some sample_keys)) sample_request = Some tok
     \<and> permits [''datahub:r''] tok ''/datasets''"
proof -
  let ?serve = "serve_env sample_env (\<lambda>_ s. s) (\<lambda>h. h) sample_jwt (Inr (Some sample_keys)) sample_intersect
    (Some [''datahub:r''])"
  have "?serve (\<lambda>_. Reply 200 []) sample_request \<noteq> ?serve (\<lambda>_. Reply 201 []) sample_request"
      "ac_Middleware (en_Auth sample_env) \<noteq> ''noop''"
    by code_simp+
  moreover have "rq_user sample_request = None" "rq_uri sample_request = ''/datasets''"
    by (simp_all add: sample_request_def)
  moreover have "set (sample_intersect a b) = set a \<inter> set b" for a b
    by (auto simp: sample_intersect_def)
  ultimately show ?thesis
    using handler_needs_token [where cors = "\<lambda>h. h" and c = sample_request and e = sample_env
        and render = "\<lambda>_ s. s" and J = sample_jwt and jwks = "Inr (Some sample_keys)"
        and I = sample_intersect and ws = "[''datahub:r'']" and ?h1.0 = "\<lambda>_. Reply 200 []" and ?h2.0 = "\<lambda>_. Reply 201 []"]
    by simp metis
qed

text \<open>
  Of the keys with the token's key id the last one counts, and no key with another id is
  used; without a match the token is refused.
\<close>

lemma certificate_of_last_match:
  assumes "\<forall>k \<in> set keys. tk_kid tok = Some (jk_kid k) \<longrightarrow> jk_x5c k \<noteq> []"
  shows "get_pem_cert tok (Inr (Some keys)) =
    (case filter (\<lambda>k. tk_kid tok = Some (jk_kid k)) keys of
       [] \<Rightarrow> Inl (Err ''Unable to find appropriate key.'')
     | ms \<Rightarrow> Inr (pem_of (hd (jk_x5c (last ms)))))"
  using find_cert_ok [OF assms, of "[]"]
  by (auto simp: get_pem_cert_def pem_of_def split: list.split)

lemma certificate_of_last_match_witness:
  "get_pem_cert sample_token (Inr (Some sample_keys)) = Inr (pem_of ''new'')"
  using certificate_of_last_match [of sample_keys sample_token]
  by (simp add: sample_keys_def sample_token_def zero_jwk_def)

text \<open>
  C38.  A panic while the key of a token is looked up is not turned into a reply: the recovery
  layer is behind the token check.  A matching key without certificates is enough.
\<close>

theorem key_panic_not_recovered:
  assumes "mode \<noteq> ''noop''" and "\<not> skipper c" and "extract_token (rq_authorization c) = Inr auth"
    and "jw_parse J auth (key_func J jwks) = Inl (Panic p)"
  shows "serve mode render (\<lambda>h. h) J cfg jwks I wanted h c = ReplyPanic None p"
  using assms by (simp add: serve_def configure_def logger_filter_def jwt_handler_def)

theorem key_panic_not_recovered_witness:
  "serve [] (\<lambda>_ s. s) (\<lambda>h. h) sample_jwt sample_auth0 (Inr (Some [zero_jwk\<lparr>jk_kid := ''key1''\<rparr>]))
     sample_intersect None (\<lambda>_. Reply 200 []) sample_request = ReplyPanic None IndexOutOfRange"
  by (rule key_panic_not_recovered [where auth = "''abc''"]) code_simp+

section \<open>The token client\<close>

text \<open>
  C34.  A token is fetched once and then served from the cache until it expires: whatever the remote
  side would answer, up to that moment the provider gives the same token and does not change.
\<close>

theorem token_cached_until_expiry:
  assumes "au_cache a = None" and "call_remote R a = Inr res"
    and "0 \<le> ar_ExpiresIn res" and "ar_ExpiresIn res \<le> 9223372036"
    and "t \<le> later + ar_ExpiresIn res * 1000000000"
  shows "\<exists>a' b. token R now later a = (a', Inr b) \<and> b = ''Bearer '' @ ar_AccessToken res
    \<and> token R' t t' a' = (a', Inr b)"
proof -
  let ?a = "a\<lparr>au_cache := Some (later + lifetime (ar_ExpiresIn res), ar_AccessToken res)\<rparr>"
  have "token R now later a = (?a, Inr (''Bearer '' @ ar_AccessToken res))"
    using assms(1,2) by (intro token_stale) simp_all
  moreover have "token R' t t' ?a = (?a, Inr (''Bearer '' @ ar_AccessToken res))"
    using assms(3-5) by (intro token_cached) (simp_all add: lifetime_exact)
  ultimately show ?thesis by blast
qed

definition sample_auth0_client :: auth0 where
  "sample_auth0_client = \<lparr>au_ClientId = ''id'', au_ClientSecret = ''s'', au_Audience = ''a'',
     au_GrantType = ''g'', au_endpoint = ''https://e'', au_cache = None\<rparr>"

definition sample_remote :: auth0_remote where
  "sample_remote url body = Inr (200, Inr (JObj [(''access_token'', JStr ''t''), (''expires_in'', JNum ''60'')]))"

theorem token_cached_until_expiry_witness:
  "\<exists>a'. fst (token sample_remote 0 1 sample_auth0_client) = a'
     \<and> token (\<lambda>_ _. Inl ''down'') 60000000001 60000000001 a' = (a', Inr ''Bearer t'')"
proof -
  let ?res = "\<lparr>ar_AccessToken = ''t'', ar_Scope = [], ar_ExpiresIn = 60, ar_TokenType = []\<rparr>"
  have "call_remote sample_remote sample_auth0_client = Inr ?res" by code_simp
  moreover have "au_cache sample_auth0_client = None" by (simp add: sample_auth0_client_def)
  ultimately show ?thesis
    using token_cached_until_expiry [of sample_auth0_client sample_remote ?res 60000000001 1 0
        "\<lambda>_ _. Inl ''down''" 60000000001]
    by auto
qed

section \<open>The configuration\<close>

text \<open>
  C25.  A refresh that reads nothing usable, or a configuration that does not parse, changes
  neither the configuration in use nor the digest, and starts no listener; at most a token is
  cached.
\<close>

theorem failed_refresh_keeps_config:
  assumes "snd (fetch L w m) = None
    \<or> (\<exists>c. snd (fetch L w m) = Some c \<and> parse_config c = None \<and> md5 c \<noteq> st_digest (mg_state m))"
  shows "run L md5 w m = (m\<lparr>mg_providers := fst (fetch L w m)\<rparr>, [])"
  using load_no_content [of L w m md5] assms by (simp add: run_def)

definition sample_manager :: manager where
  "sample_manager = \<lparr>mg_location = ''file://c.json'', mg_datalayer = Some zero_config,
     mg_state = \<lparr>st_timestamp = 0, st_digest = ''d''\<rparr>, mg_providers = [], mg_listeners = [7]\<rparr>"

definition sample_world :: "string \<Rightarrow> world" where
  "sample_world s = \<lparr>wd_file = (\<lambda>f. if f = ''c.json'' then (Some s, None) else (None, Some ''no file'')),
     wd_new_request = (\<lambda>_. None), wd_get = (\<lambda>_ _. Inl ''down''), wd_auth0 = sample_remote,
     wd_now = 0, wd_later = 0, wd_unix = 5\<rparr>"

theorem failed_refresh_keeps_config_witness:
  "fst (run sample_lib (\<lambda>s. s) (sample_world ''{'') sample_manager)
     = sample_manager\<lparr>mg_providers := fst (fetch sample_lib (sample_world ''{'') sample_manager)\<rparr>"
proof -
  have "snd (fetch sample_lib (sample_world ''{'') sample_manager) = Some ''{''"
    by code_simp
  moreover have "parse_config ''{'' = None" by code_simp
  ultimately show ?thesis
    using failed_refresh_keeps_config [of sample_lib "sample_world ''{''" sample_manager "\<lambda>s. s"]
    by (simp add: sample_manager_def)
qed

text \<open>
  C24.  After the start and any number of refreshes, the configuration in use is the one that one of the
  contents read parses to, and the recorded digest is that content's; or the digest is still the initial
  sixteen zero bytes and there is no configuration, or the empty one if a content with that digest was read.
\<close>

theorem config_matches_digest:
  "manager_ok md5
     (set_option (snd (fetch L w (fresh_manager w location ps)))
        \<union> set (contents_read L md5 ws (new_manager L md5 w location ps)))
     (refreshed L md5 ws (new_manager L md5 w location ps))"
  by (intro refreshed_ok new_manager_ok)

text \<open>
  C26.  Every field of the configuration is read from its tag: the text of a configuration, each
  field written under its name, parses to that configuration.
\<close>

theorem config_text_roundtrip: "config_ok k \<Longrightarrow> parse_config (json_print (config_json k)) = Some k"
  using config_file.chain_dec_enc [of k] by (simp add: parse_config_chain config_file.chain_enc_def)

theorem config_text_roundtrip_witness:
  "parse_config (json_print (config_json (zero_config\<lparr>kc_producers := [zero_producer_config\<lparr>pc_topicSettings := Some
       (zero_topic_settings\<lparr>ts_config := Some [(''retention.ms'', ''5'')]\<rparr>)\<rparr>]\<rparr>)))
     = Some (zero_config\<lparr>kc_producers := [zero_producer_config\<lparr>pc_topicSettings := Some
       (zero_topic_settings\<lparr>ts_config := Some [(''retention.ms'', ''5'')]\<rparr>)\<rparr>]\<rparr>)"
  by (rule config_text_roundtrip)
    (simp add: config_ok_def topic_settings_ok_def zero_topic_settings_def int64_ok_def gm_ok_def)

text \<open>A document without \<^verbatim>\<open>data\<close> is decoded for its \<^verbatim>\<open>id\<close> only, which must be a text or null.\<close>

definition id_readable :: "(string \<times> json) list \<Rightarrow> bool" where
  "id_readable kvs \<longleftrightarrow>
     (\<forall>kv \<in> set kvs. to_lower (fst kv) = ''id'' \<longrightarrow> (\<exists>t. snd kv = JStr t) \<or> snd kv = JNull)"

lemma hub_content_without_data:
  assumes "\<forall>kv \<in> set kvs. to_lower (fst kv) \<noteq> ''data''"
  shows "if id_readable kvs then \<exists>r'. dec_hub_content L (JObj kvs) r = Some r' \<and> hc_data r' = hc_data r
    else dec_hub_content L (JObj kvs) r = None"
proof -
  let ?fs = "[field ''id'' hc_id hc_id_update dec_string, field ''data'' hc_data hc_data_update (dec_data L)]
    :: (string \<times> hub_content decoder_of) list"
  let ?step = "\<lambda>(k, v) r. case find_field k ?fs of None \<Rightarrow> Some r | Some d \<Rightarrow> d v r"
  let ?text = "\<lambda>kv. to_lower (fst kv) = ''id'' \<longrightarrow> (\<exists>t. snd kv = JStr t) \<or> snd kv = JNull"
  have lower: "to_lower ''id'' = ''id''" "to_lower ''data'' = ''data''" by code_simp+
  have find: "find_field k ?fs = (if to_lower k = ''id'' then Some (\<lambda>j r. map_option (\<lambda>x. r\<lparr>hc_id := x\<rparr>) (dec_string j (hc_id r)))
      else None)"
    if "to_lower k \<noteq> ''data''" for k
    using that lower by (auto simp: find_field_def field_def)
  have step: "?step kv r = (if to_lower (fst kv) = ''id''
      then map_option (\<lambda>x. r\<lparr>hc_id := x\<rparr>) (dec_string (snd kv) (hc_id r)) else Some r)"
    if "to_lower (fst kv) \<noteq> ''data''" for kv r
    using find [OF that] by (cases kv) simp
  have good: "\<exists>r'. ?step kv r = Some r' \<and> hc_data r' = hc_data r"
    if "to_lower (fst kv) \<noteq> ''data''" "?text kv" for kv r
    unfolding step [OF that(1)] using that(2) by auto
  have bad: "?step kv r = None" if "to_lower (fst kv) \<noteq> ''data''" "\<not> ?text kv" for kv r
    unfolding step [OF that(1)] using that(2) by (cases "snd kv") auto
  have fold: "if id_readable ms then \<exists>r'. opt_fold ?step ms r = Some r' \<and> hc_data r' = hc_data r
      else opt_fold ?step ms r = None" if "\<forall>kv \<in> set ms. to_lower (fst kv) \<noteq> ''data''" for ms r
    using that
  proof (induction ms arbitrary: r)
    case (Cons kv ms)
    show ?case
    proof (cases "?text kv")
      case True
      then obtain r1 where "?step kv r = Some r1" "hc_data r1 = hc_data r"
        using good [of kv r] Cons.prems by auto
      then show ?thesis using Cons.IH [of r1] Cons.prems True by (simp only: opt_fold.simps) (auto simp: id_readable_def)
    next
      case False
      then have "?step kv r = None" using bad [of kv r] Cons.prems by auto
      with False show ?thesis by (simp only: opt_fold.simps) (auto simp: id_readable_def)
    qed
  qed (simp add: id_readable_def)
  have "dec_hub_content L (JObj kvs) r = opt_fold ?step kvs r" for r
    unfolding dec_hub_content_def dec_struct.simps ..
  with fold [OF assms] show ?thesis by simp
qed

text \<open>
  C39.  A document without a member for \<^verbatim>\<open>data\<close>, such as an error report of a data hub, is accepted as a
  configuration with no datasets at all, if its \<^verbatim>\<open>id\<close> is a text or null or there is none; with any other
  \<^verbatim>\<open>id\<close> it is refused.
\<close>

theorem content_without_data_is_empty_config:
  assumes "json_parse s = Some (JObj kvs)" and "\<forall>kv \<in> set kvs. to_lower (fst kv) \<noteq> ''data''"
  shows "Option.bind (unpack_content L s) parse_config
    = (if id_readable kvs then Some zero_config else None)"
proof -
  have null: "parse_config (marshal L GNil) = Some zero_config"
  proof -
    have "json_parse ''null'' = Some JNull" by code_simp
    then show ?thesis by (simp add: parse_config_def marshal_def dec_kafka_config_def)
  qed
  show ?thesis
    using assms(1) null hub_content_without_data [OF assms(2), of L "\<lparr>hc_id = [], hc_data = None\<rparr>"]
    by (auto simp: unpack_content_def split: if_splits)
qed

theorem content_without_data_is_empty_config_witness:
  "Option.bind (unpack_content sample_lib ''{\"id\":\"x\",\"message\":\"gone\"}'') parse_config = Some zero_config"
proof -
  have parse: "json_parse ''{\"id\":\"x\",\"message\":\"gone\"}'' = Some (JObj [(''id'', JStr ''x''), (''message'', JStr ''gone'')])"
    by code_simp
  have "\<forall>kv \<in> set [(''id'', JStr ''x''), (''message'', JStr ''gone'')]. to_lower (fst kv) \<noteq> ''data''" by code_simp
  from content_without_data_is_empty_config [OF parse this] show ?thesis
    by (simp add: id_readable_def)
qed

section \<open>The environment\<close>

text \<open>
  The Kafka clients are given the bootstrap servers as they were configured: splitting one text
  at its commas and joining the parts loses nothing.
\<close>

lemma bootstrap_servers_kept: "bootstrap_servers (new_env profile given [s]) = s"
  by (simp add: bootstrap_servers_def new_env_def brokers_join)

text \<open>
  The log level does not depend on case, and what a logger writes at a more severe configured level
  it also writes at a less severe one.
\<close>

lemma log_level_monotone:
  "to_upper a = to_upper b \<Longrightarrow> get_log_level b \<le> get_log_level c \<Longrightarrow>
     logs (get_logger profile (get_log_level c) s) l \<Longrightarrow> logs (get_logger profile (get_log_level a) s) l"
  using get_log_level_case [of a b] by (auto simp: get_logger_def split: if_splits)

end
