(* ===== verification/AppFacts.thy ===== *)
theory AppFacts
  imports App ConsumerSessions
begin

text \<open>
  What holds of the program while it starts and once it runs: the state of the HTTP server after any number
  of start hooks, in any order a container may choose, and the outcome of a start.
\<close>

section \<open>The wiring\<close>

lemma wire_eq: "wire = [NewEnv, NewLogger, NewStatsd, NewWebServer, WebRegister, NewMiddleware,
    NewTokenProviders, NewConfigurationManager, NewDatasetHandler, NewProducers, NewProducerHandler,
    NewConsumers, NewConsumerHandler]"
  by code_simp

lemma wire_order: "wiring_order wire"
  by code_simp

lemma ordered_after_append:
  "ordered_after called (xs @ ys) \<longleftrightarrow> ordered_after called xs \<and> ordered_after (rev xs @ called) ys"
  by (induction xs arbitrary: called) auto

text \<open>When a part is called its needs have been called.\<close>

lemma ordered_needs:
  "ordered_after called (xs @ c # ys) \<Longrightarrow> d \<in> set (needs c) \<Longrightarrow> d \<in> set called \<union> set xs"
  by (auto simp: ordered_after_append list_all_iff)

section \<open>The server while the hooks run\<close>

definition configured :: "string \<Rightarrow> layer list" where
  "configured mode = hs_layers (configure_server mode new_web_server)"

lemma configured_eq:
  "configured mode = LoggerLayer # (if mode = ''noop'' then [] else [CorsLayer, JwtLayer]) @ [RecoverLayer]"
  by (simp add: configured_def configure_server_def use_layer_def new_web_server_def Let_def)

lemma configure_server_eq:
  "configure_server mode s = s\<lparr>hs_layers := hs_layers s @ configured mode\<rparr>"
  by (simp add: configured_eq configure_server_def use_layer_def Let_def)

text \<open>
  Either the middleware is not yet there, and only the health route is, or it is there in full; in both cases
  every route is one of the program's.
\<close>

definition server_ok :: "string \<Rightarrow> bool \<Rightarrow> http_server \<Rightarrow> bool" where
  "server_ok mode ready s \<longleftrightarrow> set (hs_routes s) \<subseteq> set routes
     \<and> hs_layers s = (if ready then configured mode else [])
     \<and> (\<not> ready \<longrightarrow> set (hs_routes s) \<subseteq> {(''GET'', ''/health'', Health, None)})"

lemma server_ok_new: "server_ok mode False (register new_web_server)"
  by (simp add: server_ok_def register_def add_route_def new_web_server_def routes_def)

lemmas hook_defs = listen_def shut_down_def producers_hook_def producers_stop_def consumers_hook_def

lemma start_hook_server:
  "ap_server (fst (start_hook A e c a)) =
     (case c of
        NewWebServer \<Rightarrow> (ap_server a)\<lparr>hs_listening := True\<rparr>
      | NewMiddleware \<Rightarrow> configure_server (ac_Middleware (en_Auth e)) (ap_server a)
      | NewDatasetHandler \<Rightarrow> dataset_route (ap_server a)
      | NewProducerHandler \<Rightarrow> producer_route (ap_server a)
      | NewConsumerHandler \<Rightarrow> consumer_routes (ap_server a)
      | _ \<Rightarrow> ap_server a)"
  by (cases c) (auto simp: on_server_def hook_defs request_topics_def Let_def split: prod.split option.split)

lemma stop_hooks_server:
  "ap_server (fold stop_hook cs a) = (ap_server a)\<lparr>hs_listening := hs_listening (ap_server a) \<and> NewWebServer \<notin> set cs\<rparr>"
proof (induction cs arbitrary: a)
  case (Cons c cs)
  then show ?case by (cases c) (simp_all add: on_server_def hook_defs)
qed simp

lemma routes_members:
  "(''GET'', ''/datasets'', ListDatasets, Some [''datahub:r'']) \<in> set routes"
  "(''POST'', ''/datasets/:dataset/entities'', WriteDataset, Some [''datahub:w'']) \<in> set routes"
  "(''GET'', ''/datasets/:dataset/entities'', ReadDataset, Some [''datahub:r'']) \<in> set routes"
  "(''GET'', ''/datasets/:dataset/changes'', ReadDataset, Some [''datahub:r'']) \<in> set routes"
  by (simp_all add: routes_def)

lemma add_route_ok: "server_ok mode True s \<Longrightarrow> r \<in> set routes \<Longrightarrow> server_ok mode True (add_route r s)"
  by (simp add: server_ok_def add_route_def)

lemma configure_ok: "server_ok mode False s \<Longrightarrow> server_ok mode True (configure_server mode s)"
  by (simp add: server_ok_def configure_server_eq)

lemma listening_ok: "server_ok mode ready s \<Longrightarrow> server_ok mode ready (s\<lparr>hs_listening := b\<rparr>)"
  by (simp add: server_ok_def)

lemma start_hook_server_ok:
  assumes "server_ok (ac_Middleware (en_Auth e)) ready (ap_server a)"
    and "NewMiddleware \<in> set (needs c) \<Longrightarrow> ready" and "c = NewMiddleware \<Longrightarrow> \<not> ready"
  shows "server_ok (ac_Middleware (en_Auth e)) (ready \<or> c = NewMiddleware) (ap_server (fst (start_hook A e c a)))"
proof (cases "NewMiddleware \<in> set (needs c) \<or> c = NewMiddleware")
  case True
  with assms show ?thesis
    by (cases c) (simp_all add: start_hook_server dataset_route_def producer_route_def consumer_routes_def
        add_route_ok configure_ok routes_members del: start_hook.simps)
next
  case False
  with assms(1) show ?thesis by (cases c) (simp_all add: start_hook_server listening_ok del: start_hook.simps)
qed

lemma start_hooks_server_ok:
  assumes "ordered_after called cs" and "server_ok (ac_Middleware (en_Auth e)) (NewMiddleware \<in> set called) (ap_server a)"
  shows "\<exists>ready. server_ok (ac_Middleware (en_Auth e)) ready (ap_server (fst (start_hooks A e started cs a)))"
  using assms
proof (induction cs arbitrary: called started a)
  case Nil
  then show ?case by auto
next
  case (Cons c cs)
  obtain a' r where hook: "start_hook A e c a = (a', r)" by fastforce
  have "server_ok (ac_Middleware (en_Auth e)) (NewMiddleware \<in> set called \<or> c = NewMiddleware)
      (ap_server (fst (start_hook A e c a)))"
    using Cons.prems(1) by (intro start_hook_server_ok [OF Cons.prems(2)]) (auto simp: list_all_iff)
  then have a': "server_ok (ac_Middleware (en_Auth e)) (NewMiddleware \<in> set (c # called)) (ap_server a')"
    using hook by (cases "c = NewMiddleware") auto
  show ?case
  proof (cases r)
    case (Inl err)
    with hook a' show ?thesis
      by (cases err) (auto simp: stop_hooks_server intro: listening_ok)
  next
    case (Inr _)
    with hook Cons.IH [OF _ a', of "c # started"] Cons.prems(1) show ?thesis by simp
  qed
qed

section \<open>Answers\<close>

text \<open>
  What is relied on of the packages: the router picks one of the routes it was given, CORS has no way to
  what comes next but to call it, and the intersection is one.
\<close>

definition chain_ok :: "chain \<Rightarrow> bool" where
  "chain_ok Ch \<longleftrightarrow> (\<forall>rs c r. ch_router Ch rs c = Some r \<longrightarrow> r \<in> set rs)
     \<and> (\<forall>cc n1 n2 c. n1 c = n2 c \<longrightarrow> ch_cors Ch cc n1 c = ch_cors Ch cc n2 c)
     \<and> (\<forall>xs ys. set (ch_intersect Ch xs ys) = set xs \<inter> set ys)"

lemma router_picks: "chain_ok Ch \<Longrightarrow> ch_router Ch rs c = Some r \<Longrightarrow> r \<in> set rs"
  unfolding chain_ok_def by blast

lemma cors_transparent: "chain_ok Ch \<Longrightarrow> n1 c = n2 c \<Longrightarrow> ch_cors Ch cc n1 c = ch_cors Ch cc n2 c"
  unfolding chain_ok_def by blast

lemma configured_chain:
  "foldr (layer_mw Ch cfg) (configured mode) h =
     configure mode (ch_render Ch) (ch_cors Ch setup_cors) (jwt_handler (ch_jwt Ch) cfg (ch_keys Ch)) h"
  by (simp add: configured_eq configure_def fun_eq_iff)

lemma chain_intersect: "chain_ok Ch \<Longrightarrow> set (ch_intersect Ch xs ys) = set xs \<inter> set ys"
  by (simp add: chain_ok_def)

text \<open>Two tables of handlers that differ in the answer differ on a route with an authorizer.\<close>

lemma dispatch_reached:
  assumes "dispatch Ch mode rs H1 c \<noteq> dispatch Ch mode rs H2 c" and "mode \<noteq> ''noop''"
    and "H1 Health = H2 Health" and "set rs \<subseteq> set routes"
    and "chain_ok Ch"
  shows "\<exists>m p ep ws. ch_router Ch rs c = Some (m, p, ep, Some ws) \<and> auth_allow (ch_intersect Ch) ws c
    \<and> (m, p, ep, Some ws) \<in> set routes \<and> H1 ep c \<noteq> H2 ep c"
proof -
  obtain m p ep wanted where r: "ch_router Ch rs c = Some (m, p, ep, wanted)"
    using assms(1) by (cases "ch_router Ch rs c") (auto simp: dispatch_def)
  with assms(4) router_picks [OF assms(5)] have "(m, p, ep, wanted) \<in> set routes" by blast
  moreover from this have "wanted = None \<Longrightarrow> ep = Health" by (auto simp: routes_def)
  ultimately show ?thesis
    using r assms(1-3) auth.reached auth.differs
    by (cases wanted) (auto simp: dispatch_def guarded_def chosen_authorizer_def)
qed

lemma answer_reached:
  assumes "server_ok (ac_Middleware (en_Auth e)) ready s"
    and "answer Ch e s H1 c \<noteq> answer Ch e s H2 c" and "ac_Middleware (en_Auth e) \<noteq> ''noop''"
    and "H1 Health = H2 Health" and "chain_ok Ch"
  shows "\<exists>m p ep ws. (m, p, ep, Some ws) \<in> set routes
    \<and> ch_router Ch (hs_routes s) (jwt_pass (ch_jwt Ch) (setup_jwt (en_Auth e)) (ch_keys Ch) c) = Some (m, p, ep, Some ws)
    \<and> H1 ep (jwt_pass (ch_jwt Ch) (setup_jwt (en_Auth e)) (ch_keys Ch) c)
        \<noteq> H2 ep (jwt_pass (ch_jwt Ch) (setup_jwt (en_Auth e)) (ch_keys Ch) c)
    \<and> jwt_allow (ch_jwt Ch) (setup_jwt (en_Auth e)) (ch_keys Ch) c
    \<and> auth_allow (ch_intersect Ch) ws (jwt_pass (ch_jwt Ch) (setup_jwt (en_Auth e)) (ch_keys Ch) c)"
proof -
  let ?mode = "ac_Middleware (en_Auth e)" and ?cfg = "setup_jwt (en_Auth e)"
  let ?d = "\<lambda>H. dispatch Ch ?mode (hs_routes s) H"
  have routes: "set (hs_routes s) \<subseteq> set routes" using assms(1) by (simp add: server_ok_def)
  show ?thesis
  proof (cases ready)
    case False
    with assms(1) have "hs_layers s = []" "set (hs_routes s) \<subseteq> {(''GET'', ''/health'', Health, None)}"
      by (simp_all add: server_ok_def)
    moreover from this assms(2) have "?d H1 c \<noteq> ?d H2 c" by (auto simp: answer_def split: if_splits)
    ultimately obtain m p ep ws where "ch_router Ch (hs_routes s) c = Some (m, p, ep, Some ws)"
        "set (hs_routes s) \<subseteq> {(''GET'', ''/health'', Health, None)}"
      using dispatch_reached [of Ch ?mode "hs_routes s" H1 _ H2, OF _ assms(3,4) routes assms(5)] by blast
    with router_picks [OF assms(5)] show ?thesis by blast
  next
    case True
    with assms(1,2) have "configure ?mode (ch_render Ch) (ch_cors Ch setup_cors) (jwt_handler (ch_jwt Ch) ?cfg (ch_keys Ch)) (?d H1) c
        \<noteq> configure ?mode (ch_render Ch) (ch_cors Ch setup_cors) (jwt_handler (ch_jwt Ch) ?cfg (ch_keys Ch)) (?d H2) c"
      by (auto simp: answer_def server_ok_def configured_chain split: if_splits)
    from configure_reached [OF this assms(3) cors_transparent [OF assms(5)]] show ?thesis
      using dispatch_reached [of Ch ?mode "hs_routes s" H1 _ H2, OF _ assms(3,4) routes assms(5)] by blast
  qed
qed

section \<open>The outcome of a start\<close>

lemma start_app_eq:
  "start_app A e a =
     (let a1 = on_server (\<lambda>s. dataset_route (configure_server (ac_Middleware (en_Auth e)) (s\<lparr>hs_listening := True\<rparr>))) a;
          a2 = a1\<lparr>ap_manager := add_listener topics_listener (ap_manager a1)\<rparr>
      in case request_topics (producers_on_start A (mg_datalayer (ap_manager a))) a2 of
           (a3, Inl (Panic p)) \<Rightarrow> (a3, Inl (Panic p))
         | (a3, Inl (Err err)) \<Rightarrow> (on_server (\<lambda>s. s\<lparr>hs_listening := False\<rparr>) a3, Inl (Err err))
         | (a3, Inr _) \<Rightarrow> (on_server (\<lambda>s. consumer_routes (producer_route s)) a3, Inr ()))"
proof (cases "mg_datalayer (ap_manager a)")
  case None
  then show ?thesis
    by (simp add: start_app_def wire_eq on_server_def hook_defs Let_def producers_on_start_def add_listener_def request_topics_def)
next
  case (Some k)
  then show ?thesis
    by (auto simp: start_app_def wire_eq on_server_def hook_defs Let_def producers_on_start_def add_listener_def
        request_topics_def consumers_on_start_def split: prod.split option.split sum.split failure.split)
qed

lemma init_topics_nil: "init_topics A [] = (None, Inr ())"
  by (simp add: init_topics_def)

lemma producers_on_start_Some: "producers_on_start A (Some k) = init_topics A (kc_producers k)"
  by (simp add: producers_on_start_def init_topics_nil)

lemma request_topics_snd [simp]: "snd (request_topics (s, r) a) = r"
  by (simp add: request_topics_def split: option.split)

lemma request_topics_server [simp]:
  "ap_server (fst (request_topics sr a)) = ap_server a" "ap_manager (fst (request_topics sr a)) = ap_manager a"
  "ap_job (fst (request_topics sr a)) = ap_job a"
  by (auto simp: request_topics_def split: prod.split option.split)

text \<open>A started server: all layers, all routes.\<close>

definition serving :: "env \<Rightarrow> http_server \<Rightarrow> bool" where
  "serving e s \<longleftrightarrow> hs_listening s \<and> hs_layers s = configured (ac_Middleware (en_Auth e))
     \<and> set (hs_routes s) = set routes"

lemma started_serving:
  "serving e (consumer_routes (producer_route (dataset_route
     (configure_server (ac_Middleware (en_Auth e)) (register new_web_server\<lparr>hs_listening := True\<rparr>)))))"
  by (auto simp: serving_def consumer_routes_def producer_route_def dataset_route_def add_route_def
      configure_server_eq register_def new_web_server_def routes_def)

lemma start_app_result:
  assumes "ap_server a = register new_web_server" and "mg_listeners (ap_manager a) = []"
    and "mg_datalayer (ap_manager a) = Some k"
  shows "case snd (init_topics A (kc_producers k)) of
      Inl (Panic p) \<Rightarrow> snd (start_app A e a) = Inl (Panic p)
    | Inl (Err err) \<Rightarrow> snd (start_app A e a) = Inl (Err err) \<and> \<not> hs_listening (ap_server (fst (start_app A e a)))
    | Inr _ \<Rightarrow> snd (start_app A e a) = Inr () \<and> serving e (ap_server (fst (start_app A e a)))
        \<and> ap_manager (fst (start_app A e a)) = add_listener topics_listener (ap_manager a)
        \<and> ap_job (fst (start_app A e a)) = ap_job a"
proof -
  obtain specs r where r: "init_topics A (kc_producers k) = (specs, r)" by fastforce
  let ?a1 = "on_server (\<lambda>s. dataset_route (configure_server (ac_Middleware (en_Auth e)) (s\<lparr>hs_listening := True\<rparr>))) a"
  let ?a2 = "?a1\<lparr>ap_manager := add_listener topics_listener (ap_manager ?a1)\<rparr>"
  obtain a3 where a3: "request_topics (specs, r) ?a2 = (a3, r)"
    by (cases "request_topics (specs, r) ?a2") (metis request_topics_snd snd_conv)
  have server: "ap_server a3 = dataset_route (configure_server (ac_Middleware (en_Auth e))
      (register new_web_server\<lparr>hs_listening := True\<rparr>))"
    using arg_cong [OF a3, of "\<lambda>x. ap_server (fst x)"] assms(1) by (simp add: on_server_def)
  have manager: "ap_manager a3 = add_listener topics_listener (ap_manager a)"
    using arg_cong [OF a3, of "\<lambda>x. ap_manager (fst x)"] by (simp add: on_server_def)
  have job: "ap_job a3 = ap_job a"
    using arg_cong [OF a3, of "\<lambda>x. ap_job (fst x)"] by (simp add: on_server_def)
  show ?thesis
    using r a3 server manager job started_serving [of e] assms(3)
    by (auto simp: start_app_eq Let_def producers_on_start_Some on_server_def split: sum.splits failure.splits)
qed

lemma new_app_state:
  assumes "new_app L md5 S NA SC e given w = Inr a"
  shows "ap_server a = register new_web_server" and "mg_listeners (ap_manager a) = []"
    and "ap_manager a = new_manager L md5 w (en_ConfigLocation e) (new_token_providers (get_string given))"
    and "ap_job a \<longleftrightarrow> scheduled SC (en_RefreshInterval e)"
  using assms by (auto simp: new_app_def new_manager_listeners split: sum.splits)

lemma started_app:
  assumes "new_app L md5 S NA SC e given w = Inr a" and "start_app A e a = (b, Inr ())"
  shows "serving e (ap_server b)" and "ap_manager b = add_listener topics_listener (ap_manager a)"
    and "mg_datalayer (ap_manager a) \<noteq> None" and "ap_job b = ap_job a"
proof -
  note new = new_app_state [OF assms(1)]
  show some: "mg_datalayer (ap_manager a) \<noteq> None"
  proof
    assume "mg_datalayer (ap_manager a) = None"
    with assms(2) show False by (simp add: start_app_eq producers_on_start_def request_topics_def Let_def)
  qed
  then obtain k where k: "mg_datalayer (ap_manager a) = Some k" by blast
  from start_app_result [OF new(1,2) k, of A e] assms(2)
  show "serving e (ap_server b)" "ap_manager b = add_listener topics_listener (ap_manager a)" "ap_job b = ap_job a"
    by (auto split: sum.splits failure.splits)
qed

section \<open>Topics of a new configuration\<close>

lemma init_topics_ok:
  assumes "\<forall>p \<in> set ps. pc_createTopic p \<longrightarrow> pc_topicSettings p \<noteq> None"
  shows "\<exists>specs. list_all2 (\<lambda>p s. topic_spec_for p = Inr s) (filter pc_createTopic ps) specs
    \<and> init_topics A ps = (if specs = [] then (None, Inr ())
        else (Some specs, case A specs of None \<Rightarrow> Inr () | Some err \<Rightarrow> Inl (Err err)))"
proof -
  have "\<forall>p \<in> set (filter pc_createTopic ps). \<exists>s. topic_spec_for p = Inr s"
    using assms by (auto simp: topic_spec_for_Inr_iff)
  then obtain f where "\<forall>p \<in> set (filter pc_createTopic ps). topic_spec_for p = Inr (f p)" by metis
  then have all: "list_all2 (\<lambda>p s. topic_spec_for p = Inr s) (filter pc_createTopic ps) (map f (filter pc_createTopic ps))"
    by (auto simp: list_all2_map2 intro: list_all2_same [THEN iffD2])
  then have "go_map topic_spec_for (filter pc_createTopic ps) = Inr (map f (filter pc_createTopic ps))"
    by (simp add: go_map_Inr_iff)
  with all show ?thesis by (auto simp: init_topics_def)
qed

lemma update_topics_ok:
  assumes "\<forall>p \<in> set (kc_producers k). pc_createTopic p \<longrightarrow> pc_topicSettings p \<noteq> None"
  shows "\<exists>specs. list_all2 (\<lambda>p s. topic_spec_for p = Inr s) (filter pc_createTopic (kc_producers k)) specs
    \<and> producers_on_update A (Some k) = (if specs = [] then None else Some specs, Inr ())"
proof -
  obtain specs where "list_all2 (\<lambda>p s. topic_spec_for p = Inr s) (filter pc_createTopic (kc_producers k)) specs"
      and "init_topics A (kc_producers k) = (if specs = [] then (None, Inr ())
        else (Some specs, case A specs of None \<Rightarrow> Inr () | Some err \<Rightarrow> Inl (Err err)))"
    using init_topics_ok [OF assms, of A] by blast
  then show ?thesis
    by (intro exI [of _ specs]) (simp add: producers_on_update_def split: option.split)
qed

lemma request_topics_topics:
  "ap_topics (fst (request_topics (if specs = [] then None else Some specs, r) a))
     = ap_topics a @ (if specs = [] then [] else [specs])"
  by (simp add: request_topics_def)

text \<open>What the listener does is what the start hook does, but for an error, which it drops.\<close>

lemma refresh_app_new:
  assumes "snd (fetch L w (ap_manager b)) = Some content" and "md5 content \<noteq> st_digest (mg_state (ap_manager b))"
    and "parse_config content = Some k" and "topics_listener \<in> set (mg_listeners (ap_manager b))" and "ap_job b"
  shows "refresh_app L md5 A w b =
      request_topics (producers_on_update A (Some k)) (b\<lparr>ap_manager := fst (run L md5 w (ap_manager b))\<rparr>)"
    and "mg_datalayer (fst (run L md5 w (ap_manager b))) = Some k"
  using assms by (auto simp: refresh_app_def run_def load_new Let_def image_image)

section \<open>A listing through the chain\<close>

text \<open>A request the whole chain lets through to a handler is answered by it.\<close>

lemma served_reply:
  assumes "serving e s" and "chain_ok Ch" and "ac_Middleware (en_Auth e) \<noteq> ''noop''"
    and "\<not> skipper c" and "\<And>h. ch_cors Ch setup_cors h c = h c"
    and "accepted (ch_jwt Ch) (setup_jwt (en_Auth e)) (ch_keys Ch) c = Some tok"
    and "ch_router Ch (hs_routes s) (c\<lparr>rq_user := Some tok\<rparr>) = Some (m, p, ep, Some ws)"
    and "permits ws tok (rq_uri c)" and "H ep (c\<lparr>rq_user := Some tok\<rparr>) = Reply code body"
  shows "answer Ch e s H c = Some (Reply code body)"
proof -
  let ?c = "c\<lparr>rq_user := Some tok\<rparr>"
  have jwt: "jwt_allow (ch_jwt Ch) (setup_jwt (en_Auth e)) (ch_keys Ch) c"
      "jwt_pass (ch_jwt Ch) (setup_jwt (en_Auth e)) (ch_keys Ch) c = ?c"
    using assms(4,6) by (simp_all add: jwt_allow_def jwt_pass_def)
  have "auth_allow (ch_intersect Ch) ws ?c"
    using auth_allow_permits [OF chain_intersect [OF assms(2)], of ?c tok ws] assms(8) by simp
  then have "dispatch Ch (ac_Middleware (en_Auth e)) (hs_routes s) H ?c = Reply code body"
    using assms(3,7,9) by (simp add: dispatch_def guarded_def chosen_authorizer_def auth.passes)
  with jwt assms(1,3,4,5) show ?thesis
    by (simp add: answer_def serving_def configured_chain configure_def logger_filter_def jwt.passes recover_mw_def)
qed

section \<open>Panics in the token check\<close>

definition token_check_panics :: "jwtlib \<Rightarrow> string + jwk list option \<Rightarrow> request \<Rightarrow> bool" where
  "token_check_panics J jwks c \<longleftrightarrow>
     (case extract_token (rq_authorization c) of
        Inl _ \<Rightarrow> False
      | Inr auth \<Rightarrow> (case jw_parse J auth (key_func J jwks) of Inl (Panic _) \<Rightarrow> True | _ \<Rightarrow> False))"

lemma recover_replies: "\<exists>status body. reported render (recover_mw render h c) = Reply status body"
  by (auto simp: reported_def recover_mw_def split: reply.split option.split)

lemma jwt_replies:
  assumes "\<not> token_check_panics J jwks c"
  shows "\<exists>status body. reported render (jwt_handler J cfg jwks (recover_mw render h) c) = Reply status body"
  using assms recover_replies
  by (auto simp: jwt_handler_def token_check_panics_def extract_token_def reported_def
      split: option.split sum.splits failure.splits)

section \<open>Reading a dataset\<close>

lemma emit_json_continuation:
  "emit_json L (continuation_entity t) = JObj [(''id'', JStr ''@continuation''), (''token'', JStr t)]"
  by (simp add: emit_json_def continuation_entity_def new_entity_def gm_index_def gm_get_def)

lemma consume_reply:
  assumes "run_request V running since ticks = Some (eff, Inr ())"
    and "config_for (sv_configs V) (sv_dataset V) = Some c"
    and "broker_fine (sv_broker V) (cc_topic c) ids"
    and "param_name param = sv_dataset V" and "limit_of limit = sv_limit V" and "lib_ok (sv_lib V)"
    and "\<forall>e \<in> set (emitted eff). json_depth (emit_json (sv_lib V) e) < max_depth"
  shows "\<exists>body cx es.
    consume (sv_lib V) (sv_configs V) (sv_configs V)
      (\<lambda>rq. change_set (sv_lib V) (sv_gjson V) (sv_formats V) (sv_broker V) (sv_configs V) running rq ticks)
      param limit since = Some (Reply 200 body)
    \<and> get_context (sv_configs V) (sv_dataset V) = Inr cx
    \<and> list_all2 (\<lambda>m e. entity_of_message V m = Inr e) (messages_read V ticks) es
    \<and> json_parse body = Some (JArr (of_gval (sv_lib V) cx # map (emit_json (sv_lib V)) es
        @ (if returned_token since eff = [] then []
           else [JObj [(''id'', JStr ''@continuation''), (''token'', JStr (returned_token since eff))]])))"
proof -
  let ?L = "sv_lib V" and ?d = "sv_dataset V"
  obtain cx where cx: "get_context (sv_configs V) ?d = Inr cx"
    using assms(2) by (simp add: get_context_def)
  have known: "does_dataset_exist (sv_configs V) ?d"
    using assms(2) by (auto simp: config_for_def does_dataset_exist_def list_ex_iff find_Some_iff)
  have run: "change_set ?L (sv_gjson V) (sv_formats V) (sv_broker V) (sv_configs V) running
      \<lparr>rq_dataset = param_name param, rq_since = since, rq_limit = limit_of limit\<rparr> ticks = Some (eff, Inr ())"
    using assms(1,4,5) by (simp add: run_request_def request_for_def)
  note read = run_request_ok [OF assms(1-3)]
  have "json_parse (body_so_far ?L cx (emitted eff) @ '']'')
      = Some (JArr (of_gval ?L cx # map (emit_json ?L) (emitted eff)))"
    by (rule body_parses [OF assms(6) cx assms(7)])
  then have "json_parse (body_so_far ?L cx (emitted eff) @ '']'')
      = Some (JArr (of_gval ?L cx # map (emit_json ?L) (changes eff)
        @ (if returned_token since eff = [] then []
           else [JObj [(''id'', JStr ''@continuation''), (''token'', JStr (returned_token since eff))]])))"
    by (subst (asm) (2) read(4)) (simp add: emit_json_continuation)
  moreover have "consume ?L (sv_configs V) (sv_configs V)
      (\<lambda>rq. change_set ?L (sv_gjson V) (sv_formats V) (sv_broker V) (sv_configs V) running rq ticks)
      param limit since = Some (Reply 200 (body_so_far ?L cx (emitted eff) @ '']''))"
    using known cx run assms(4) by (intro consume_ok [where r = "Inr ()"]) simp_all
  ultimately show ?thesis using cx read(3) by blast
qed

end
