(* ===== verification/AppProperties.thy ===== *)
theory AppProperties
  imports AppFacts ServiceProperties
begin

text \<open>
  The properties of the program as a whole: starting it, serving while it starts, refreshing its
  configuration, and what is recorded of each request.
\<close>

section \<open>A small installation\<close>

definition sample_given :: "string \<Rightarrow> string option" where
  "sample_given = map_of [(''TOKEN_AUDIENCE'', ''https://api''), (''TOKEN_ISSUER'', ''https://mimiro''),
     (''CONFIG_LOCATION'', ''file://c.json'')]"

definition installed_env :: env where
  "installed_env = new_env None sample_given [''localhost:9092'']"

definition sample_router :: "route list \<Rightarrow> request \<Rightarrow> route option" where
  "sample_router rs c = find (\<lambda>r. fst r = rq_method c \<and> fst (snd r) = rq_path c) rs"

definition sample_chain :: chain where
  "sample_chain = \<lparr>ch_render = (\<lambda>_ s. s), ch_cors = (\<lambda>_ h. h), ch_jwt = sample_jwt,
     ch_keys = Inr (Some sample_keys), ch_intersect = sample_intersect, ch_router = sample_router\<rparr>"

lemma sample_chain_ok: "chain_ok sample_chain"
  by (auto simp: chain_ok_def sample_chain_def sample_router_def sample_intersect_def find_Some_iff)

text \<open>What the file holds decides everything else.\<close>

definition sample_app :: "string \<Rightarrow> string + app" where
  "sample_app text_read = new_app sample_lib (\<lambda>s. s) (\<lambda>_ _ _. Inr ()) (\<lambda>_. None) (\<lambda>_. None) installed_env sample_given
     (sample_world text_read)"

definition sample_config_text :: string where
  "sample_config_text = ''{\"producers\":[{\"dataset\":\"a\",\"topic\":\"t\",\"createTopic\":true,\"topicSettings\":{}}]}''"

text \<open>The program built on this file, and started.\<close>

definition sample_built :: app where
  "sample_built = projr (sample_app sample_config_text)"

definition sample_running :: app where
  "sample_running = fst (start_app (\<lambda>_. None) installed_env sample_built)"

lemma sample_built: "new_app sample_lib (\<lambda>s. s) (\<lambda>_ _ _. Inr ()) (\<lambda>_. None) (\<lambda>_. None) installed_env sample_given
    (sample_world sample_config_text) = Inr sample_built"
proof -
  have "\<not> isl (sample_app sample_config_text)" by code_simp
  then show ?thesis by (cases "sample_app sample_config_text") (auto simp: sample_built_def sample_app_def)
qed

lemma sample_running: "start_app (\<lambda>_. None) installed_env sample_built = (sample_running, Inr ())"
proof -
  have "snd (start_app (\<lambda>_. None) installed_env sample_built) = Inr ()" by code_simp
  then show ?thesis
    by (cases "start_app (\<lambda>_. None) installed_env sample_built") (simp add: sample_running_def)
qed

section \<open>Serving while the program starts\<close>

text \<open>
  C4.  Whatever order the container chooses and however far the start hooks have got, failed ones
  included: unless \<^verbatim>\<open>AUTHORIZATION_MIDDLEWARE\<close> is \<^verbatim>\<open>noop\<close>, no handler other than the health check has any
  influence on an answer of the server without an accepted token that the scopes of its own route permit.
  The middleware is in place before any route is.  The profile plays no part: \<^verbatim>\<open>PROFILE=local\<close> does not switch
  security off, as the README says it does.
\<close>

theorem no_unguarded_moment:
  assumes "wiring_order (xs @ ys)" and "new_app L md5 S NA SC e given w = Inr a"
    and "ac_Middleware (en_Auth e) \<noteq> ''noop''" and "rq_user c = None" and "chain_ok Ch"
    and "H1 Health = H2 Health"
    and "answer Ch e (ap_server (fst (start_hooks A e [] xs a))) H1 c
      \<noteq> answer Ch e (ap_server (fst (start_hooks A e [] xs a))) H2 c"
  shows "\<exists>tok m p ep ws. accepted (ch_jwt Ch) (setup_jwt (en_Auth e)) (ch_keys Ch) c = Some tok
    \<and> ch_router Ch (hs_routes (ap_server (fst (start_hooks A e [] xs a)))) (c\<lparr>rq_user := Some tok\<rparr>) = Some (m, p, ep, Some ws)
    \<and> (m, p, ep, Some ws) \<in> set routes \<and> H1 ep (c\<lparr>rq_user := Some tok\<rparr>) \<noteq> H2 ep (c\<lparr>rq_user := Some tok\<rparr>)
    \<and> permits ws tok (rq_uri c)"
proof -
  have "ordered_after [] xs"
    using assms(1) by (simp add: wiring_order_def ordered_after_append)
  moreover have "server_ok (ac_Middleware (en_Auth e)) (NewMiddleware \<in> set []) (ap_server a)"
    using assms(2) server_ok_new by (auto simp: new_app_def split: sum.splits)
  ultimately obtain ready where "server_ok (ac_Middleware (en_Auth e)) ready (ap_server (fst (start_hooks A e [] xs a)))"
    using start_hooks_server_ok by blast
  from answer_reached [OF this assms(7,3,6,5)] obtain m p ep ws where route: "(m, p, ep, Some ws) \<in> set routes"
        "ch_router Ch (hs_routes (ap_server (fst (start_hooks A e [] xs a))))
          (jwt_pass (ch_jwt Ch) (setup_jwt (en_Auth e)) (ch_keys Ch) c) = Some (m, p, ep, Some ws)"
        "H1 ep (jwt_pass (ch_jwt Ch) (setup_jwt (en_Auth e)) (ch_keys Ch) c)
          \<noteq> H2 ep (jwt_pass (ch_jwt Ch) (setup_jwt (en_Auth e)) (ch_keys Ch) c)"
      and pass: "jwt_allow (ch_jwt Ch) (setup_jwt (en_Auth e)) (ch_keys Ch) c"
        "auth_allow (ch_intersect Ch) ws (jwt_pass (ch_jwt Ch) (setup_jwt (en_Auth e)) (ch_keys Ch) c)"
    by blast
  from token_needed [OF pass assms(4) chain_intersect [OF assms(5)]] route show ?thesis by auto
qed

theorem no_unguarded_moment_witness:
  "\<exists>tok ws. accepted sample_jwt (setup_jwt (en_Auth installed_env)) (Inr (Some sample_keys)) sample_request = Some tok
     \<and> permits ws tok ''/datasets''"
proof -
  obtain a where a: "sample_app ''{}'' = Inr a" and read: "mg_datalayer (ap_manager a) = Some zero_config"
      and server: "ap_server a = register new_web_server"
  proof -
    have "(case sample_app ''{}'' of Inr a \<Rightarrow> mg_datalayer (ap_manager a) = Some zero_config
        \<and> ap_server a = register new_web_server | Inl _ \<Rightarrow> False)" by code_simp
    then show thesis using that by (auto split: sum.splits)
  qed
  let ?b = "fst (start_hooks (\<lambda>_. None) installed_env [] (take 9 wire) a)"
  have "wiring_order (take 9 wire @ drop 9 wire)" "ac_Middleware (en_Auth installed_env) \<noteq> ''noop''"
    by code_simp+
  moreover have b: "ap_server ?b = dataset_route (configure_server (ac_Middleware (en_Auth installed_env))
      (register new_web_server\<lparr>hs_listening := True\<rparr>))"
    by (simp add: wire_eq on_server_def hook_defs server)
  have "answer sample_chain installed_env (ap_server ?b) (\<lambda>_ _. Reply 200 []) sample_request
      \<noteq> answer sample_chain installed_env (ap_server ?b) (\<lambda>ep _. if ep = Health then Reply 200 [] else Reply 201 [])
        sample_request"
    unfolding b by code_simp
  moreover have "rq_user sample_request = None" "rq_uri sample_request = ''/datasets''"
    by (simp_all add: sample_request_def)
  ultimately show ?thesis
    using no_unguarded_moment [of "take 9 wire" "drop 9 wire", OF _ a [unfolded sample_app_def] _ _ sample_chain_ok,
        of sample_request "\<lambda>_ _. Reply 200 []" "\<lambda>ep _. if ep = Health then Reply 200 [] else Reply 201 []"
          "\<lambda>_. None"]
    by (auto simp: sample_chain_def)
qed

section \<open>The outcome of a start\<close>

text \<open>
  C13.  A start succeeds exactly when there is a configuration and its topics could be asked for; then the
  server listens with all layers and all routes and the listener for new topics is registered.  An
  error of the admin client takes the server down again, and without a configuration, or with a topic
  to be created without settings, the process ends in a panic.
\<close>

theorem start_outcome:
  assumes "new_app L md5 S NA SC e given w = Inr a"
  shows "case mg_datalayer (ap_manager a) of
      None \<Rightarrow> snd (start_app A e a) = Inl (Panic NilDereference)
    | Some k \<Rightarrow>
        (case snd (init_topics A (kc_producers k)) of
           Inl (Panic p) \<Rightarrow> snd (start_app A e a) = Inl (Panic p)
         | Inl (Err err) \<Rightarrow> snd (start_app A e a) = Inl (Err err)
             \<and> \<not> hs_listening (ap_server (fst (start_app A e a)))
         | Inr _ \<Rightarrow> snd (start_app A e a) = Inr () \<and> serving e (ap_server (fst (start_app A e a)))
             \<and> ap_manager (fst (start_app A e a)) = add_listener topics_listener (ap_manager a))"
proof (cases "mg_datalayer (ap_manager a)")
  case None
  then show ?thesis by (simp add: start_app_eq producers_on_start_def request_topics_def Let_def)
next
  case (Some k)
  with start_app_result [OF new_app_state(1,2) [OF assms] Some, of A e] show ?thesis
    by (auto split: sum.splits failure.splits)
qed

theorem start_outcome_witness:
  "snd (start_app (\<lambda>_. Some ''down'') installed_env sample_built) = Inl (Err ''down'')
     \<and> \<not> hs_listening (ap_server (fst (start_app (\<lambda>_. Some ''down'') installed_env sample_built)))"
proof -
  have "map_option (\<lambda>k. snd (init_topics (\<lambda>_. Some ''down'') (kc_producers k))) (mg_datalayer (ap_manager sample_built))
      = Some (Inl (Err ''down''))"
    by code_simp
  with start_outcome [OF sample_built, of "\<lambda>_. Some ''down''"] show ?thesis
    by (auto split: option.splits)
qed

section \<open>A request to the started program\<close>

text \<open>
  C14.  Once the program has started, a request for the dataset listing with an accepted and permitted token
  is answered, through the router, the token check, the authorizer and the handler, with status 200 and a
  JSON array that has each dataset of the configuration in use once, in some order, with \<^verbatim>\<open>GET\<close> if it has a
  consumer and \<^verbatim>\<open>POST\<close> if it has a producer; one with two consumers and no producer has both.
\<close>

theorem started_service_lists:
  assumes "new_app L md5 S NA SC e given w = Inr a" and "start_app A e a = (b, Inr ())"
    and "chain_ok Ch" and "ac_Middleware (en_Auth e) \<noteq> ''noop''"
    and "\<not> skipper c" and "\<And>h. ch_cors Ch setup_cors h c = h c"
    and "accepted (ch_jwt Ch) (setup_jwt (en_Auth e)) (ch_keys Ch) c = Some tok"
    and "ch_router Ch (hs_routes (ap_server b)) (c\<lparr>rq_user := Some tok\<rparr>)
      = Some (''GET'', ''/datasets'', ListDatasets, Some [''datahub:r''])"
    and "permits [''datahub:r''] tok (rq_uri c)" and "H ListDatasets = list_datasets_handler rank (ap_manager b)"
  shows "\<exists>k body ds. mg_datalayer (ap_manager b) = Some k
    \<and> answer Ch e (ap_server b) H c = Some (Reply 200 body)
    \<and> json_parse body = Some (JArr (map dataset_json ds))
    \<and> distinct (map fst ds) \<and> map_of ds = listed_types k"
proof -
  obtain k where k: "mg_datalayer (ap_manager b) = Some k"
    using started_app [OF assms(1,2)] by (auto simp: add_listener_def)
  let ?ds = "gm_visit rank (dataset_map k)"
  obtain body where body: "list_datasets rank k = Reply 200 body"
      "json_parse body = Some (JArr (map dataset_json ?ds))"
    using list_datasets_parses by blast
  have once: "distinct (map fst ?ds)"
    using dataset_map_ok [of k] gm_ok_visit [of rank "dataset_map k"] by (simp add: gm_ok_def)
  have types: "map_of ?ds = listed_types k"
    using dataset_map_types [of k] gm_get_visit [OF dataset_map_ok, of rank k] by (simp add: gm_get_def fun_eq_iff)
  have "H ListDatasets (c\<lparr>rq_user := Some tok\<rparr>) = Reply 200 body"
    using k body(1) assms(10) by (simp add: list_datasets_handler_def)
  from served_reply [where H = H, OF started_app(1) [OF assms(1,2)] assms(3-9) this] k body(2) once types
  show ?thesis by blast
qed

theorem started_service_lists_witness:
  "\<exists>k body ds. mg_datalayer (ap_manager sample_running) = Some k \<and> map_of ds = listed_types k
     \<and> json_parse body = Some (JArr (map dataset_json ds))
     \<and> answer sample_chain installed_env (ap_server sample_running)
         (\<lambda>_. list_datasets_handler length (ap_manager sample_running)) sample_request = Some (Reply 200 body)"
proof -
  have h: "accepted (ch_jwt sample_chain) (setup_jwt (en_Auth installed_env)) (ch_keys sample_chain) sample_request
      = Some sample_token" "\<not> skipper sample_request" "ac_Middleware (en_Auth installed_env) \<noteq> ''noop''"
      "permits [''datahub:r''] sample_token (rq_uri sample_request)"
    by code_simp+
  moreover have "ch_router sample_chain (hs_routes (ap_server sample_running)) (sample_request\<lparr>rq_user := Some sample_token\<rparr>)
      = Some (''GET'', ''/datasets'', ListDatasets, Some [''datahub:r''])"
    by code_simp
  moreover have "ch_cors sample_chain setup_cors h sample_request = h sample_request" for h
    by (simp add: sample_chain_def)
  ultimately show ?thesis
    using started_service_lists [OF sample_built sample_running sample_chain_ok, of sample_request sample_token
        "\<lambda>_. list_datasets_handler length (ap_manager sample_running)" length]
    by blast
qed

section \<open>A refresh of the running program\<close>

text \<open>
  C17.  When the refresh job is scheduled and a refresh of the started program reads a new configuration, it is in use from then on, and the
  admin client is asked for its topics: one request with a specification of each producer that wants its
  topic created, whatever the client answers.  One such producer without settings ends the running
  program in a panic.
\<close>

theorem refresh_creates_topics:
  assumes "new_app L md5 S NA SC e given w = Inr a" and "start_app A e a = (b, Inr ())"
    and "scheduled SC (en_RefreshInterval e)" and "snd (fetch L w' (ap_manager b)) = Some content"
    and "md5 content \<noteq> st_digest (mg_state (ap_manager b))" and "parse_config content = Some k"
  defines "after \<equiv> refresh_app L md5 A w' b"
  defines "wanted \<equiv> filter pc_createTopic (kc_producers k)"
  shows "mg_datalayer (ap_manager (fst after)) = Some k
    \<and> (if list_ex (\<lambda>p. pc_topicSettings p = None) wanted then snd after = Inl (Panic NilDereference)
       else \<exists>specs. list_all2 (\<lambda>p s. topic_spec_for p = Inr s) wanted specs \<and> snd after = Inr ()
         \<and> ap_topics (fst after) = ap_topics b @ (if specs = [] then [] else [specs]))"
proof -
  have listener: "topics_listener \<in> set (mg_listeners (ap_manager b))"
    using started_app(2) [OF assms(1,2)] by (simp add: add_listener_def)
  have job: "ap_job b"
    using started_app(4) [OF assms(1,2)] new_app_state(4) [OF assms(1)] assms(3) by simp
  have new: "after = request_topics (producers_on_update A (Some k))
      (b\<lparr>ap_manager := fst (run L md5 w' (ap_manager b))\<rparr>)"
    unfolding after_def by (rule refresh_app_new [where ?md5.0 = md5, OF assms(4-6) listener job])
  have "mg_datalayer (fst (run L md5 w' (ap_manager b))) = Some k"
    by (rule refresh_app_new(2) [where ?md5.0 = md5, OF assms(4-6) listener job])
  then have "mg_datalayer (ap_manager (fst after)) = Some k"
    using new by simp
  moreover have "snd after = Inl (Panic NilDereference)" if none: "list_ex (\<lambda>p. pc_topicSettings p = None) wanted"
  proof -
    have "init_topics A (kc_producers k) = (None, Inl (Panic NilDereference))"
      using none by (auto simp: wanted_def list_ex_iff intro: init_topics_panics)
    then show ?thesis by (simp add: new producers_on_update_def)
  qed
  moreover have "\<exists>specs. list_all2 (\<lambda>p s. topic_spec_for p = Inr s) wanted specs \<and> snd after = Inr ()
         \<and> ap_topics (fst after) = ap_topics b @ (if specs = [] then [] else [specs])"
    if all: "\<not> list_ex (\<lambda>p. pc_topicSettings p = None) wanted"
  proof -
    have "\<forall>p \<in> set (kc_producers k). pc_createTopic p \<longrightarrow> pc_topicSettings p \<noteq> None"
      using all by (auto simp: wanted_def list_ex_iff)
    then obtain specs where specs: "list_all2 (\<lambda>p s. topic_spec_for p = Inr s) wanted specs"
        "producers_on_update A (Some k) = (if specs = [] then None else Some specs, Inr ())"
      using update_topics_ok [of k A] unfolding wanted_def by blast
    moreover have "ap_topics (b\<lparr>ap_manager := m\<rparr>) = ap_topics b" for m by simp
    ultimately have "snd after = Inr ()" "ap_topics (fst after) = ap_topics b @ (if specs = [] then [] else [specs])"
      by (simp_all only: new request_topics_topics request_topics_snd)
    with specs(1) show ?thesis by blast
  qed
  ultimately show ?thesis by auto
qed

definition bad_text :: string where
  "bad_text = ''{\"producers\":[{\"dataset\":\"a\",\"createTopic\":true}]}''"

theorem refresh_creates_topics_witness:
  "snd (refresh_app sample_lib (\<lambda>s. s) (\<lambda>_. None) (sample_world bad_text) sample_running) = Inl (Panic NilDereference)"
proof -
  have read: "snd (fetch sample_lib (sample_world bad_text) (ap_manager sample_running)) = Some bad_text"
      "bad_text \<noteq> st_digest (mg_state (ap_manager sample_running))"
      "parse_config bad_text = Some (zero_config\<lparr>kc_producers :=
         [zero_producer_config\<lparr>pc_dataset := ''a'', pc_createTopic := True\<rparr>]\<rparr>)"
    by code_simp+
  show ?thesis
    using refresh_creates_topics [OF sample_built sample_running _ read]
    by (simp add: zero_producer_config_def scheduled_def)
qed

section \<open>What is recorded of a request\<close>



end
