(* ===== verification/RegistryLiveness.thy ===== *)
theory RegistryLiveness
  imports ConsumerRegistry
begin

text \<open>
  Progress of the requests in \<^verbatim>\<open>ConsumerRegistry\<close>: with finitely many requests and a scheduler that
  starves none, every request ends or polls on under a context no one has cancelled, and only such requests
  are registered in the end.  A request waits in two places only, for the lock to register and to
  unregister.  When a request leaves its poll loop by itself is a matter of \<^verbatim>\<open>ConsumerLoop\<close>; here nothing is
  asked of a request that polls but that it leaves once its context is cancelled.
\<close>

section \<open>Processes that only go down\<close>

text \<open>
  Each step takes some processes to a phase of lower rank and leaves the others where they are.  Then
  finitely many of them come to rest.
\<close>

locale ranked =
  fixes step :: "'s \<Rightarrow> 's \<Rightarrow> bool"
    and phase :: "'s \<Rightarrow> nat \<Rightarrow> 'p"
    and height :: "'p \<Rightarrow> nat"
  assumes step_down: "step s t \<Longrightarrow> phase t i = phase s i \<or> height (phase t i) < height (phase s i)"
begin

lemma down: "step s t \<or> t = s \<Longrightarrow> height (phase t i) \<le> height (phase s i)"
  using step_down [of s t i] by auto

lemma same: "step s t \<or> t = s \<Longrightarrow> height (phase t i) = height (phase s i) \<Longrightarrow> phase t i = phase s i"
  using step_down [of s t i] by auto

lemma settles:
  assumes run: "\<And>n. step (r n) (r (Suc n)) \<or> r (Suc n) = r n"
  shows "\<exists>n. \<forall>m \<ge> n. \<forall>i < N. phase (r (Suc m)) i = phase (r m) i"
proof -
  define work where "work n = (\<Sum>i<N. height (phase (r n) i))" for n
  have work_down: "work (Suc n) \<le> work n" for n
    unfolding work_def by (intro sum_mono down run)
  have "\<exists>n. \<forall>m. work n \<le> work m"
    using ex_has_least_nat [of "\<lambda>_. True" 0 work] by auto
  then obtain n where least: "\<And>m. work n \<le> work m" by blast
  have const: "work m = work n" if "n \<le> m" for m
    using lift_Suc_antimono_le [of work, OF work_down that] least by (simp add: le_antisym)
  have "phase (r (Suc m)) i = phase (r m) i" if "n \<le> m" "i < N" for m i
  proof (rule same [OF run], rule ccontr)
    assume "height (phase (r (Suc m)) i) \<noteq> height (phase (r m) i)"
    with down [OF run, of m i] have "height (phase (r (Suc m)) i) < height (phase (r m) i)" by simp
    then have "work (Suc m) < work m"
      unfolding work_def using that(2) down [OF run] by (intro sum_strict_mono_ex1) auto
    with const [of m] const [of "Suc m"] that(1) show False by simp
  qed
  then show ?thesis by blast
qed

end

section \<open>Steps that can be taken\<close>

text \<open>
  A started request can move on, if need be when no one holds the read lock.  One that polls has to when its
  context is cancelled; otherwise it may poll for ever.
\<close>

fun may_move :: "phase \<Rightarrow> bool \<Rightarrow> bool \<Rightarrow> bool" where
  "may_move NotStarted free stop = False"
| "may_move Finished free stop = False"
| "may_move Failed free stop = False"
| "may_move HasConsumer free stop = free"
| "may_move Deregistering free stop = free"
| "may_move Polling free stop = stop"
| "may_move _ free stop = True"

definition can_move :: "registry \<Rightarrow> nat \<Rightarrow> bool" where
  "can_move s i \<longleftrightarrow> may_move (phase_of s i) (readers s = 0) (cancelled s i)"

lemma can_move_step:
  assumes "can_move s i"
  shows "\<exists>t. reg_step s t \<and> phase_of t i \<noteq> phase_of s i"
proof -
  consider j where "phase_of s i = Replacing j" | "phase_of s i = LookedUp"
    | "phase_of s i = HasConsumer" "readers s = 0" | "phase_of s i = Polling" | "phase_of s i = Leaving"
    | "phase_of s i = Closing" | "phase_of s i = Deregistering" "readers s = 0"
    using assms by (cases "phase_of s i") (auto simp: can_move_def)
  then show ?thesis
  proof cases
    case 1
    then show ?thesis by (intro exI conjI, rule reg_step.close_previous) (simp_all add: reg_defs)
  next
    case 2
    then show ?thesis by (intro exI conjI, rule reg_step.no_consumer) (simp_all add: reg_defs)
  next
    case 3
    then show ?thesis by (intro exI conjI, rule reg_step.register) (simp_all add: reg_defs)
  next
    case 4
    then show ?thesis by (intro exI conjI, rule reg_step.leave) (simp_all add: reg_defs)
  next
    case 5
    then show ?thesis by (intro exI conjI, rule reg_step.close_own) (simp_all add: reg_defs)
  next
    case 6
    then show ?thesis by (intro exI conjI, rule reg_step.mark) (simp_all add: reg_defs)
  next
    case 7
    then show ?thesis by (intro exI conjI, rule reg_step.deregister) (simp_all add: reg_defs)
  qed
qed

text \<open>Every step but a cancellation takes one request further, and none back.\<close>

fun rank :: "phase \<Rightarrow> nat" where
  "rank NotStarted = 8"
| "rank (Replacing _) = 7"
| "rank LookedUp = 6"
| "rank HasConsumer = 5"
| "rank Polling = 4"
| "rank Leaving = 3"
| "rank Closing = 2"
| "rank Deregistering = 1"
| "rank _ = 0"

lemma step_phase: "reg_step s t \<Longrightarrow> phase_of t i = phase_of s i \<or> rank (phase_of t i) < rank (phase_of s i)"
  by (erule reg_stepE) (auto simp: reg_defs split: option.split)

interpretation requests: ranked reg_step phase_of rank
  by unfold_locales (rule step_phase)

section \<open>The read lock is held by those who replace\<close>

definition replacers :: "registry \<Rightarrow> nat set" where
  "replacers s = {i. \<exists>j. phase_of s i = Replacing j}"

definition lock_ok :: "registry \<Rightarrow> bool" where
  "lock_ok s \<longleftrightarrow> finite {i. phase_of s i \<noteq> NotStarted} \<and> readers s = card (replacers s)"

lemma replacers_at: "replacers (at i p s) =
    (if \<exists>j. p = Replacing j then insert i (replacers s) else replacers s - {i})"
  by (auto simp: replacers_def at_def)

lemma replacers_same [simp]:
  "replacers (s\<lparr>key_of_req := k\<rparr>) = replacers s" "replacers (cancel_req j s) = replacers s"
  "replacers (s\<lparr>readers := n\<rparr>) = replacers s" "replacers (close_consumer j s) = replacers s"
  "replacers (open_consumer j s) = replacers s" "replacers (s\<lparr>entry := m\<rparr>) = replacers s"
  "replacers (s\<lparr>flag := f\<rparr>) = replacers s"
  by (simp_all add: replacers_def cancel_req_def close_consumer_def open_consumer_def)

lemma replacers_finite: "lock_ok s \<Longrightarrow> finite (replacers s)"
  by (auto simp: lock_ok_def replacers_def elim: rev_finite_subset)

lemma started_step: "reg_step s t \<Longrightarrow> \<exists>i. {k. phase_of t k \<noteq> NotStarted} \<subseteq> insert i {k. phase_of s k \<noteq> NotStarted}"
  by (erule reg_stepE) (auto simp: reg_defs split: option.splits if_splits)

lemma readers_same [simp]:
  "readers (at i p s) = readers s" "readers (cancel_req j s) = readers s"
  "readers (close_consumer j s) = readers s" "readers (open_consumer j s) = readers s"
  by (simp_all add: at_def cancel_req_def close_consumer_def open_consumer_def)

lemma not_replacer: "phase_of s i = p \<Longrightarrow> \<forall>j. p \<noteq> Replacing j \<Longrightarrow> i \<notin> replacers s"
  by (simp add: replacers_def)

lemma lock_ok_step:
  assumes "reg_step s t" and "lock_ok s"
  shows "lock_ok t"
proof -
  have "finite {k. phase_of t k \<noteq> NotStarted}"
    using started_step [OF assms(1)] assms(2) by (auto simp: lock_ok_def intro: finite_subset)
  moreover have "readers t = card (replacers t)"
    using assms(1)
  proof cases
    case (look_up i k)
    with assms(2) replacers_finite [OF assms(2)] not_replacer [OF look_up(2)] show ?thesis
      by (cases "entry s k") (auto simp: look_up_key_def Let_def replacers_at lock_ok_def)
  next
    case (close_previous i j)
    then have "i \<in> replacers s" by (simp add: replacers_def)
    with close_previous assms(2) replacers_finite [OF assms(2)] show ?thesis
      by (simp add: replacers_at lock_ok_def)
  qed (use assms(2) not_replacer in \<open>auto simp: replacers_at lock_ok_def\<close>)
  ultimately show ?thesis by (simp add: lock_ok_def)
qed

lemma reachable_lock_ok: "reachable s \<Longrightarrow> lock_ok s"
proof (induction rule: reachable.induct)
  case start
  show ?case by (simp add: lock_ok_def replacers_def start_registry_def)
next
  case (step s t)
  then show ?case using lock_ok_step by blast
qed

section \<open>Fair runs\<close>

text \<open>
  A run is a step or a pause at each instant.  It is fair if no request that could move from some instant on
  is left where it is.
\<close>

definition is_run :: "(nat \<Rightarrow> registry) \<Rightarrow> bool" where
  "is_run r \<longleftrightarrow> r 0 = start_registry \<and> (\<forall>n. reg_step (r n) (r (Suc n)) \<or> r (Suc n) = r n)"

definition fair :: "(nat \<Rightarrow> registry) \<Rightarrow> bool" where
  "fair r \<longleftrightarrow> (\<forall>i n. (\<forall>m \<ge> n. can_move (r m) i) \<longrightarrow> (\<exists>m \<ge> n. phase_of (r (Suc m)) i \<noteq> phase_of (r m) i))"

fun ended :: "phase \<Rightarrow> bool" where
  "ended NotStarted = True"
| "ended Finished = True"
| "ended Failed = True"
| "ended _ = False"

lemma run_reachable: "is_run r \<Longrightarrow> reachable (r n)"
proof (induction n)
  case 0
  then show ?case by (simp add: is_run_def reachable.start)
next
  case (Suc n)
  then show ?case
    by (metis is_run_def reachable.step)
qed

lemma run_cancelled:
  assumes "is_run r" and "cancelled (r n) i"
  shows "n \<le> m \<Longrightarrow> cancelled (r m) i"
proof (induction rule: dec_induct)
  case (step m)
  then show ?case using assms(1) by (metis cancelled_step is_run_def)
qed (rule assms(2))

text \<open>Once no phase changes any more, what is left is at an end or polls under a live context.\<close>

lemma settled_ended:
  assumes run: "is_run r" and fair: "fair r"
    and still: "\<forall>m \<ge> n. \<forall>i. phase_of (r (Suc m)) i = phase_of (r m) i" and "n \<le> m"
  shows "readers (r m) = 0 \<and> (ended (phase_of (r m) i) \<or> live (r m) i)"
proof -
  have phase: "phase_of (r m) i = phase_of (r n) i" if "n \<le> m" for m i
    using that by (induction rule: dec_induct) (simp_all add: still)
  have stuck: "\<exists>m \<ge> k. \<not> can_move (r m) i" if "n \<le> k" for k i
    using fair still that by (fastforce simp: fair_def)
  have poll: "\<not> cancelled (r m) i" if "n \<le> m" "phase_of (r n) i = Polling" for m i
  proof
    assume "cancelled (r m) i"
    then have "can_move (r k) i" if "m \<le> k" for k
      using run_cancelled [OF run _ that] phase [of k i] \<open>n \<le> m\<close> \<open>phase_of (r n) i = Polling\<close> that
      by (simp add: can_move_def)
    with stuck [OF \<open>n \<le> m\<close>, of i] show False by blast
  qed
  have wait: "ended (phase_of (r n) i) \<or> phase_of (r n) i \<in> {HasConsumer, Deregistering, Polling}" for i
  proof -
    obtain m where m: "n \<le> m" "\<not> can_move (r m) i" using stuck by blast
    with phase [OF m(1), of i] show ?thesis by (cases "phase_of (r n) i") (auto simp: can_move_def)
  qed
  have free: "readers (r m) = 0" if "n \<le> m" for m
  proof -
    have "\<nexists>j. phase_of (r m) k = Replacing j" for k
      using wait [of k] phase [OF that, of k] by auto
    then have "replacers (r m) = {}" by (simp add: replacers_def)
    then show ?thesis
      using reachable_lock_ok [OF run_reachable [OF run, of m]] by (simp add: lock_ok_def)
  qed
  obtain k where k: "n \<le> k" "\<not> can_move (r k) i" using stuck by blast
  have "ended (phase_of (r n) i) \<or> phase_of (r n) i = Polling"
    using wait [of i] phase [OF k(1), of i] free [OF k(1)] k(2) by (auto simp: can_move_def)
  with phase [OF \<open>n \<le> m\<close>, of i] poll [OF \<open>n \<le> m\<close>, of i] free [OF \<open>n \<le> m\<close>] show ?thesis
    by (auto simp: live_def)
qed

lemma ended_unregistered: "reachable s \<Longrightarrow> ended (phase_of s i) \<Longrightarrow> entry s k \<noteq> Some i"
  using reachable_reg_inv [of s] by (cases "phase_of s i") (auto simp: reg_inv_def dest: entry_okD)

text \<open>
  C21.  If finitely many requests arrive and the scheduler starves none, then from some instant on every
  request that was started has ended or polls on under a context no one has cancelled, only requests of the
  second kind are registered, the lock is free, and each consumer of a finished request has been closed.  So a
  request that has been replaced, or has cancelled itself, does end.  The consumer of a request whose decoder
  could not be made stays open.
\<close>

theorem requests_settle:
  assumes "is_run r" and "fair r" and "\<forall>n. \<forall>i \<ge> N. phase_of (r n) i = NotStarted"
  shows "\<exists>n. \<forall>m \<ge> n. readers (r m) = 0
    \<and> (\<forall>i. (ended (phase_of (r m) i) \<or> live (r m) i)
          \<and> (phase_of (r m) i = Finished \<longrightarrow> opened (r m) i \<le> closes (r m) i)
          \<and> (phase_of (r m) i = Failed \<longrightarrow> closes (r m) i < opened (r m) i))
    \<and> (\<forall>k i. entry (r m) k = Some i \<longrightarrow> live (r m) i)"
proof -
  obtain n where n: "\<forall>m \<ge> n. \<forall>i < N. phase_of (r (Suc m)) i = phase_of (r m) i"
    using requests.settles [of r N] assms(1) by (auto simp: is_run_def)
  have still: "\<forall>m \<ge> n. \<forall>i. phase_of (r (Suc m)) i = phase_of (r m) i"
    using n assms(3) by (metis not_le)
  show ?thesis
  proof (intro exI [of _ n] allI impI conjI)
    fix m i
    assume m: "n \<le> m"
    have reach: "reachable (r m)" by (rule run_reachable [OF assms(1)])
    then have "req_ok (r m) i" using reachable_reg_inv by (simp add: reg_inv_def)
    then show "phase_of (r m) i = Finished \<Longrightarrow> opened (r m) i \<le> closes (r m) i"
        "phase_of (r m) i = Failed \<Longrightarrow> closes (r m) i < opened (r m) i"
      by (auto simp: req_ok_def)
    show settled: "readers (r m) = 0" "ended (phase_of (r m) i) \<or> live (r m) i"
      using settled_ended [OF assms(1,2) still m] by auto
    show "live (r m) i" if "entry (r m) k = Some i" for k
      using settled(2) ended_unregistered [OF reach] that by blast
  qed
qed

text \<open>One request, started at once and left alone.\<close>

definition solo :: "registry list" where
  "solo =
     (let s1 = look_up_key 0 ''t-g'' start_registry;
          s2 = at 0 HasConsumer (open_consumer 0 s1);
          s3 = at 0 Polling (s2\<lparr>entry := (entry s2)(key_of_req s2 0 \<mapsto> 0)\<rparr>);
          s4 = at 0 Leaving s3;
          s5 = at 0 Closing (close_consumer 0 s4);
          s6 = at 0 Deregistering (cancel_req 0 (s5\<lparr>flag := (flag s5)(0 := True)\<rparr>));
          s7 = at 0 Finished (s6\<lparr>entry := (entry s6)(key_of_req s6 0 := None)\<rparr>) in
      [start_registry, s1, s2, s3, s4, s5, s6, s7])"

definition solo_run :: "nat \<Rightarrow> registry" where
  "solo_run n = solo ! min n 7"

lemma solo_is_run: "is_run solo_run"
proof -
  have "reg_step (solo ! n) (solo ! Suc n)" if "n < 7" for n
  proof -
    from that consider "n = 0" | "n = 1" | "n = 2" | "n = 3" | "n = 4" | "n = 5" | "n = 6" by linarith
    then show ?thesis
    proof cases
      case 1
      then show ?thesis by (auto simp: solo_def Let_def start_registry_def intro: reg_step.look_up)
    next
      case 2
      then show ?thesis
        by (simp add: solo_def Let_def numeral_eq_Suc look_up_key_start)
          (rule reg_step.new_consumer; simp add: at_def)
    next
      case 3
      then show ?thesis
        by (simp add: solo_def Let_def numeral_eq_Suc look_up_key_start)
          (rule reg_step.register; simp add: at_def open_consumer_def start_registry_def)
    next
      case 4
      then show ?thesis
        by (simp add: solo_def Let_def numeral_eq_Suc) (rule reg_step.leave; simp add: at_def)
    next
      case 5
      then show ?thesis
        by (simp add: solo_def Let_def numeral_eq_Suc) (rule reg_step.close_own; simp add: at_def)
    next
      case 6
      then show ?thesis
        by (simp add: solo_def Let_def numeral_eq_Suc) (rule reg_step.mark; simp add: at_def)
    next
      case 7
      then show ?thesis
        by (simp add: solo_def Let_def numeral_eq_Suc)
          (rule reg_step.deregister; simp add: reg_defs start_registry_def)
    qed
  qed
  then have "reg_step (solo_run n) (solo_run (Suc n)) \<or> solo_run (Suc n) = solo_run n" for n
    by (cases "n < 7") (auto simp: solo_run_def)
  moreover have "solo_run 0 = start_registry" by (simp add: solo_run_def solo_def Let_def)
  ultimately show ?thesis by (simp add: is_run_def)
qed

lemma solo_phases: "phase_of (solo_run n) i = NotStarted \<or> i = 0"
proof -
  have "list_all (\<lambda>s. i \<noteq> 0 \<longrightarrow> phase_of s i = NotStarted) solo"
    by (simp add: solo_def Let_def reg_defs start_registry_def)
  then show ?thesis by (auto simp: list_all_length solo_run_def solo_def Let_def)
qed

lemma solo_end: "phase_of (solo_run 7) 0 = Finished"
  by (simp add: solo_run_def solo_def Let_def reg_defs start_registry_def)

lemma solo_fair: "fair solo_run"
proof -
  have "\<not> can_move (solo_run m) i" if "7 \<le> m" for m i
  proof -
    have "solo_run m = solo_run 7" using that by (simp add: solo_run_def)
    then show ?thesis using solo_phases [of 7 i] solo_end by (auto simp: can_move_def)
  qed
  then have "\<exists>m \<ge> n. \<not> can_move (solo_run m) i" for n i
    by (meson nat_le_linear)
  then show ?thesis by (auto simp: fair_def)
qed

theorem requests_settle_witness:
  "\<exists>n. \<forall>m \<ge> n. readers (solo_run m) = 0 \<and> (ended (phase_of (solo_run m) 0) \<or> live (solo_run m) 0)"
  using requests_settle [OF solo_is_run solo_fair, of 1] solo_phases by fastforce

end
