(* ===== verification/RegistryRefinement.thy ===== *)
theory RegistryRefinement
  imports ConsumerTrace RegistryLiveness Samples
begin

text \<open>
  The function \<open>change_set\<close> and the step relation of \<^verbatim>\<open>ConsumerRegistry\<close> model the same code, one as
  a whole, the other in pieces.  Here the trace of a run is replayed on the registry: each call it records
  must be what the relation lets the request do next, with the same key, or the replay fails.  The replay of
  every run succeeds, so the detailed model refines the coarse one.
\<close>

section \<open>Replaying a trace\<close>

text \<open>
  What leaves no call in the trace before the consumer is opened: finding nothing in the map, and giving the
  lock back after a cancelled request whose flag says that it is closed.
\<close>

definition look_up_done :: "nat \<Rightarrow> string \<Rightarrow> registry \<Rightarrow> registry option" where
  "look_up_done i k s =
     (case phase_of s i of
        NotStarted \<Rightarrow> (if entry s k = None then Some (look_up_key i k s) else None)
      | Replacing j \<Rightarrow>
          (if flag s j then Some (at i LookedUp (close_consumer j (s\<lparr>readers := readers s - 1\<rparr>))) else None)
      | LookedUp \<Rightarrow> Some s
      | _ \<Rightarrow> None)"

fun replay_effect :: "nat \<Rightarrow> string \<Rightarrow> effect \<Rightarrow> registry \<Rightarrow> registry option" where
  "replay_effect i k CancelPrevious s =
     (if phase_of s i = NotStarted \<and> entry s k \<noteq> None then Some (look_up_key i k s) else None)"
| "replay_effect i k ClosePrevious s =
     (case phase_of s i of
        Replacing j \<Rightarrow>
          (if flag s j then None else Some (at i LookedUp (close_consumer j (s\<lparr>readers := readers s - 1\<rparr>))))
      | _ \<Rightarrow> None)"
| "replay_effect i k (OpenConsumer g) s =
     map_option (\<lambda>s. at i HasConsumer (open_consumer i s)) (look_up_done i k s)"
| "replay_effect i k (Register k') s =
     (if phase_of s i = HasConsumer \<and> readers s = 0 \<and> k' = key_of_req s i
      then Some (at i Polling (s\<lparr>entry := (entry s)(k' \<mapsto> i)\<rparr>)) else None)"
| "replay_effect i k CloseConsumer s =
     (if phase_of s i = Polling then Some (at i Closing (close_consumer i (at i Leaving s))) else None)"
| "replay_effect i k CancelContext s =
     (case phase_of s i of
        HasConsumer \<Rightarrow> Some (at i Failed (cancel_req i s))
      | Polling \<Rightarrow> Some (cancel_req i s)
      | Closing \<Rightarrow> Some (at i Deregistering (cancel_req i (s\<lparr>flag := (flag s)(i := True)\<rparr>)))
      | _ \<Rightarrow> None)"
| "replay_effect i k (Unregister k') s =
     (if phase_of s i = Deregistering \<and> readers s = 0 \<and> k' = key_of_req s i
      then Some (at i Finished (s\<lparr>entry := (entry s)(k' := None)\<rparr>)) else None)"
| "replay_effect i k e s = (if phase_of s i = Polling then Some s else None)"

fun replay :: "nat \<Rightarrow> string \<Rightarrow> effect list \<Rightarrow> registry \<Rightarrow> registry option" where
  "replay i k [] s = Some s"
| "replay i k (e # es) s = Option.bind (replay_effect i k e s) (replay i k es)"

text \<open>
  A run that ended before its consumer was opened leaves by the early return; one that has opened it and
  ends without another call has panicked in the decoder's constructor.
\<close>

definition end_run :: "nat \<Rightarrow> string \<Rightarrow> registry \<Rightarrow> registry option" where
  "end_run i k s =
     (case phase_of s i of
        Finished \<Rightarrow> Some s
      | Failed \<Rightarrow> Some s
      | HasConsumer \<Rightarrow> Some (at i Failed s)
      | _ \<Rightarrow> map_option (at i Finished) (look_up_done i k s))"

definition replay_run :: "nat \<Rightarrow> string \<Rightarrow> effect list \<Rightarrow> registry \<Rightarrow> registry option" where
  "replay_run i k eff s = Option.bind (replay i k eff s) (end_run i k)"

section \<open>What can be replayed is a run of the relation\<close>

lemma leads_to_trans: "leads_to t u \<Longrightarrow> leads_to s t \<Longrightarrow> leads_to s u"
  by (induction rule: leads_to.induct) (auto intro: leads_to.further)

lemma leads_to_step: "reg_step s t \<Longrightarrow> leads_to s t"
  using leads_to.further [OF leads_to.stay] .

lemmas one_step = reg_step.intros [THEN leads_to_step]

lemma leave_and_close: "phase_of s i = Polling \<Longrightarrow> leads_to s (at i Closing (close_consumer i (at i Leaving s)))"
  using leads_to.further [OF leads_to_step [OF reg_step.leave], of s i] reg_step.close_own [of "at i Leaving s" i]
  by (simp add: at_def)

lemma close_and_go_on: "phase_of s i = Replacing j \<Longrightarrow>
    leads_to s (at i LookedUp (close_consumer j (s\<lparr>readers := readers s - Suc 0\<rparr>)))"
  using leads_to_step [OF reg_step.close_previous [of s i j]] by simp

lemmas moves = one_step close_and_go_on leave_and_close leads_to.stay

lemma look_up_done_leads: "look_up_done i k s = Some t \<Longrightarrow> leads_to s t \<and> phase_of t i = LookedUp"
proof
  assume done_up: "look_up_done i k s = Some t"
  then show "leads_to s t"
    by (auto simp: look_up_done_def intro: moves split: phase.splits if_splits)
  from done_up show "phase_of t i = LookedUp"
    by (auto simp: look_up_done_def reg_defs split: phase.splits if_splits)
qed

lemma replay_effect_leads: "replay_effect i k e s = Some t \<Longrightarrow> leads_to s t"
proof (cases e)
  case (OpenConsumer g)
  moreover assume "replay_effect i k e s = Some t"
  ultimately obtain u where "look_up_done i k s = Some u" "t = at i HasConsumer (open_consumer i u)" by auto
  with look_up_done_leads [of i k s u] show ?thesis by (auto intro: leads_to.further reg_step.new_consumer)
qed (auto intro: moves split: phase.splits if_splits)

lemma replay_leads: "replay i k es s = Some t \<Longrightarrow> leads_to s t"
proof (induction es arbitrary: s)
  case Nil
  then show ?case by (simp add: leads_to.stay)
next
  case (Cons e es)
  then obtain u where "replay_effect i k e s = Some u" "replay i k es u = Some t"
    by (auto simp: bind_eq_Some_conv)
  with Cons.IH [of u] show ?case by (blast intro: leads_to_trans replay_effect_leads)
qed

lemma end_run_leads: "end_run i k s = Some t \<Longrightarrow> leads_to s t \<and> phase_of t i \<in> {Finished, Failed}"
proof -
  assume run: "end_run i k s = Some t"
  consider "phase_of s i \<in> {Finished, Failed}" "t = s" | "phase_of s i = HasConsumer" "t = at i Failed s"
    | u where "look_up_done i k s = Some u" "t = at i Finished u"
    using run by (cases "phase_of s i") (auto simp: end_run_def)
  then show ?thesis
  proof cases
    case 1
    then show ?thesis by (auto intro: moves)
  next
    case 2
    then have "leads_to s t" by (simp add: moves)
    with 2(2) show ?thesis by (simp add: at_def)
  next
    case 3
    from look_up_done_leads [OF 3(1)] have "leads_to s t"
      unfolding 3(2) by (blast intro: leads_to.further reg_step.no_consumer)
    with 3(2) show ?thesis by (simp add: at_def)
  qed
qed

lemma replay_run_leads: "replay_run i k es s = Some t \<Longrightarrow> leads_to s t \<and> phase_of t i \<in> {Finished, Failed}"
  unfolding replay_run_def bind_eq_Some_conv using replay_leads end_run_leads leads_to_trans by blast

section \<open>The trace of a run, in parts\<close>

text \<open>The calls between the registration and the clean-up.\<close>

fun polling_effect :: "effect \<Rightarrow> bool" where
  "polling_effect (GetMetadata _) = True"
| "polling_effect (CommitOffsets _) = True"
| "polling_effect (Subscribe _) = True"
| "polling_effect (Emit _) = True"
| "polling_effect CancelContext = True"
| "polling_effect _ = False"

lemma polling_effects:
  "stage_after g es = Some g' \<Longrightarrow> g \<in> {Registered, Subscribed} \<Longrightarrow> g' \<in> {Registered, Subscribed} \<Longrightarrow>
     \<forall>e \<in> set es. polling_effect e"
proof (induction es arbitrary: g)
  case (Cons e es)
  obtain g1 where g1: "stage_step g e = Some g1" "stage_after g1 es = Some g'"
    using Cons.prems(1) by (auto simp: bind_eq_Some_conv)
  have "g1 \<noteq> Closed"
  proof
    assume "g1 = Closed"
    with g1(2) Cons.prems(3) have "closes_at Closed \<le> 0" using stage_closes [OF g1(2)] by auto
    then show False by simp
  qed
  with g1(1) Cons.prems(2) have "polling_effect e" "g1 \<in> {Registered, Subscribed}"
    by (cases e; auto)+
  with Cons.IH [OF g1(2)] Cons.prems(3) show ?case by simp
qed simp

text \<open>The calls on the consumers a trace records.\<close>

definition count_opens :: "effect list \<Rightarrow> nat" where
  "count_opens eff = length (filter (\<lambda>e. case e of OpenConsumer _ \<Rightarrow> True | _ \<Rightarrow> False) eff)"

definition count_previous :: "effect list \<Rightarrow> nat" where
  "count_previous eff = length (filter (\<lambda>e. e = ClosePrevious) eff)"

lemma count_append [simp]:
  "count_opens (xs @ ys) = count_opens xs + count_opens ys"
  "count_closes (xs @ ys) = count_closes xs + count_closes ys"
  "count_previous (xs @ ys) = count_previous xs + count_previous ys"
  by (simp_all add: count_opens_def count_closes_def count_previous_def)

lemma count_Cons:
  "count_opens (e # es) = (case e of OpenConsumer _ \<Rightarrow> 1 | _ \<Rightarrow> 0) + count_opens es"
  "count_closes (e # es) = (if e = CloseConsumer then 1 else 0) + count_closes es"
  "count_previous (e # es) = (if e = ClosePrevious then 1 else 0) + count_previous es"
  by (auto simp: count_opens_def count_closes_def count_previous_def split: effect.split)

lemma count_Nil: "count_opens [] = 0" "count_closes [] = 0" "count_previous [] = 0"
  by (simp_all add: count_opens_def count_closes_def count_previous_def)

lemmas counts = count_Cons count_Nil

lemma polling_counts:
  "\<forall>e \<in> set es. polling_effect e \<Longrightarrow>
     count_opens es = 0 \<and> count_closes es = 0 \<and> count_previous es = 0 \<and> Register k \<notin> set es"
proof (induction es)
  case (Cons e es)
  then show ?case by (cases e) (simp_all add: counts)
qed (simp add: counts)

definition previous_calls :: "bool option \<Rightarrow> effect list" where
  "previous_calls p =
     (case p of None \<Rightarrow> [] | Some isCancelled \<Rightarrow> CancelPrevious # (if isCancelled then [] else [ClosePrevious]))"

lemma change_set_shape:
  assumes "change_set L G F B cs running rq ticks = Some (eff, r)" and "config_for cs (rq_dataset rq) = Some c"
  defines "prev \<equiv> previous_calls (gm_get running (topic_group c))"
  shows "eff = prev \<or> eff = prev @ [OpenConsumer (cc_groupId c)]
    \<or> eff = prev @ [OpenConsumer (cc_groupId c), CancelContext]
    \<or> (\<exists>mid. (\<forall>e \<in> set mid. polling_effect e)
        \<and> eff = prev @ [OpenConsumer (cc_groupId c), Register (topic_group c)] @ mid
            @ [CloseConsumer, CancelContext, Unregister (topic_group c)])"
proof -
  have mid: "\<forall>e \<in> set mid. polling_effect e" if "read_changes L G F B c rq d ticks = Some (mid, r)" for d mid
    using stage_after_read [OF that] polling_effects [of Registered mid] by auto
  from assms(1,2) show ?thesis
    unfolding prev_def previous_calls_def
    by (auto simp: change_set_def Let_def split: option.splits sum.splits failure.splits if_splits dest: mid)
qed

section \<open>Every run can be replayed\<close>

text \<open>The registry after the look-up.\<close>

definition begin_run :: "nat \<Rightarrow> string \<Rightarrow> registry \<Rightarrow> registry" where
  "begin_run i k s =
     (let s1 = look_up_key i k s in
      case entry s k of
        None \<Rightarrow> s1
      | Some j \<Rightarrow> at i LookedUp (close_consumer j (s1\<lparr>readers := readers s1 - 1\<rparr>)))"

lemma replay_append: "replay i k (xs @ ys) s = Option.bind (replay i k xs s) (replay i k ys)"
proof (induction xs arbitrary: s)
  case (Cons e xs)
  then show ?case by (cases "replay_effect i k e s") auto
qed simp

lemma replay_previous:
  assumes "phase_of s i = NotStarted"
  shows "\<exists>u. replay i k (previous_calls (map_option (flag s) (entry s k))) s = Some u
    \<and> look_up_done i k u = Some (begin_run i k s) \<and> phase_of u i \<in> {NotStarted, LookedUp} \<union> range Replacing"
proof (cases "entry s k")
  case None
  with assms show ?thesis by (simp add: previous_calls_def look_up_done_def begin_run_def)
next
  case (Some j)
  have look: "phase_of (look_up_key i k s) i = Replacing j" "flag (look_up_key i k s) = flag s"
    using Some by (simp_all add: reg_defs)
  show ?thesis
  proof (cases "flag s j")
    case True
    with Some assms look show ?thesis by (simp add: previous_calls_def look_up_done_def begin_run_def Let_def)
  next
    case False
    let ?u = "at i LookedUp (close_consumer j ((look_up_key i k s)\<lparr>readers := readers (look_up_key i k s) - 1\<rparr>))"
    have "look_up_done i k ?u = Some ?u" by (simp add: look_up_done_def at_def)
    with Some assms look False show ?thesis
      by (simp add: previous_calls_def begin_run_def Let_def) (simp add: at_def)
  qed
qed

lemma begin_run_facts:
  assumes "phase_of s i = NotStarted" and "readers s = 0" and "reg_inv s"
  shows "phase_of (begin_run i k s) i = LookedUp" "readers (begin_run i k s) = 0"
    "key_of_req (begin_run i k s) i = k" "entry (begin_run i k s) = entry s"
    "opened (begin_run i k s) i = 0" "closes (begin_run i k s) i = 0" "\<not> flag (begin_run i k s) i"
    "entry s k = Some j \<Longrightarrow> j \<noteq> i \<and> cancelled (begin_run i k s) j
      \<and> closes (begin_run i k s) j = closes s j + (if flag s j then 0 else 1)"
proof -
  have fresh: "opened s i = 0" "closes s i = 0" "\<not> flag s i"
    using assms(1,3) by (auto simp: reg_inv_def req_ok_def dest!: spec [where x = i])
  have other: "j \<noteq> i" if "entry s k = Some j" for j
    using assms(1,3) entry_okD [OF _ that] by (auto simp: reg_inv_def)
  show "phase_of (begin_run i k s) i = LookedUp" "readers (begin_run i k s) = 0"
    "key_of_req (begin_run i k s) i = k" "entry (begin_run i k s) = entry s"
    "opened (begin_run i k s) i = 0" "closes (begin_run i k s) i = 0" "\<not> flag (begin_run i k s) i"
    using fresh assms(2) other by (auto simp: begin_run_def reg_defs split: option.split)
  show "j \<noteq> i \<and> cancelled (begin_run i k s) j
      \<and> closes (begin_run i k s) j = closes s j + (if flag s j then 0 else 1)" if "entry s k = Some j"
    using that other [OF that] by (auto simp: begin_run_def reg_defs)
qed

lemma replay_polling:
  "\<forall>e \<in> set es. polling_effect e \<Longrightarrow> phase_of s i = Polling \<Longrightarrow>
     replay i k es s = Some (if CancelContext \<in> set es then cancel_req i s else s)"
proof (induction es arbitrary: s)
  case (Cons e es)
  have "phase_of (cancel_req i s) i = Polling" "cancel_req i (cancel_req i s) = cancel_req i s"
    using Cons.prems(2) by (simp_all add: cancel_req_def)
  with Cons show ?case by (cases e) auto
qed simp

text \<open>The clean-up, from a request that polls to its end.\<close>

definition cleaned_up :: "nat \<Rightarrow> registry \<Rightarrow> registry" where
  "cleaned_up i s =
     (let s1 = at i Closing (close_consumer i (at i Leaving s));
          s2 = at i Deregistering (cancel_req i (s1\<lparr>flag := (flag s1)(i := True)\<rparr>)) in
      at i Finished (s2\<lparr>entry := (entry s2)(key_of_req s2 i := None)\<rparr>))"

lemma replay_clean_up:
  assumes "phase_of s i = Polling" and "readers s = 0" and "key_of_req s i = k"
  shows "replay i k [CloseConsumer, CancelContext, Unregister k] s = Some (cleaned_up i s)"
proof -
  have "phase_of (at i p s) i = p" for p s by (simp add: at_def)
  moreover have "readers (at i p (cancel_req j (s\<lparr>flag := f\<rparr>))) = readers s"
      "key_of_req (at i p (cancel_req j (s\<lparr>flag := f\<rparr>))) i = key_of_req s i"
      "key_of_req (at i p (close_consumer j (at i q s))) i = key_of_req s i" for p q f j s
    by (simp_all add: at_def cancel_req_def close_consumer_def)
  ultimately show ?thesis using assms by (simp add: cleaned_up_def Let_def)
qed

definition registered_run :: "nat \<Rightarrow> string \<Rightarrow> registry \<Rightarrow> registry" where
  "registered_run i k b =
     (let s1 = at i HasConsumer (open_consumer i b) in at i Polling (s1\<lparr>entry := (entry s1)(k \<mapsto> i)\<rparr>))"

lemma replay_registered:
  assumes "look_up_done i k u = Some b" and "readers b = 0" and "key_of_req b i = k"
    and "\<forall>e \<in> set mid. polling_effect e"
  shows "replay i k ([OpenConsumer g, Register k] @ mid @ [CloseConsumer, CancelContext, Unregister k]) u
    = Some (cleaned_up i (if CancelContext \<in> set mid then cancel_req i (registered_run i k b) else registered_run i k b))"
proof -
  let ?r = "registered_run i k b"
  let ?m = "if CancelContext \<in> set mid then cancel_req i ?r else ?r"
  have start: "replay i k [OpenConsumer g, Register k] u = Some ?r"
    using assms(1-3) by (simp add: registered_run_def at_def open_consumer_def Let_def)
  have r: "phase_of ?r i = Polling" "readers ?r = 0" "key_of_req ?r i = k"
    using assms(2,3) by (simp_all add: registered_run_def at_def open_consumer_def Let_def)
  then have "phase_of ?m i = Polling" "readers ?m = 0" "key_of_req ?m i = k"
    by (simp_all add: cancel_req_def)
  then have "replay i k [CloseConsumer, CancelContext, Unregister k] ?m = Some (cleaned_up i ?m)"
    by (rule replay_clean_up)
  with start replay_polling [OF assms(4) r(1), of k] show ?thesis
    by (simp only: replay_append Option.bind.simps)
qed

lemma run_replayed:
  assumes "reachable s" and "phase_of s i = NotStarted" and "readers s = 0"
    and "config_for cs (rq_dataset rq) = Some c"
    and "gm_get running (topic_group c) = map_option (flag s) (entry s (topic_group c))"
    and "change_set L G F B cs running rq ticks = Some (eff, r)"
  defines "k \<equiv> topic_group c"
  shows "\<exists>t. replay_run i k eff s = Some t \<and> opened t i = count_opens eff \<and> closes t i = count_closes eff
    \<and> (\<forall>j. entry s k = Some j \<longrightarrow> cancelled t j \<and> closes t j = closes s j + count_previous eff)
    \<and> entry t = (if Register k \<in> set eff then (entry s)(k := None) else entry s)"
proof -
  let ?b = "begin_run i k s" and ?prev = "previous_calls (map_option (flag s) (entry s k))"
  note b = begin_run_facts [OF assms(2,3) reachable_reg_inv [OF assms(1)], of k]
  obtain u where u: "replay i k ?prev s = Some u" "look_up_done i k u = Some ?b"
      "phase_of u i \<in> {NotStarted, LookedUp} \<union> range Replacing"
    using replay_previous [OF assms(2), of k] by blast
  have prev: "count_opens ?prev = 0" "count_closes ?prev = 0" "Register k \<notin> set ?prev"
      "count_previous ?prev = (if map_option (flag s) (entry s k) = Some False then 1 else 0)"
    by (auto simp: previous_calls_def counts split: option.split)
  show ?thesis
    using change_set_shape [OF assms(6,4), unfolded assms(5), folded k_def]
  proof (elim disjE exE conjE)
    assume eff: "eff = ?prev"
    have "replay_run i k eff s = Some (at i Finished ?b)"
      using u by (auto simp: eff replay_run_def end_run_def)
    then show ?thesis using b prev by (auto simp: eff at_def)
  next
    assume eff: "eff = ?prev @ [OpenConsumer (cc_groupId c)]"
    have "replay_run i k eff s = Some (at i Failed (at i HasConsumer (open_consumer i ?b)))"
      using u by (simp add: eff replay_run_def replay_append end_run_def) (simp add: at_def)
    then show ?thesis using b prev by (auto simp: eff at_def open_consumer_def counts)
  next
    assume eff: "eff = ?prev @ [OpenConsumer (cc_groupId c), CancelContext]"
    have "replay_run i k eff s = Some (at i Failed (cancel_req i (at i HasConsumer (open_consumer i ?b))))"
      using u by (simp add: eff replay_run_def replay_append end_run_def) (simp add: at_def)
    then show ?thesis using b prev by (auto simp: eff at_def open_consumer_def cancel_req_def counts)
  next
    fix mid
    assume mid: "\<forall>e \<in> set mid. polling_effect e"
      and eff: "eff = ?prev @ [OpenConsumer (cc_groupId c), Register k] @ mid @ [CloseConsumer, CancelContext, Unregister k]"
    let ?t = "cleaned_up i (if CancelContext \<in> set mid then cancel_req i (registered_run i k ?b) else registered_run i k ?b)"
    have "replay i k eff s = Some ?t"
      using u(1) replay_registered [OF u(2) b(2,3) mid, of "cc_groupId c"] unfolding eff replay_append by simp
    moreover have "phase_of ?t i = Finished" by (simp add: cleaned_up_def at_def Let_def)
    ultimately have "replay_run i k eff s = Some ?t" by (simp add: replay_run_def end_run_def)
    moreover have "opened ?t i = 1" "closes ?t i = 1" "entry ?t = (entry s)(k := None)"
      using b by (auto simp: cleaned_up_def registered_run_def reg_defs)
    moreover have "cancelled ?t j" "closes ?t j = closes ?b j" if "entry s k = Some j" for j
      using b(8) [OF that] by (auto simp: cleaned_up_def registered_run_def reg_defs)
    ultimately show ?thesis
      using prev b(8) polling_counts [OF mid, of k] by (auto simp: eff counts)
  qed
qed

text \<open>
  C8.  A request served by the detailed function is a run of the step relation that ends: on a registry that
  agrees with the map it looked at, its trace can be replayed, call by call and under its own key, and leads to
  a registry where the request has ended, its consumer has been opened and closed as often as the trace says,
  what it replaced is cancelled and closed, and the map has its entry removed if it was ever registered and is
  unchanged otherwise.
\<close>

theorem run_refines_registry:
  assumes "reachable s" and "phase_of s i = NotStarted" and "readers s = 0"
    and "config_for cs (rq_dataset rq) = Some c"
    and "gm_get running (topic_group c) = map_option (flag s) (entry s (topic_group c))"
    and "change_set L G F B cs running rq ticks = Some (eff, r)"
  defines "k \<equiv> topic_group c"
  shows "\<exists>t. replay_run i k eff s = Some t \<and> leads_to s t \<and> phase_of t i \<in> {Finished, Failed}
    \<and> opened t i = count_opens eff \<and> closes t i = count_closes eff
    \<and> (\<forall>j. entry s k = Some j \<longrightarrow> cancelled t j \<and> closes t j = closes s j + count_previous eff)
    \<and> entry t = (if Register k \<in> set eff then (entry s)(k := None) else entry s)"
proof -
  show ?thesis
    using run_replayed [OF assms(1-6)] replay_run_leads unfolding k_def by blast
qed

theorem run_refines_registry_witness:
  "\<exists>eff r t. change_set sample_lib sample_gjson sample_formats sample_broker [sample_consumer] [(''t-g'', False)]
       \<lparr>rq_dataset = ''ds'', rq_since = [], rq_limit = -1\<rparr> [Signal] = Some (eff, r)
     \<and> replay_run 1 (topic_group sample_consumer) eff (solo ! 3) = Some t \<and> leads_to (solo ! 3) t \<and> cancelled t 0"
proof -
  let ?rq = "\<lparr>rq_dataset = ''ds'', rq_since = [], rq_limit = -1\<rparr>"
  let ?run = "change_set sample_lib sample_gjson sample_formats sample_broker [sample_consumer] [(''t-g'', False)]
     ?rq [Signal]"
  have "?run \<noteq> None" by code_simp
  then obtain eff r where run: "?run = Some (eff, r)" by auto
  have s: "phase_of (solo ! 3) 1 = NotStarted" "readers (solo ! 3) = 0" "entry (solo ! 3) ''t-g'' = Some 0"
      "\<not> flag (solo ! 3) 0"
    by (simp_all add: solo_def Let_def reg_defs start_registry_def numeral_eq_Suc)
  have reach: "reachable (solo ! 3)"
    using run_reachable [OF solo_is_run, of 3] by (simp add: solo_run_def)
  have c: "config_for [sample_consumer] (rq_dataset ?rq) = Some sample_consumer"
      "topic_group sample_consumer = ''t-g''"
    by code_simp+
  show ?thesis
    using run_refines_registry [OF reach s(1,2) c(1) _ run] run s(3,4) c(2)
    by (auto simp: gm_get_def)
qed

end
