(* ===== verification/Spec2Isabelle.thy ===== *)
theory Spec2Isabelle
  imports ConsumerProperties CoderProperties ServiceProperties AppProperties RegistryRefinement
begin

text \<open>
  The Kafka data layer (\<^verbatim>\<open>github.com/mimiro-io/kafka-datalayer\<close>): a web service that serves Kafka topics as
  datasets of entities, and writes entities it is sent to topics.

  \<^bold>\<open>The program.\<close>  A \<^verbatim>\<open>GET\<close> of a dataset (\<^verbatim>\<open>internal/web/consumerhandler.go\<close>) looks its configuration up, writes
  the context, and calls \<^verbatim>\<open>Consumers.ChangeSet\<close> (\<^verbatim>\<open>internal/kafka/consumer.go\<close>) with a callback that writes one
  entity.  \<^verbatim>\<open>ChangeSet\<close> cancels a running request for the same topic and group, opens a consumer, commits
  the offsets of the \<^verbatim>\<open>since\<close> token, polls until the topic is depleted, the limit is reached or the request is
  cancelled, decodes each message (\<^verbatim>\<open>internal/coder/decoder.go\<close>) and flattens its JSON into an entity
  (\<^verbatim>\<open>encoder.go\<close>), and ends with the token for the next request.  A \<^verbatim>\<open>POST\<close> (\<^verbatim>\<open>producerhandler.go\<close>) reads a
  context and entities from the body (\<^verbatim>\<open>parser.go\<close>, \<^verbatim>\<open>entity.go\<close>) and gives them to \<^verbatim>\<open>Producers.ProduceEntities\<close>
  (\<^verbatim>\<open>internal/kafka/producer.go\<close>) in batches.  In front of both is a chain of middleware (\<^verbatim>\<open>internal/web/middleware.go\<close>
  and \<^verbatim>\<open>middlewares\<close>).  The configuration is loaded and refreshed by \<^verbatim>\<open>internal/conf/manager.go\<close>, with a token of
  \<^verbatim>\<open>internal/security\<close> when it is served over HTTP.

  \<^bold>\<open>The theories.\<close>
  \<^item> \<open>Prelude\<close>: results of Go functions (value, error or panic), maps as association lists in their
    iteration order, strings, decimal text; the interfaces \<open>map_ops\<close>, \<open>codec\<close> and \<open>codec_chain\<close>.
  \<^item> \<open>JsonText\<close>, \<open>Base64\<close>, \<open>GoValue\<close>: the standard library's JSON text, base64 and \<^verbatim>\<open>interface{}\<close> values with
    \<^verbatim>\<open>fmt.Sprintf\<close>; each encoder with the lemma that its decoder inverts it.
  \<^item> \<open>Conf\<close>, \<open>ConfigJson\<close>: the structs of \<^verbatim>\<open>configuration.go\<close> and their decoding by tag; every tag is read.
  \<^item> \<open>Entity\<close>, \<open>Encoder\<close>, \<open>Decoder\<close>: \<^verbatim>\<open>internal/coder\<close>.  \<open>flatten\<close> is shown to be a fold over the leaves of the
    document, which \<open>Leaves\<close> describes by the paths that lead to them; the decoders meet the interface \<open>decoder_iface\<close>, in which memory does not show.
  \<^item> \<open>Token\<close>: the tokens and their round trip.
  \<^item> \<open>Consumer\<close>: one run of \<open>change_set\<close>, as its trace of effects and its result, for given answers of the
    broker and a list of what the iterations of the poll loop find.  \<open>ConsumerLoop\<close>: messages taken,
    entities, offsets, limit and termination of the loop.  \<open>ConsumerSessions\<close>: positions and logs of the
    broker, requests chained by their tokens.  \<open>ConsumerTrace\<close>: the protocol of a run's trace.
    \<open>ConsumerRegistry\<close>: concurrent requests, as a step relation with an invariant.  \<open>RegistryLiveness\<close>: where a
    fair run of it comes to rest (the interface \<open>ranked\<close>).  \<open>RegistryRefinement\<close>: every call in the trace of
    \<open>change_set\<close> replayed as a step of the relation.
  \<^item> \<open>Producer\<close>: producing, topic creation, the upload handler, and its refinement to batches; the writers
    that are made once.
  \<^item> \<open>Http\<close>, \<open>Auth\<close>, \<open>Web\<close>: requests, replies and the contract \<open>guard\<close> of a middleware that decides; the token
    check and the authorizer, which meet it; the handlers and the whole chain \<open>serve\<close>.  \<open>RequestLog\<close>: the
    logging layer with its metrics and log lines.
  \<^item> \<open>Security\<close>, \<open>ConfManager\<close>, \<open>Env\<close>, \<open>Startup\<close>: the token client, which meets the interface \<open>token_provider\<close>,
    the configuration manager, the environment and loggers, what the start hooks do with the configuration.
  \<^item> \<open>Wiring\<close>, \<open>App\<close>, \<open>AppFacts\<close>: \<^verbatim>\<open>internal/app\<close> and \<^verbatim>\<open>cmd\<close>: the constructors and what they need, the HTTP
    server with its layers and routes, the hooks, the program from its environment to a running service and its
    refreshes.
  \<^item> \<open>Samples\<close>, \<open>ConsumerProperties\<close>, \<open>CoderProperties\<close>, \<open>ServiceProperties\<close>,
    \<open>AppProperties\<close> and this theory: the properties, with
    the concrete inputs on which their hypotheses hold.

  \<^bold>\<open>Correspondence.\<close>  A Go string or byte slice is a list of characters, one per byte.  A pointer is an option,
  a slice a list, \<^verbatim>\<open>int32\<close> and \<^verbatim>\<open>int64\<close> of partitions and offsets are words; counters that cannot come near
  their bounds are integers.  A function with an error result gives a sum, with panics beside errors.  State
  that a call changes is passed in and returned.  A Go map is a list of its members.  The order in which
  \<^verbatim>\<open>range\<close> visits a map of decoded JSON, of Kafka headers or of the datasets to be listed is a parameter (\<open>map_rank\<close> in
  \<open>golib\<close>, \<open>rank\<close> of \<open>list_datasets\<close>) that may be any order, so the properties hold for every order; partitions
  are committed in the order in which a token lists them, on which nothing depends.  Third-party packages are parameters: the Kafka
  clients (\<open>broker\<close>, the ticks of the loop, the writer and the admin client), \<^verbatim>\<open>gjson\<close>, \<^verbatim>\<open>jstream\<close>, the schema
  registry, Avro and protobuf packages (\<open>formats\<close>), the JWT package (\<open>jwtlib\<close>), echo's router, CORS and error rendering
  (\<open>chain\<close>), statsd, the job runner, viper, the HTTP client, MD5, and reading and writing floating-point text (\<open>golib\<close>).

  \<^bold>\<open>Bounds.\<close>  The JSON parser recurses on a fuel of twice the length of its input plus two, which
  \<open>json_fuel_enough\<close> shows to be enough, and refuses documents deeper than 10000 as \<^verbatim>\<open>encoding/json\<close> does.
  A run whose list of ticks is used up before it returns is \<open>None\<close>; \<open>ten_empty_polls\<close> and
  \<open>limited_request_returns\<close> say which lists are long enough.

  \<^bold>\<open>What the properties show.\<close>  Over a session of requests nothing is lost and nothing is read twice; a reply is
  well-formed JSON with one entity per message; an upload that is accepted is written completely; requests
  return, respect their limit and release their consumer, and with a fair scheduler each of them ends unless it
  polls on under a live context; no handler is reached without an accepted token that its own route permits, not
  even while the program starts, and whatever the profile; a refresh that fails changes nothing, and the
  configuration in use is that of the recorded digest; a started program lists, reads and writes datasets through
  all its layers and counts each request once.  Several properties state how the code departs from what it means to
  do: a consumer that is not closed, two live requests for one key, a panic no layer recovers, identifiers cut at a
  second colon, a topic that a refresh does not change, metrics that always say 200, a refresh that ends the
  program, properties whose value depends on the order of a map.

  \<^bold>\<open>Not modelled.\<close>  The container, the lifecycle and the HTTP server of the libraries themselves: the model takes
  from them that constructors are called once and after what they need, that hooks run in order and are undone
  on an error, and that a request meets the layers and routes of its moment.  The loading cache around
  \<open>load_jwks\<close> (expiry and refresh of the key set), the order in which viper looks a setting up, log lines other
  than those of \<open>RequestLog\<close>, the statsd calls of the Kafka packages, HTTP headers other than \<^verbatim>\<open>Authorization\<close> and
  \<^verbatim>\<open>User-Agent\<close>, non-ASCII case folding, the two separator characters JSON escapes beyond ASCII, the printed
  configuration inside the error texts of \<^verbatim>\<open>NewDecoder\<close>, and repeated array members in a configuration.
\<close>

section \<open>A dataset request, from the handler to the broker\<close>

text \<open>
  C2.  The reply to a dataset request is one JSON array: the context with the dataset's namespaces,
  then one entity for each message read, in order, then the token for the next request, unless
  nothing was read and no token was sent.
\<close>

theorem dataset_reply:
  assumes "run_request V running since ticks = Some (eff, Inr ())"
    and "config_for (sv_configs V) (sv_dataset V) = Some c"
    and "broker_fine (sv_broker V) (cc_topic c) ids"
    and "param_name param = sv_dataset V" and "limit_of limit = sv_limit V" and "lib_ok (sv_lib V)"
    and "\<forall>e \<in> set (emitted eff). json_depth (emit_json (sv_lib V) e) < max_depth"
  shows "\<exists>body cx es.
    consume (sv_lib V) (sv_configs V) (sv_configs V)
      (\<lambda>rq. change_set (sv_lib V) (sv_gjson V) (sv_formats V) (sv_broker V) (sv_configs V) running rq ticks)
      param limit since = Some (Reply 200 body)
    \<and> get_context (sv_configs V) (sv_dataset V) = Inr cx
    \<and> list_all2 (\<lambda>m e. entity_of_message V m = Inr e) (messages_read V ticks) es
    \<and> json_parse body = Some (JArr (of_gval (sv_lib V) cx # map (emit_json (sv_lib V)) es
        @ (if returned_token since eff = [] then []
           else [JObj [(''id'', JStr ''@continuation''), (''token'', JStr (returned_token since eff))]])))"
  by (rule consume_reply [OF assms])

theorem dataset_reply_witness:
  "\<exists>body cx es.
     consume sample_lib [sample_consumer] [sample_consumer]
       (\<lambda>rq. change_set sample_lib sample_gjson sample_formats sample_broker [sample_consumer] [] rq (sample_ticks 0))
       ''ds'' [] [] = Some (Reply 200 body)
     \<and> json_parse body = Some (JArr (of_gval sample_lib cx # map (emit_json sample_lib) es
         @ [JObj [(''id'', JStr ''@continuation''), (''token'', JStr ''eyIwIjowfQ=='')]]))"
proof -
  have "map_option (\<lambda>(eff, r). (returned_token [] eff, r,
      list_all (\<lambda>e. json_depth (emit_json sample_lib e) < max_depth) (emitted eff)))
      (run_request sample_service [] [] (sample_ticks 0)) = Some (''eyIwIjowfQ=='', Inr (), True)"
    by code_simp
  then obtain eff where eff: "run_request sample_service [] [] (sample_ticks 0) = Some (eff, Inr ())"
      "returned_token [] eff = ''eyIwIjowfQ==''"
      "\<forall>e \<in> set (emitted eff). json_depth (emit_json (sv_lib sample_service) e) < max_depth"
    by (auto simp: list_all_iff sample_service_def)
  have "param_name ''ds'' = sv_dataset sample_service" "limit_of [] = sv_limit sample_service"
    by code_simp+
  moreover have "lib_ok (sv_lib sample_service)"
    by (simp add: sample_service_def sample_lib_ok)
  ultimately show ?thesis
    using dataset_reply [OF eff(1) sample_config sample_broker_fine, of "''ds''" "[]"] eff(2,3)
    by (auto simp: sample_service_def)
qed

section \<open>The started program reads and writes datasets\<close>

text \<open>
  C15.  Once the program has started, a request to read a dataset of the configuration in use, with an accepted
  and permitted token, is answered through all layers with the JSON array of the context, one entity for
  each message read, in order, and the token for the next request.
\<close>

theorem started_service_reads:
  assumes "new_app L md5 S NA SC e given w = Inr a" and "start_app A e a = (b, Inr ())"
    and "chain_ok Ch" and "ac_Middleware (en_Auth e) \<noteq> ''noop''"
    and "\<not> skipper c" and "\<And>h. ch_cors Ch setup_cors h c = h c"
    and "accepted (ch_jwt Ch) (setup_jwt (en_Auth e)) (ch_keys Ch) c = Some tok"
    and "ch_router Ch (hs_routes (ap_server b)) (c\<lparr>rq_user := Some tok\<rparr>)
      = Some (''GET'', path, ReadDataset, Some [''datahub:r''])"
    and "permits [''datahub:r''] tok (rq_uri c)"
    and "Some (H ReadDataset (c\<lparr>rq_user := Some tok\<rparr>))
      = read_handler (sv_lib V) (sv_gjson V) (sv_formats V) (sv_broker V) running ticks (ap_manager b) param limit since"
    and "mg_datalayer (ap_manager b) = Some k" and "sv_configs V = kc_consumers k"
    and "run_request V running since ticks = Some (eff, Inr ())"
    and "config_for (kc_consumers k) (sv_dataset V) = Some cc"
    and "broker_fine (sv_broker V) (cc_topic cc) ids"
    and "param_name param = sv_dataset V" and "limit_of limit = sv_limit V" and "lib_ok (sv_lib V)"
    and "\<forall>x \<in> set (emitted eff). json_depth (emit_json (sv_lib V) x) < max_depth"
  shows "\<exists>body cx es. answer Ch e (ap_server b) H c = Some (Reply 200 body)
    \<and> get_context (kc_consumers k) (sv_dataset V) = Inr cx
    \<and> list_all2 (\<lambda>m x. entity_of_message V m = Inr x) (messages_read V ticks) es
    \<and> json_parse body = Some (JArr (of_gval (sv_lib V) cx # map (emit_json (sv_lib V)) es
        @ (if returned_token since eff = [] then []
           else [JObj [(''id'', JStr ''@continuation''), (''token'', JStr (returned_token since eff))]])))"
proof -
  have "config_for (sv_configs V) (sv_dataset V) = Some cc"
    using assms(12,14) by simp
  from consume_reply [OF assms(13) this assms(15-19)] obtain body cx es where reply:
      "read_handler (sv_lib V) (sv_gjson V) (sv_formats V) (sv_broker V) running ticks (ap_manager b) param limit since
        = Some (Reply 200 body)"
      and body: "get_context (kc_consumers k) (sv_dataset V) = Inr cx"
        "list_all2 (\<lambda>m x. entity_of_message V m = Inr x) (messages_read V ticks) es"
        "json_parse body = Some (JArr (of_gval (sv_lib V) cx # map (emit_json (sv_lib V)) es
        @ (if returned_token since eff = [] then []
           else [JObj [(''id'', JStr ''@continuation''), (''token'', JStr (returned_token since eff))]])))"
    using assms(11,12) by (auto simp: read_handler_def)
  have "H ReadDataset (c\<lparr>rq_user := Some tok\<rparr>) = Reply 200 body"
    using assms(10) reply by simp
  from served_reply [where H = H, OF started_app(1) [OF assms(1,2)] assms(3-9) this] body show ?thesis by blast
qed

definition consumer_text :: string where
  "consumer_text = ''{\"consumers\":[{\"dataset\":\"ds\",\"topic\":\"t\",\"groupId\":\"g\",\"nameSpace\":\"people\",'' @
     ''\"baseNameSpace\":\"http://x/\",\"entityIdConstructor\":\"p/%v\"}],'' @
     ''\"producers\":[{\"dataset\":\"ds\",\"topic\":\"t\",\"key\":\"id\"}]}''"

definition reading_app :: app where
  "reading_app = projr (sample_app consumer_text)"

definition reading_service :: app where
  "reading_service = fst (start_app (\<lambda>_. None) installed_env reading_app)"

lemma reading_app: "new_app sample_lib (\<lambda>s. s) (\<lambda>_ _ _. Inr ()) (\<lambda>_. None) (\<lambda>_. None) installed_env sample_given
    (sample_world consumer_text) = Inr reading_app"
proof -
  have "\<not> isl (sample_app consumer_text)" by code_simp
  then show ?thesis by (cases "sample_app consumer_text") (auto simp: reading_app_def sample_app_def)
qed

lemma reading_service: "start_app (\<lambda>_. None) installed_env reading_app = (reading_service, Inr ())"
proof -
  have "snd (start_app (\<lambda>_. None) installed_env reading_app) = Inr ()" by code_simp
  then show ?thesis
    by (cases "start_app (\<lambda>_. None) installed_env reading_app") (simp add: reading_service_def)
qed

lemma reading_config:
  "mg_datalayer (ap_manager reading_service)
     = Some (zero_config\<lparr>kc_consumers := [sample_consumer], kc_producers := [sample_producer]\<rparr>)"
  by code_simp

definition dataset_chain :: chain where
  "dataset_chain = sample_chain\<lparr>ch_router := (\<lambda>rs c. find (\<lambda>r. fst r = rq_method c
     \<and> fst (snd r) = ''/datasets/:dataset/entities'') rs)\<rparr>"

lemma dataset_chain_ok: "chain_ok dataset_chain"
  by (auto simp: chain_ok_def sample_chain_def dataset_chain_def sample_intersect_def find_Some_iff)

definition dataset_get :: request where
  "dataset_get = sample_request\<lparr>rq_path := ''/datasets/ds/entities'', rq_uri := ''/datasets/ds/entities''\<rparr>"

theorem started_service_reads_witness:
  "\<exists>body cx es. answer dataset_chain installed_env (ap_server reading_service)
       (\<lambda>_ _. the (read_handler sample_lib sample_gjson sample_formats sample_broker [] (sample_ticks 0)
          (ap_manager reading_service) ''ds'' [] [])) dataset_get = Some (Reply 200 body)
     \<and> json_parse body = Some (JArr (of_gval sample_lib cx # map (emit_json sample_lib) es
         @ [JObj [(''id'', JStr ''@continuation''), (''token'', JStr ''eyIwIjowfQ=='')]]))"
proof -
  let ?read = "read_handler sample_lib sample_gjson sample_formats sample_broker [] (sample_ticks 0)
      (ap_manager reading_service) ''ds'' [] []"
  have run: "map_option (\<lambda>(eff, r). (returned_token [] eff, r,
      list_all (\<lambda>e. json_depth (emit_json sample_lib e) < max_depth) (emitted eff)))
      (run_request sample_service [] [] (sample_ticks 0)) = Some (''eyIwIjowfQ=='', Inr (), True)"
    by code_simp
  then obtain eff where eff: "run_request sample_service [] [] (sample_ticks 0) = Some (eff, Inr ())"
      "returned_token [] eff = ''eyIwIjowfQ==''"
      "\<forall>e \<in> set (emitted eff). json_depth (emit_json (sv_lib sample_service) e) < max_depth"
    by (auto simp: list_all_iff sample_service_def)
  have read: "Some (the ?read) = read_handler (sv_lib sample_service) (sv_gjson sample_service) (sv_formats sample_service)
      (sv_broker sample_service) [] (sample_ticks 0) (ap_manager reading_service) ''ds'' [] []"
  proof -
    have "?read \<noteq> None" by code_simp
    then show ?thesis by (simp add: sample_service_def)
  qed
  have h: "ac_Middleware (en_Auth installed_env) \<noteq> ''noop''" "\<not> skipper dataset_get"
      "accepted (ch_jwt dataset_chain) (setup_jwt (en_Auth installed_env)) (ch_keys dataset_chain) dataset_get
        = Some sample_token"
      "ch_router dataset_chain (hs_routes (ap_server reading_service)) (dataset_get\<lparr>rq_user := Some sample_token\<rparr>)
        = Some (''GET'', ''/datasets/:dataset/entities'', ReadDataset, Some [''datahub:r''])"
      "permits [''datahub:r''] sample_token (rq_uri dataset_get)"
      "param_name ''ds'' = sv_dataset sample_service" "limit_of [] = sv_limit sample_service"
    by code_simp+
  have cors: "ch_cors dataset_chain setup_cors h dataset_get = h dataset_get" for h
    by (simp add: dataset_chain_def sample_chain_def)
  have V: "sv_configs sample_service = kc_consumers (zero_config\<lparr>kc_consumers := [sample_consumer],
        kc_producers := [sample_producer]\<rparr>)"
      "config_for (kc_consumers (zero_config\<lparr>kc_consumers := [sample_consumer], kc_producers := [sample_producer]\<rparr>))
        (sv_dataset sample_service) = Some sample_consumer"
      "lib_ok (sv_lib sample_service)"
    using sample_config by (simp_all add: sample_service_def sample_lib_ok)
  from started_service_reads [where H = "\<lambda>_ _. the ?read" and c = dataset_get,
      OF reading_app reading_service dataset_chain_ok h(1,2) cors h(3-5) read reading_config V(1) eff(1) V(2)
        sample_broker_fine h(6,7) V(3) eff(3)]
  show ?thesis unfolding eff(2) sample_service_def by auto
qed

text \<open>
  C16.  Once the program has started, an upload of a context and entities for a dataset of the configuration
  in use, with an accepted and permitted token, is answered with 200 through all layers, and the
  topic of the dataset has got one message for each entity, in order, with its text and the configured key.
\<close>

theorem started_service_writes:
  assumes "new_app L md5 S NA SC e given w = Inr a" and "start_app A e a = (b, Inr ())"
    and "chain_ok Ch" and "ac_Middleware (en_Auth e) \<noteq> ''noop''"
    and "\<not> skipper c" and "\<And>h. ch_cors Ch setup_cors h c = h c"
    and "accepted (ch_jwt Ch) (setup_jwt (en_Auth e)) (ch_keys Ch) c = Some tok"
    and "ch_router Ch (hs_routes (ap_server b)) (c\<lparr>rq_user := Some tok\<rparr>)
      = Some (''POST'', path, WriteDataset, Some [''datahub:w''])"
    and "permits [''datahub:w''] tok (rq_uri c)"
    and "write_handler L U W (ap_manager b) param body st = (st', H WriteDataset (c\<lparr>rq_user := Some tok\<rparr>))"
    and "mg_datalayer (ap_manager b) = Some k"
    and "config_for_dataset (kc_producers k) (param_name param) = Some pc" and "writer_fine W"
    and "st_values body = v # vs" and "as_context v = Inr cx" and "list_all2 (\<lambda>v e. as_entity v = Inr e) vs es"
    and "\<forall>x \<in> set es. isl (entity_value L pc cx x) = False"
  shows "answer Ch e (ap_server b) H c = Some (Reply 200 [])
    \<and> (\<exists>ws. pr_written st' = pr_written st @ ws
      \<and> list_all2 (message_for L U pc cx) es (concat (map snd ws))
      \<and> (\<forall>x \<in> set ws. fst x = topic_used pc (param_name param) st))"
proof -
  obtain st2 ws where "write_handler L U W (ap_manager b) param body st = (st2, Reply 200 [])"
      and ws: "pr_written st2 = pr_written st @ ws" "list_all2 (message_for L U pc cx) es (concat (map snd ws))"
        "\<forall>x \<in> set ws. fst x = topic_used pc (param_name param) st"
    using produce_ok [OF assms(14-16,12,13,17), of batch_size U st] assms(11)
    by (auto simp: write_handler_def batch_size_def)
  with assms(10) have "H WriteDataset (c\<lparr>rq_user := Some tok\<rparr>) = Reply 200 []" "st' = st2" by simp_all
  with served_reply [where H = H, OF started_app(1) [OF assms(1,2)] assms(3-9) this(1)] ws show ?thesis by blast
qed

definition admin_token :: token where
  "admin_token = \<lparr>tk_claims = \<lparr>cl_scope = [], cl_gty = ''password'', cl_adm = True, cl_issuer = ''https://mimiro'',
     cl_subject = ''ann'', cl_audience = ''https://api''\<rparr>, tk_alg = ''RS256'', tk_kid = Some ''key1''\<rparr>"

definition upload_chain :: chain where
  "upload_chain = dataset_chain\<lparr>ch_jwt := sample_jwt\<lparr>jw_parse :=
     (\<lambda>_ key. go_bind (key admin_token) (\<lambda>_. Inr admin_token))\<rparr>\<rparr>"

definition dataset_post :: request where
  "dataset_post = dataset_get\<lparr>rq_method := ''POST''\<rparr>"

theorem started_service_writes_witness:
  "\<exists>ws. pr_written (fst (write_handler sample_lib (\<lambda>_. []) (\<lambda>_ ms. (ms, None)) (ap_manager reading_service) ''ds''
         sample_body no_writers)) = ws
     \<and> list_all2 (message_for sample_lib (\<lambda>_. []) sample_producer (empty_ctx\<lparr>ctx_id := ''@context''\<rparr>))
         [new_entity\<lparr>ent_id := ''ns0:1''\<rparr>] (concat (map snd ws))"
proof -
  let ?upload = "write_handler sample_lib (\<lambda>_. []) (\<lambda>_ ms. (ms, None)) (ap_manager reading_service) ''ds'' sample_body
      no_writers"
  have h: "ac_Middleware (en_Auth installed_env) \<noteq> ''noop''" "\<not> skipper dataset_post"
      "accepted (ch_jwt upload_chain) (setup_jwt (en_Auth installed_env)) (ch_keys upload_chain) dataset_post = Some admin_token"
      "ch_router upload_chain (hs_routes (ap_server reading_service)) (dataset_post\<lparr>rq_user := Some admin_token\<rparr>)
        = Some (''POST'', ''/datasets/:dataset/entities'', WriteDataset, Some [''datahub:w''])"
      "permits [''datahub:w''] admin_token (rq_uri dataset_post)"
      "config_for_dataset (kc_producers (zero_config\<lparr>kc_consumers := [sample_consumer], kc_producers := [sample_producer]\<rparr>))
        (param_name ''ds'') = Some sample_producer"
    by code_simp+
  have cors: "ch_cors upload_chain setup_cors h dataset_post = h dataset_post" for h
    by (simp add: upload_chain_def dataset_chain_def sample_chain_def)
  have chain: "chain_ok upload_chain"
    by (auto simp: chain_ok_def upload_chain_def sample_chain_def dataset_chain_def sample_intersect_def find_Some_iff)
  have run: "?upload = (fst ?upload, snd ?upload)" by (rule prod.collapse [symmetric])
  have body: "st_values sample_body = GMap [(''id'', GStr ''@context'')] # [GMap [(''id'', GStr ''ns0:1'')]]"
      "list_all2 (\<lambda>v e. as_entity v = Inr e) [GMap [(''id'', GStr ''ns0:1'')]] [new_entity\<lparr>ent_id := ''ns0:1''\<rparr>]"
      "\<forall>e \<in> set [new_entity\<lparr>ent_id := ''ns0:1''\<rparr>].
        isl (entity_value sample_lib sample_producer (empty_ctx\<lparr>ctx_id := ''@context''\<rparr>) e) = False"
    by (simp_all add: sample_body_def sample_upload entity_value_def sample_producer_def zero_producer_config_def)
  from started_service_writes [where H = "\<lambda>_ _. snd ?upload" and c = dataset_post,
      OF reading_app reading_service chain h(1,2) cors h(3-5) run reading_config h(6) sample_writer body(1)
        sample_upload(1) body(2,3)]
  show ?thesis by (auto simp: no_writers_def)
qed

section \<open>An upload, from the chain of middleware to the producer\<close>

text \<open>
  C35.  An upload with an entity for a dataset no producer is configured for ends in a nil dereference,
  which the recovery layer answers with status 500; nothing is written.
\<close>

theorem unknown_upload_fails:
  assumes "config_for_dataset ps d = None" and "st_values body = v # vs" and "as_context v = Inr cx"
    and "list_all2 (\<lambda>v e. as_entity v = Inr e) vs es" and "es \<noteq> []" and "\<not> skipper c"
    and "mode = ''noop'' \<or> jwt_allow J cfg jwks c \<and> auth_allow I ws (jwt_pass J cfg jwks c)"
  shows "serve mode render (\<lambda>h. h) J cfg jwks I (Some ws)
      (\<lambda>_. snd (produce batch_size (produce_entities L U W ps d) body st)) c
    = Reply 500 (render 500 ''Internal Server Error'')
    \<and> fst (produce batch_size (produce_entities L U W ps d) body st) = st"
proof -
  have p: "produce batch_size (produce_entities L U W ps d) body st = (st, ReplyPanic None NilDereference)"
    using produce_unknown [OF assms(1-5), of batch_size] by (simp add: batch_size_def)
  show ?thesis
  proof (cases "mode = ''noop''")
    case True
    with assms(6) show ?thesis
      by (simp add: p serve_def configure_def guarded_def chosen_authorizer_def no_op_authorizer_def
          logger_filter_def recover_mw_def)
  next
    case False
    with assms(7) have allow: "jwt_allow J cfg jwks c" "auth_allow I ws (jwt_pass J cfg jwks c)" by auto
    from False assms(6) show ?thesis
      by (simp add: p serve_def configure_def guarded_def chosen_authorizer_def logger_filter_def
          jwt.passes [OF allow(1)] recover_mw_def auth.passes [OF allow(2)])
  qed
qed

theorem unknown_upload_fails_witness:
  "serve ''noop'' (\<lambda>_ s. s) (\<lambda>h. h) sample_jwt sample_auth0 (Inr None) sample_intersect (Some [''datahub:w''])
     (\<lambda>_. snd (produce batch_size (produce_entities sample_lib (\<lambda>_. []) (\<lambda>_ ms. (ms, None)) [] ''ds'') sample_body
        no_writers)) sample_request
   = Reply 500 ''Internal Server Error''"
proof -
  have "st_values sample_body = GMap [(''id'', GStr ''@context'')] # [GMap [(''id'', GStr ''ns0:1'')]]"
    by (simp add: sample_body_def)
  moreover have "list_all2 (\<lambda>v e. as_entity v = Inr e) [GMap [(''id'', GStr ''ns0:1'')]] [new_entity\<lparr>ent_id := ''ns0:1''\<rparr>]"
    by (simp add: sample_upload)
  moreover have "\<not> skipper sample_request" by code_simp
  ultimately show ?thesis
    using unknown_upload_fails [of "[]" "''ds''", OF _ _ sample_upload(1), where c = sample_request
        and mode = "''noop''" and body = sample_body and vs = "[GMap [(''id'', GStr ''ns0:1'')]]"
        and es = "[new_entity\<lparr>ent_id := ''ns0:1''\<rparr>]" and render = "\<lambda>_ s. s"]
    by (simp add: config_for_dataset_def)
qed

section \<open>Starting without a configuration\<close>

text \<open>
  When the first load gives nothing usable the manager has no configuration, and the start hooks
  of the producers and of the consumers panic, whatever the admin client would do.
\<close>

lemma failed_first_load_stops_start:
  assumes "\<And>c. md5 c \<noteq> replicate 16 (CHR 0x00)"
    and "Option.bind (snd (fetch L w \<lparr>mg_location = location, mg_datalayer = Some zero_config,
          mg_state = \<lparr>st_timestamp = wd_unix w, st_digest = replicate 16 (CHR 0x00)\<rparr>,
          mg_providers = ps, mg_listeners = []\<rparr>)) parse_config = None"
  shows "mg_datalayer (new_manager L md5 w location ps) = None
    \<and> producers_on_start A (mg_datalayer (new_manager L md5 w location ps)) = (None, Inl (Panic NilDereference))
    \<and> consumers_on_start (mg_datalayer (new_manager L md5 w location ps)) = Inl (Panic NilDereference)"
proof -
  let ?m = "\<lparr>mg_location = location, mg_datalayer = Some zero_config,
    mg_state = \<lparr>st_timestamp = wd_unix w, st_digest = replicate 16 (CHR 0x00)\<rparr>,
    mg_providers = ps, mg_listeners = []\<rparr>"
  have "load L md5 w ?m = (?m\<lparr>mg_providers := fst (fetch L w ?m)\<rparr>, None, [])"
  proof (rule load_no_content)
    show "snd (fetch L w ?m) = None \<or> (\<exists>c. snd (fetch L w ?m) = Some c \<and> parse_config c = None
        \<and> md5 c \<noteq> st_digest (mg_state ?m))"
      using assms(2) assms(1) by (cases "snd (fetch L w ?m)") auto
  qed
  then have "mg_datalayer (new_manager L md5 w location ps) = None"
    by (simp add: new_manager_def)
  then show ?thesis by (simp add: producers_on_start_def consumers_on_start_def)
qed

lemma failed_first_load_stops_start_witness:
  "consumers_on_start (mg_datalayer (new_manager sample_lib (Cons (CHR ''d'')) (sample_world ''{'') ''file://x'' []))
     = Inl (Panic NilDereference)"
proof -
  have "CHR ''d'' # c \<noteq> replicate 16 (CHR 0x00)" for c
    by (simp add: numeral_eq_Suc)
  moreover have "Option.bind (snd (fetch sample_lib (sample_world ''{'') \<lparr>mg_location = ''file://x'',
      mg_datalayer = Some zero_config,
      mg_state = \<lparr>st_timestamp = wd_unix (sample_world ''{''), st_digest = replicate 16 (CHR 0x00)\<rparr>,
      mg_providers = [], mg_listeners = []\<rparr>)) parse_config = None"
    by code_simp
  ultimately show ?thesis
    using failed_first_load_stops_start [of "Cons (CHR ''d'')" sample_lib "sample_world ''{''" "''file://x''" "[]"]
    by blast
qed

end
